theory Spec2Isabelle
  imports Complex_Main "HOL-Library.AList"
begin

section \<open>JavaScript values\<close>

text \<open>
  The store holds JSON rows and the action layer computes with JavaScript values.
  Numbers are idealised as rationals (no rounding, no infinities): an arithmetic
  operation of the host is its exact counterpart, which it is whenever the exact result
  is a number that the host represents. \<open>JNaN\<close> is the not-a-number value and \<open>JUndef\<close>
  is \<open>undefined\<close>. Neither of the two survives serialisation to the store (\<open>to_json\<close>).
\<close>

datatype jval =
    JUndef
  | JNull
  | JNaN
  | JBool bool
  | JNum rat
  | JStr string
  | JArr "jval list"
  | JObj "(string \<times> jval) list"

type_synonym row = "(string \<times> jval) list"

text \<open>Serialisation of a value sent to the store: \<open>undefined\<close> members are dropped from
  objects and become \<open>null\<close> in arrays, \<open>NaN\<close> becomes \<open>null\<close>.\<close>

fun to_json :: "jval \<Rightarrow> jval" where
  "to_json JUndef = JNull"
| "to_json JNaN = JNull"
| "to_json (JArr xs) = JArr (map to_json xs)"
| "to_json (JObj kvs) =
     JObj (map (\<lambda>(k, v). (k, to_json v)) (filter (\<lambda>(k, v). v \<noteq> JUndef) kvs))"
| "to_json v = v"

text \<open>An object has one value for each key: in an association list the first entry of a
  key is the one that counts (\<open>AList.clearjunk\<close> removes the others).\<close>

definition json_row :: "row \<Rightarrow> row" where
  "json_row kvs =
     map (\<lambda>(k, v). (k, to_json v)) (filter (\<lambda>(k, v). v \<noteq> JUndef) (AList.clearjunk kvs))"

text \<open>\<open>get_prop\<close> reads a property of a JavaScript object (absent reads \<open>undefined\<close>);
  \<open>col\<close> reads a column of a row delivered by the store (a column without a value
  reads \<open>null\<close>).\<close>

definition get_prop :: "row \<Rightarrow> string \<Rightarrow> jval" where
  "get_prop r k = (case map_of r k of Some v \<Rightarrow> v | None \<Rightarrow> JUndef)"

definition col :: "row \<Rightarrow> string \<Rightarrow> jval" where
  "col r k = (case map_of r k of Some v \<Rightarrow> v | None \<Rightarrow> JNull)"

text \<open>Object spread \<open>{...base, ...extra}\<close> and the store's column-wise overwrite.\<close>

definition spread :: "row \<Rightarrow> row \<Rightarrow> row" where
  "spread base extra = AList.merge base extra"

fun truthy :: "jval \<Rightarrow> bool" where
  "truthy JUndef = False"
| "truthy JNull = False"
| "truthy JNaN = False"
| "truthy (JBool b) = b"
| "truthy (JNum n) = (n \<noteq> 0)"
| "truthy (JStr s) = (s \<noteq> [])"
| "truthy (JArr xs) = True"
| "truthy (JObj kvs) = True"

text \<open>\<open>typeof v === 'object'\<close> for a truthy value.\<close>

fun is_object :: "jval \<Rightarrow> bool" where
  "is_object (JArr xs) = True"
| "is_object (JObj kvs) = True"
| "is_object v = False"

text \<open>\<open>a || b\<close> and \<open>a ?? b\<close>.\<close>

definition js_or :: "jval \<Rightarrow> jval \<Rightarrow> jval" where
  "js_or a b = (if truthy a then a else b)"

definition js_nullish :: "jval \<Rightarrow> jval \<Rightarrow> jval" where
  "js_nullish a b = (if a = JNull \<or> a = JUndef then b else a)"

section \<open>The world: store contents and the environment of a request\<close>

text \<open>
  \<^item> \<open>tables\<close>: the rows of every table of the relational store, by table name;
  \<^item> \<open>faults\<close>: the answers of the store to the requests still to come, \<open>faults w n\<close>
    for the one after \<open>n\<close> others: \<open>True\<close> when the store answers with an error (a
    failed request changes nothing);
  \<^item> \<open>rnd\<close>: the strings that the random identifier expressions
    (\<open>Math.random().toString(36).substring(...)\<close>) will produce, the next one first;
  \<^item> \<open>now\<close>: the reading of \<open>new Date().toISOString()\<close>;
  \<^item> \<open>str_of\<close>, \<open>num_of\<close>, \<open>fixed2\<close>: the host's conversions of a value to a string,
    of a string to a number and \<open>toFixed(2)\<close> of a number (\<open>None\<close> is \<open>NaN\<close>).

  Requests are applied to the store one at a time, in the order in which the program
  issues them; interleavings of several pending requests are outside this model.
\<close>

record world =
  tables :: "string \<Rightarrow> row list"
  faults :: "nat \<Rightarrow> bool"
  rnd :: "nat \<Rightarrow> string"
  now :: string
  str_of :: "jval \<Rightarrow> string"
  num_of :: "string \<Rightarrow> rat option"
  fixed2 :: "rat option \<Rightarrow> string"

datatype exn = StoreError | TypeError | Error string

type_synonym 'a act = "world \<Rightarrow> (exn + 'a) \<times> world"

definition ret :: "'a \<Rightarrow> 'a act" where
  "ret x w = (Inr x, w)"

definition throw :: "exn \<Rightarrow> 'a act" where
  "throw e w = (Inl e, w)"

text \<open>\<open>bnd m f\<close>: await \<open>m\<close>, then continue with \<open>f\<close>; an exception of \<open>m\<close> skips \<open>f\<close>.\<close>

definition bnd :: "'a act \<Rightarrow> ('a \<Rightarrow> 'b act) \<Rightarrow> 'b act" where
  "bnd m f w = (case m w of (Inl e, w') \<Rightarrow> (Inl e, w') | (Inr x, w') \<Rightarrow> f x w')"

definition try_catch :: "'a act \<Rightarrow> (exn \<Rightarrow> 'a act) \<Rightarrow> 'a act" where
  "try_catch m h w = (case m w of (Inl e, w') \<Rightarrow> h e w' | (Inr x, w') \<Rightarrow> (Inr x, w'))"

text \<open>A promise that the caller never awaits: its requests are issued, its result and
  its rejection are dropped. The rejection is lost to the action only: the host reports
  it as an unhandled rejection, outside of every \<open>try\<close>. The requests of the promise are
  taken to be answered before the next request of the caller; whenever a statement below
  is about an action with such a promise, it is about a store that answers every
  request, where no promise is rejected.\<close>

definition detached :: "'a act \<Rightarrow> unit act" where
  "detached m w = (Inr (), snd (m w))"

definition advance :: "world \<Rightarrow> world" where
  "advance w = w\<lparr>rnd := (\<lambda>n. rnd w (Suc n))\<rparr>"

definition random_id :: "string act" where
  "random_id w = (Inr (rnd w 0), advance w)"

subsection \<open>Arithmetic of the host\<close>

text \<open>\<open>Number(v)\<close>; \<open>None\<close> is \<open>NaN\<close>.\<close>

fun to_number :: "world \<Rightarrow> jval \<Rightarrow> rat option" where
  "to_number w JUndef = None"
| "to_number w JNull = Some 0"
| "to_number w JNaN = None"
| "to_number w (JBool b) = Some (if b then 1 else 0)"
| "to_number w (JNum n) = Some n"
| "to_number w (JStr s) = num_of w s"
| "to_number w (JArr xs) = num_of w (str_of w (JArr xs))"
| "to_number w (JObj kvs) = num_of w (str_of w (JObj kvs))"

definition of_number :: "rat option \<Rightarrow> jval" where
  "of_number x = (case x of Some n \<Rightarrow> JNum n | None \<Rightarrow> JNaN)"

fun is_stringy :: "jval \<Rightarrow> bool" where
  "is_stringy (JStr s) = True"
| "is_stringy (JArr xs) = True"
| "is_stringy (JObj kvs) = True"
| "is_stringy v = False"

definition arith :: "(rat \<Rightarrow> rat \<Rightarrow> rat) \<Rightarrow> world \<Rightarrow> jval \<Rightarrow> jval \<Rightarrow> jval" where
  "arith f w a b =
     (case (to_number w a, to_number w b) of
        (Some x, Some y) \<Rightarrow> JNum (f x y)
      | _ \<Rightarrow> JNaN)"

text \<open>\<open>a + b\<close> concatenates as soon as one operand is a string, an array or an object.\<close>

definition js_add :: "world \<Rightarrow> jval \<Rightarrow> jval \<Rightarrow> jval" where
  "js_add w a b =
     (if is_stringy a \<or> is_stringy b then JStr (str_of w a @ str_of w b)
      else arith (+) w a b)"

definition js_sub :: "world \<Rightarrow> jval \<Rightarrow> jval \<Rightarrow> jval" where
  "js_sub w a b = arith (-) w a b"

definition js_mul :: "world \<Rightarrow> jval \<Rightarrow> jval \<Rightarrow> jval" where
  "js_mul w a b = arith (*) w a b"

text \<open>\<open>a < b\<close> on a number and a numeric literal; a comparison with \<open>NaN\<close> is false.\<close>

definition js_lt :: "world \<Rightarrow> jval \<Rightarrow> jval \<Rightarrow> bool" where
  "js_lt w a b =
     (case (to_number w a, to_number w b) of
        (Some x, Some y) \<Rightarrow> x < y
      | _ \<Rightarrow> False)"

definition js_gt :: "world \<Rightarrow> jval \<Rightarrow> jval \<Rightarrow> bool" where
  "js_gt w a b = js_lt w b a"

section \<open>The relational store client\<close>

text \<open>
  The client library is not part of the repository. It is modelled by what its calls
  mean on tables: a filter compares the stored column with the serialised operand, a
  row is identified by its \<open>id\<close> column, \<open>insert\<close> is refused when the identifier is
  taken, \<open>upsert\<close> overwrites the given columns of the row that has the identifier or
  appends a new row, \<open>update\<close> overwrites the given columns of the matching rows (and
  reports no error when there is none), \<open>single()\<close> reports an error unless exactly one
  row matches. Every call is one request; \<open>None\<close> is an answer with \<open>error\<close> set.

  The equality filter \<open>eq(field, value)\<close> is the equality of the store, which no empty
  column satisfies: with the operand \<open>null\<close> the client sends the comparison with the
  word \<open>null\<close>, not the test for an empty column (that is the separate filter \<open>is\<close>,
  which the shim never calls), so \<open>eq(field, null)\<close> selects no row.
\<close>

datatype sfilter = FEq string jval | FIn string "jval list" | FContains string "jval list"

fun matches :: "row \<Rightarrow> sfilter \<Rightarrow> bool" where
  "matches r (FEq f v) = (to_json v \<noteq> JNull \<and> col r f = to_json v)"
| "matches r (FIn f vs) = (col r f \<in> set (map to_json vs))"
| "matches r (FContains f vs) =
     (case col r f of JArr xs \<Rightarrow> list_all (\<lambda>v. to_json v \<in> set xs) vs | _ \<Rightarrow> False)"

text \<open>Whether the next request fails, and the world once it has been answered.\<close>

definition failing :: "world \<Rightarrow> bool" where
  "failing w = faults w 0"

definition tick :: "world \<Rightarrow> world" where
  "tick w = w\<lparr>faults := (\<lambda>n. faults w (Suc n))\<rparr>"

definition put_table :: "string \<Rightarrow> row list \<Rightarrow> world \<Rightarrow> world" where
  "put_table c rs w = w\<lparr>tables := (tables w)(c := rs)\<rparr>"

definition has_id :: "jval \<Rightarrow> row \<Rightarrow> bool" where
  "has_id i r = (col r ''id'' = to_json i)"

text \<open>The rows of a table after an upsert of the serialised row \<open>p\<close>, and after an update
  of the rows with identifier \<open>i\<close> by the serialised columns \<open>p\<close>.\<close>

definition upsert_rows :: "row \<Rightarrow> row list \<Rightarrow> row list" where
  "upsert_rows p rows =
     (if list_ex (has_id (col p ''id'')) rows
      then map (\<lambda>r. if has_id (col p ''id'') r then spread r p else r) rows
      else rows @ [p])"

definition update_rows :: "jval \<Rightarrow> row \<Rightarrow> row list \<Rightarrow> row list" where
  "update_rows i p rows = map (\<lambda>r. if has_id i r then spread r p else r) rows"

definition sb_select :: "string \<Rightarrow> sfilter list \<Rightarrow> world \<Rightarrow> row list option \<times> world" where
  "sb_select c fs w =
     (if failing w then (None, tick w)
      else (Some (filter (\<lambda>r. list_all (matches r) fs) (tables w c)), tick w))"

definition sb_single :: "string \<Rightarrow> jval \<Rightarrow> world \<Rightarrow> row option \<times> world" where
  "sb_single c i w =
     (if failing w then (None, tick w)
      else (case filter (has_id i) (tables w c) of
              [r] \<Rightarrow> (Some r, tick w)
            | _ \<Rightarrow> (None, tick w)))"

definition sb_insert :: "string \<Rightarrow> row \<Rightarrow> world \<Rightarrow> bool \<times> world" where
  "sb_insert c payload w =
     (let p = json_row payload in
      if failing w \<or> list_ex (has_id (col p ''id'')) (tables w c) then (False, tick w)
      else (True, tick (put_table c (tables w c @ [p]) w)))"

definition sb_upsert :: "string \<Rightarrow> row \<Rightarrow> world \<Rightarrow> bool \<times> world" where
  "sb_upsert c payload w =
     (if failing w then (False, tick w)
      else (True, tick (put_table c (upsert_rows (json_row payload) (tables w c)) w)))"

definition sb_update :: "string \<Rightarrow> jval \<Rightarrow> row \<Rightarrow> world \<Rightarrow> bool \<times> world" where
  "sb_update c i payload w =
     (if failing w then (False, tick w)
      else (True, tick (put_table c (update_rows i (json_row payload) (tables w c)) w)))"

definition sb_delete :: "string \<Rightarrow> jval \<Rightarrow> world \<Rightarrow> bool \<times> world" where
  "sb_delete c i w =
     (if failing w then (False, tick w)
      else (True, tick (put_table c (filter (\<lambda>r. \<not> has_id i r) (tables w c)) w)))"

section \<open>The access shim (\<open>dbAdapter\<close>)\<close>

text \<open>A document reference is a table name and an identifier; a snapshot of a single
  document is its row, or \<open>None\<close> when \<open>exists()\<close> is false. The documents of a query
  snapshot are the rows themselves (\<open>doc.data()\<close>), \<open>doc.id\<close> is the row's \<open>id\<close> column.\<close>

type_synonym docref = "string \<times> jval"

definition doc_ref :: "string \<Rightarrow> row \<Rightarrow> docref" where
  "doc_ref c r = (c, col r ''id'')"

definition collection_getDocs :: "string \<Rightarrow> row list act" where
  "collection_getDocs c w =
     (case sb_select c [] w of
        (None, w') \<Rightarrow> (Inr [], w')
      | (Some rs, w') \<Rightarrow> (Inr rs, w'))"

definition collection_add :: "string \<Rightarrow> row \<Rightarrow> row act" where
  "collection_add c data w =
     (case (if truthy (get_prop data ''id'') then (Inr (get_prop data ''id''), w)
            else (case random_id w of (r, w0) \<Rightarrow> (map_sum id JStr r, w0))) of
        (Inl e, w1) \<Rightarrow> (Inl e, w1)
      | (Inr i, w1) \<Rightarrow>
          (case sb_insert c (spread data [(''id'', i)]) w1 of
             (False, w') \<Rightarrow> (Inl StoreError, w')
           | (True, w') \<Rightarrow> (Inr (spread [(''id'', i)] data), w')))"

definition doc_get :: "docref \<Rightarrow> row option act" where
  "doc_get ref w = (case sb_single (fst ref) (snd ref) w of (r, w') \<Rightarrow> (Inr r, w'))"

definition doc_set :: "docref \<Rightarrow> row \<Rightarrow> bool \<Rightarrow> unit act" where
  "doc_set ref data merge w =
     (if merge then
        (case sb_upsert (fst ref) (spread data [(''id'', snd ref)]) w of
           (False, w') \<Rightarrow> (Inl StoreError, w')
         | (True, w') \<Rightarrow> (Inr (), w'))
      else
        (case sb_upsert (fst ref) (spread data [(''id'', snd ref)]) w of
           (False, w') \<Rightarrow> (Inl StoreError, w')
         | (True, w') \<Rightarrow> (Inr (), w')))"

subsection \<open>\<open>update\<close>: operators and dotted keys\<close>

text \<open>An array index in canonical decimal notation.\<close>

definition parse_index :: "string \<Rightarrow> nat option" where
  "parse_index s =
     (if s = [] \<or> \<not> list_all (\<lambda>c. 48 \<le> (of_char c :: nat) \<and> (of_char c :: nat) \<le> 57) s
         \<or> (hd s = CHR ''0'' \<and> length s > 1)
      then None
      else Some (foldl (\<lambda>a c. 10 * a + ((of_char c :: nat) - 48)) 0 s))"

text \<open>\<open>v[k]\<close> and \<open>v[k] = x\<close> on a value held by reference. Prototype members
  (\<open>length\<close>, methods) are not modelled; a named property put on an array is lost when
  the row is serialised; assigning to a primitive is a \<open>TypeError\<close> (module code is
  strict).\<close>

fun js_get :: "jval \<Rightarrow> string \<Rightarrow> jval" where
  "js_get (JObj kvs) k = get_prop kvs k"
| "js_get (JArr xs) k =
     (case parse_index k of
        Some i \<Rightarrow> (if i < length xs then xs ! i else JUndef)
      | None \<Rightarrow> JUndef)"
| "js_get v k = JUndef"

fun js_put :: "jval \<Rightarrow> string \<Rightarrow> jval \<Rightarrow> exn + jval" where
  "js_put (JObj kvs) k x = Inr (JObj (AList.update k x kvs))"
| "js_put (JArr xs) k x =
     (case parse_index k of
        Some i \<Rightarrow>
          Inr (JArr (if i < length xs then xs[i := x]
                     else xs @ replicate (i - length xs) JUndef @ [x]))
      | None \<Rightarrow> Inr (JArr xs))"
| "js_put v k x = Inl TypeError"

text \<open>\<open>key.split('.')\<close>.\<close>

fun split_dots :: "string \<Rightarrow> string list" where
  "split_dots [] = [[]]"
| "split_dots (c # cs) =
     (if c = CHR ''.'' then [] # split_dots cs
      else (case split_dots cs of
              p # ps \<Rightarrow> (c # p) # ps
            | [] \<Rightarrow> [[c]]))"

text \<open>The walk of a dotted key: every part but the last is entered, created as \<open>{}\<close>
  when it reads falsy; the last part receives the value.\<close>

fun set_path :: "string list \<Rightarrow> jval \<Rightarrow> jval \<Rightarrow> exn + jval" where
  "set_path [] x target = Inr target"
| "set_path [p] x target = js_put target p x"
| "set_path (p # q # ps) x target =
     (if truthy (js_get target p) then
        (case set_path (q # ps) x (js_get target p) of
           Inl e \<Rightarrow> Inl e
         | Inr child \<Rightarrow> js_put target p child)
      else
        (case js_put target p (JObj []) of
           Inl e \<Rightarrow> Inl e
         | Inr t \<Rightarrow>
             (case set_path (q # ps) x (JObj []) of
                Inl e \<Rightarrow> Inl e
              | Inr child \<Rightarrow> js_put target p child)))"

text \<open>\<open>xs.includes(v)\<close>: primitives by value, arrays and objects by identity (a value
  read back from the store is never identical to the operand).\<close>

definition js_includes :: "jval list \<Rightarrow> jval \<Rightarrow> bool" where
  "js_includes xs v = (\<not> is_object v \<and> v \<in> set xs)"

definition increment :: "jval \<Rightarrow> jval" where
  "increment v = JObj [(''__op'', JStr ''increment''), (''value'', v)]"

definition arrayUnion :: "jval \<Rightarrow> jval" where
  "arrayUnion v = JObj [(''__op'', JStr ''arrayUnion''), (''value'', v)]"

definition hasSpecialOps :: "row \<Rightarrow> bool" where
  "hasSpecialOps data =
     list_ex (\<lambda>(k, v). truthy v \<and> is_object v \<and> truthy (js_get v ''__op'')) data"

definition hasDotNotation :: "row \<Rightarrow> bool" where
  "hasDotNotation data = list_ex (\<lambda>(k, v). CHR ''.'' \<in> set k) data"

text \<open>One round of the loop \<open>for (const key in data)\<close> over the fetched copy.\<close>

definition apply_key :: "world \<Rightarrow> row \<Rightarrow> string \<Rightarrow> jval \<Rightarrow> exn + row" where
  "apply_key w updated key v =
     (if CHR ''.'' \<in> set key then
        (case set_path (split_dots key) v (JObj updated) of
           Inl e \<Rightarrow> Inl e
         | Inr (JObj u) \<Rightarrow> Inr u
         | Inr other \<Rightarrow> Inr updated)
      else if truthy v \<and> is_object v \<and> js_get v ''__op'' = JStr ''increment'' then
        Inr (AList.update key
               (js_add w (js_or (of_number (to_number w (get_prop updated key))) (JNum 0))
                         (js_get v ''value''))
               updated)
      else if truthy v \<and> is_object v \<and> js_get v ''__op'' = JStr ''arrayUnion'' then
        (let arr = (case get_prop updated key of JArr xs \<Rightarrow> xs | _ \<Rightarrow> [])
         in Inr (AList.update key
                   (JArr (if js_includes arr (js_get v ''value'') then arr
                          else arr @ [js_get v ''value'']))
                   updated))
      else Inr (AList.update key v updated))"

fun apply_keys :: "world \<Rightarrow> row \<Rightarrow> row \<Rightarrow> exn + row" where
  "apply_keys w updated [] = Inr updated"
| "apply_keys w updated ((key, v) # rest) =
     (case apply_key w updated key v of
        Inl e \<Rightarrow> Inl e
      | Inr u \<Rightarrow> apply_keys w u rest)"

definition doc_update :: "docref \<Rightarrow> row \<Rightarrow> unit act" where
  "doc_update ref data w =
     (if hasSpecialOps data \<or> hasDotNotation data then
        (case sb_single (fst ref) (snd ref) w of
           (None, w') \<Rightarrow> (Inl (Error ''Document not found for update''), w')
         | (Some current, w') \<Rightarrow>
             (case apply_keys w' current data of
                Inl e \<Rightarrow> (Inl e, w')
              | Inr updated \<Rightarrow>
                  (case sb_update (fst ref) (snd ref) updated w' of
                     (False, w'') \<Rightarrow> (Inl StoreError, w'')
                   | (True, w'') \<Rightarrow> (Inr (), w''))))
      else
        (case sb_update (fst ref) (snd ref) data w of
           (False, w') \<Rightarrow> (Inl StoreError, w')
         | (True, w') \<Rightarrow> (Inr (), w')))"

definition doc_delete :: "docref \<Rightarrow> unit act" where
  "doc_delete ref w =
     (case sb_delete (fst ref) (snd ref) w of
        (False, w') \<Rightarrow> (Inl StoreError, w')
      | (True, w') \<Rightarrow> (Inr (), w'))"

subsection \<open>\<open>query\<close>\<close>

text \<open>A condition is \<open>{field, op, value}\<close> as built by \<open>where\<close>; the operator is a
  string. The membership filter of the client iterates its operand (\<open>None\<close>: the operand
  is not iterable, a \<open>TypeError\<close>).\<close>

datatype cond = Where string string jval

fun iterate :: "jval \<Rightarrow> jval list option" where
  "iterate (JArr xs) = Some xs"
| "iterate (JStr s) = Some (map (\<lambda>c. JStr [c]) s)"
| "iterate JNull = Some []"
| "iterate JUndef = Some []"
| "iterate v = None"

text \<open>The loop over the conditions: each recognised operator adds a filter to the
  request under construction; the chain of \<open>if\<close>/\<open>else if\<close> has no final \<open>else\<close>.\<close>

fun add_conditions :: "sfilter list \<Rightarrow> cond list \<Rightarrow> exn + sfilter list" where
  "add_conditions q [] = Inr q"
| "add_conditions q (Where f oper v # rest) =
     (if oper = ''=='' then add_conditions (q @ [FEq f v]) rest
      else if oper = ''in'' then
        (case iterate v of
           None \<Rightarrow> Inl TypeError
         | Some vs \<Rightarrow> add_conditions (q @ [FIn f vs]) rest)
      else if oper = ''array-contains'' then add_conditions (q @ [FContains f [v]]) rest
      else add_conditions q rest)"

definition dbAdapter_query :: "string \<Rightarrow> cond list \<Rightarrow> row list act" where
  "dbAdapter_query c conditions w =
     (case add_conditions [] conditions of
        Inl e \<Rightarrow> (Inl e, w)
      | Inr q \<Rightarrow>
          (case sb_select c q w of
             (None, w') \<Rightarrow> (Inr [], w')
           | (Some rs, w') \<Rightarrow> (Inr rs, w')))"

subsection \<open>\<open>runTransaction\<close>\<close>

text \<open>The object handed to the caller's function: three operations that forward to the
  document reference at once. Nothing is deferred and nothing is undone.\<close>

record transaction =
  tx_get :: "docref \<Rightarrow> row option act"
  tx_set :: "docref \<Rightarrow> row \<Rightarrow> bool \<Rightarrow> unit act"
  tx_update :: "docref \<Rightarrow> row \<Rightarrow> unit act"

definition the_transaction :: transaction where
  "the_transaction = \<lparr> tx_get = doc_get, tx_set = doc_set, tx_update = doc_update \<rparr>"

definition runTransaction :: "(transaction \<Rightarrow> 'a act) \<Rightarrow> 'a act" where
  "runTransaction updateFunction = updateFunction the_transaction"

section \<open>The helpers of the action layer (\<open>actions.ts\<close>)\<close>

definition host :: "(world \<Rightarrow> 'a) \<Rightarrow> 'a act" where
  "host f w = (Inr (f w), w)"

text \<open>\<open>doc(db, col, id)\<close> and \<open>doc(collection(db, name))\<close>, the latter with a fresh random
  identifier.\<close>

definition doc :: "string \<Rightarrow> jval \<Rightarrow> docref act" where
  "doc c i = (if c \<noteq> [] \<and> truthy i then ret (c, i) else throw (Error ''Invalid doc usage''))"

definition doc_auto :: "string \<Rightarrow> docref act" where
  "doc_auto c = bnd random_id (\<lambda>newId. ret (c, JStr newId))"

text \<open>\<open>getDocs\<close> receives a table name or the description built by \<open>query\<close>.\<close>

datatype qarg = Collection string | Query string "cond list"

fun getDocs :: "qarg \<Rightarrow> row list act" where
  "getDocs (Collection c) = collection_getDocs c"
| "getDocs (Query c conditions) = dbAdapter_query c conditions"

definition getDoc :: "docref \<Rightarrow> row option act" where
  "getDoc ref = doc_get ref"

definition updateDoc :: "docref \<Rightarrow> row \<Rightarrow> unit act" where
  "updateDoc ref data = doc_update ref data"

definition setDoc :: "docref \<Rightarrow> row \<Rightarrow> bool \<Rightarrow> unit act" where
  "setDoc ref data merge = doc_set ref data merge"

definition deleteDoc :: "docref \<Rightarrow> unit act" where
  "deleteDoc ref = doc_delete ref"

text \<open>\<open>writeBatch\<close>: every queued operation is started when it is queued; the batch
  keeps the promises, here their outcomes. \<open>commit\<close> awaits them all and rethrows a
  rejection. The operations are taken to run one after the other, in the order in which
  they are queued; two queued operations that read and write the same row can overlap
  at run time, and such batches are outside this model.\<close>

type_synonym batch = "exn option list"

definition batch_push :: "batch \<Rightarrow> unit act \<Rightarrow> batch act" where
  "batch_push b p w =
     (case p w of
        (Inl e, w') \<Rightarrow> (Inr (b @ [Some e]), w')
      | (Inr u, w') \<Rightarrow> (Inr (b @ [None]), w'))"

definition batch_update :: "batch \<Rightarrow> docref \<Rightarrow> row \<Rightarrow> batch act" where
  "batch_update b ref data = batch_push b (doc_update ref data)"

definition batch_delete :: "batch \<Rightarrow> docref \<Rightarrow> batch act" where
  "batch_delete b ref = batch_push b (doc_delete ref)"

definition batch_set :: "batch \<Rightarrow> docref \<Rightarrow> row \<Rightarrow> bool \<Rightarrow> batch act" where
  "batch_set b ref data merge = batch_push b (doc_set ref data merge)"

definition batch_commit :: "batch \<Rightarrow> unit act" where
  "batch_commit b =
     (case List.find (\<lambda>outcome. outcome \<noteq> None) b of
        Some (Some e) \<Rightarrow> throw e
      | _ \<Rightarrow> ret ())"

definition USERS_COLLECTION :: string where "USERS_COLLECTION = ''users_v4''"
definition REPRESENTATIVES_COLLECTION :: string where
  "REPRESENTATIVES_COLLECTION = ''representatives_v4''"
definition ORDERS_COLLECTION :: string where "ORDERS_COLLECTION = ''orders_v4''"
definition TEMP_ORDERS_COLLECTION :: string where "TEMP_ORDERS_COLLECTION = ''tempOrders_v4''"
definition TRANSACTIONS_COLLECTION :: string where
  "TRANSACTIONS_COLLECTION = ''transactions_v4''"
definition SETTINGS_COLLECTION :: string where "SETTINGS_COLLECTION = ''settings_v4''"
definition CREDITORS_COLLECTION :: string where "CREDITORS_COLLECTION = ''creditors_v4''"

text \<open>\<open>s.startsWith(p)\<close> on a truthy value: only a string has the method.\<close>

fun js_startsWith :: "jval \<Rightarrow> string \<Rightarrow> exn + bool" where
  "js_startsWith (JStr s) p = Inr (take (length p) s = p)"
| "js_startsWith v p = Inl TypeError"

text \<open>\<open>v.length\<close>.\<close>

fun js_length :: "jval \<Rightarrow> exn + jval" where
  "js_length (JArr xs) = Inr (JNum (of_nat (length xs)))"
| "js_length (JStr s) = Inr (JNum (of_nat (length s)))"
| "js_length JNull = Inl TypeError"
| "js_length JUndef = Inl TypeError"
| "js_length v = Inr JUndef"

text \<open>\<open>s.padStart(2, '0')\<close>.\<close>

definition padStart2 :: "string \<Rightarrow> string" where
  "padStart2 s = replicate (2 - length s) CHR ''0'' @ s"

text \<open>The descriptions written to the ledger are Arabic phrases followed by formatted
  values; the phrases are replaced by ASCII tags, no operation reads them.\<close>

definition msg_order_created :: string where "msg_order_created = ''[order created] ''"
definition msg_down_payment :: string where "msg_down_payment = ''[down payment] ''"
definition msg_weight_changed :: string where "msg_weight_changed = ''[weight changed] ''"
definition msg_weight_previous :: string where "msg_weight_previous = '' [previous] ''"

section \<open>Recalculation of a user's statistics\<close>

definition activeStatuses :: "jval list" where
  "activeStatuses =
     map JStr [''pending'', ''processed'', ''ready'', ''shipped'', ''arrived_dubai'',
               ''arrived_benghazi'', ''arrived_tobruk'', ''out_for_delivery'',
               ''delivered'', ''paid'']"

text \<open>The two \<open>forEach\<close> loops that accumulate \<open>totalDebt\<close>.\<close>

fun add_order_debts :: "world \<Rightarrow> jval \<Rightarrow> row list \<Rightarrow> jval" where
  "add_order_debts w totalDebt [] = totalDebt"
| "add_order_debts w totalDebt (d # ds) =
     add_order_debts w (js_add w totalDebt (js_or (col d ''remainingAmount'') (JNum 0))) ds"

fun add_temp_debts :: "world \<Rightarrow> jval \<Rightarrow> row list \<Rightarrow> jval" where
  "add_temp_debts w totalDebt [] = totalDebt"
| "add_temp_debts w totalDebt (d # ds) =
     add_temp_debts w
       (if col d ''status'' \<noteq> JStr ''cancelled''
        then js_add w totalDebt (js_or (col d ''remainingAmount'') (JNum 0))
        else totalDebt)
       ds"

definition recalculateUserStats :: "jval \<Rightarrow> unit act" where
  "recalculateUserStats userId =
     try_catch
       (bnd (doc USERS_COLLECTION userId) (\<lambda>userRef.
        bnd (getDocs (Query ORDERS_COLLECTION
               [Where ''userId'' ''=='' userId,
                Where ''status'' ''in'' (JArr activeStatuses)])) (\<lambda>orderQuerySnapshot.
        bnd (host (\<lambda>w. add_order_debts w (JNum 0) orderQuerySnapshot)) (\<lambda>debt1.
        bnd (getDocs (Query TEMP_ORDERS_COLLECTION
               [Where ''assignedUserId'' ''=='' userId,
                Where ''parentInvoiceId'' ''=='' JNull])) (\<lambda>tempOrdersDirectSnapshot.
        bnd (host (\<lambda>w. add_temp_debts w debt1 tempOrdersDirectSnapshot)) (\<lambda>totalDebt.
        updateDoc userRef
          [(''debt'', totalDebt),
           (''orderCount'', JNum (of_nat (length orderQuerySnapshot)))]))))))
       (\<lambda>error. throw error)"

section \<open>Settings and users\<close>

definition default_settings :: row where
  "default_settings =
     [(''exchangeRate'', JNum 1), (''pricePerKiloLYD'', JNum 0), (''pricePerKiloUSD'', JNum 0)]"

definition getAppSettings :: "row act" where
  "getAppSettings =
     try_catch
       (bnd (doc SETTINGS_COLLECTION (JStr ''main'')) (\<lambda>settingsRef.
        bnd (getDoc settingsRef) (\<lambda>docSnap.
          case docSnap of
            Some data \<Rightarrow>
              ret [(''exchangeRate'', js_nullish (col data ''exchangeRate'') (JNum 1)),
                   (''pricePerKiloLYD'', js_nullish (col data ''pricePerKiloLYD'') (JNum 0)),
                   (''pricePerKiloUSD'', js_nullish (col data ''pricePerKiloUSD'') (JNum 0))]
          | None \<Rightarrow>
              bnd (setDoc settingsRef default_settings False) (\<lambda>u. ret default_settings))))
       (\<lambda>error. ret default_settings)"

definition getUserById :: "jval \<Rightarrow> row option act" where
  "getUserById userId =
     try_catch
       (bnd (recalculateUserStats userId) (\<lambda>u.
        bnd (doc USERS_COLLECTION userId) (\<lambda>userRef.
        bnd (getDoc userRef) (\<lambda>docSnap.
          case docSnap of
            Some data \<Rightarrow> ret (Some (spread [(''id'', snd userRef)] data))
          | None \<Rightarrow>
              bnd (doc TEMP_ORDERS_COLLECTION userId) (\<lambda>tempOrderRef.
              bnd (getDoc tempOrderRef) (\<lambda>tempOrderSnap.
                case tempOrderSnap of
                  Some tempData \<Rightarrow>
                    (case js_length (col tempData ''subOrders'') of
                       Inl e \<Rightarrow> throw e
                     | Inr n \<Rightarrow>
                         ret (Some [(''id'', col tempData ''id''),
                                    (''name'', col tempData ''invoiceName''),
                                    (''username'', col tempData ''invoiceName''),
                                    (''phone'', JStr []),
                                    (''orderCount'', n),
                                    (''debt'', col tempData ''remainingAmount'')]))
                | None \<Rightarrow> ret None))))))
       (\<lambda>error. ret None)"

definition updateUser :: "jval \<Rightarrow> row \<Rightarrow> bool act" where
  "updateUser userId data =
     try_catch
       (bnd (doc USERS_COLLECTION userId) (\<lambda>userRef.
        bnd (updateDoc userRef data) (\<lambda>u. ret True)))
       (\<lambda>error. ret False)"

section \<open>Orders\<close>

text \<open>The calls of \<open>transaction.set\<close> and \<open>transaction.update\<close> inside the functions given
  to \<open>runTransaction\<close> are not awaited there: they are \<open>detached\<close>.\<close>

text \<open>The function that \<open>addOrder\<close> hands to \<open>runTransaction\<close>.\<close>

definition addOrder_transaction :: "row \<Rightarrow> transaction \<Rightarrow> docref act" where
  "addOrder_transaction orderData transaction =
    bnd (doc USERS_COLLECTION (get_prop orderData ''userId'')) (\<lambda>userRef.
    bnd (tx_get transaction userRef) (\<lambda>userDoc.
      case userDoc of
        None \<Rightarrow>
          bnd (host (\<lambda>w. ''User with ID '' @ str_of w (get_prop orderData ''userId'')
                            @ '' does not exist!'')) (\<lambda>m. throw (Error m))
      | Some userData \<Rightarrow>
          bnd getAppSettings (\<lambda>settings.
          bnd (host (\<lambda>w. js_add w (js_or (col userData ''orderCounter'') (JNum 0))
                             (JNum 1))) (\<lambda>newOrderCount.
          bnd (host (\<lambda>w. JStr (str_of w (col userData ''username'') @ ''-''
                             @ padStart2 (str_of w newOrderCount)))) (\<lambda>invoiceNumber.
          bnd (if truthy (get_prop orderData ''trackingId'')
               then ret (get_prop orderData ''trackingId'')
               else bnd random_id (\<lambda>t. ret (JStr t))) (\<lambda>finalTrackingId.
          bnd (host (\<lambda>w. js_sub w (js_or (get_prop orderData ''sellingPriceLYD'') (JNum 0))
                             (js_or (get_prop orderData ''downPaymentLYD'') (JNum 0))))
            (\<lambda>remainingAmount.
          bnd (ret (spread orderData
                 [(''invoiceNumber'', invoiceNumber),
                  (''trackingId'', finalTrackingId),
                  (''exchangeRate'', get_prop settings ''exchangeRate''),
                  (''remainingAmount'', remainingAmount)])) (\<lambda>finalOrderData.
          bnd (doc_auto ORDERS_COLLECTION) (\<lambda>orderRef.
          bnd (detached (tx_set transaction orderRef finalOrderData False)) (\<lambda>u1.
          bnd (doc_auto TRANSACTIONS_COLLECTION) (\<lambda>orderTransactionRef.
          bnd (host (\<lambda>w. JStr (msg_order_created @ str_of w invoiceNumber)))
            (\<lambda>description1.
          bnd (detached (tx_set transaction orderTransactionRef
                 [(''orderId'', snd orderRef),
                  (''customerId'', get_prop finalOrderData ''userId''),
                  (''customerName'', get_prop finalOrderData ''customerName''),
                  (''date'', get_prop finalOrderData ''operationDate''),
                  (''type'', JStr ''order''),
                  (''status'', get_prop finalOrderData ''status''),
                  (''amount'', get_prop finalOrderData ''sellingPriceLYD''),
                  (''description'', description1)] False)) (\<lambda>u2.
          bnd (host (\<lambda>w. truthy (get_prop finalOrderData ''downPaymentLYD'')
                           \<and> js_gt w (get_prop finalOrderData ''downPaymentLYD'') (JNum 0)))
            (\<lambda>hasDownPayment.
          bnd (if hasDownPayment then
                 bnd (doc_auto TRANSACTIONS_COLLECTION) (\<lambda>paymentTransactionRef.
                 bnd (host (\<lambda>w. JStr (msg_down_payment @ str_of w invoiceNumber)))
                   (\<lambda>description2.
                 detached (tx_set transaction paymentTransactionRef
                   [(''orderId'', snd orderRef),
                    (''customerId'', get_prop finalOrderData ''userId''),
                    (''customerName'', get_prop finalOrderData ''customerName''),
                    (''date'', get_prop finalOrderData ''operationDate''),
                    (''type'', JStr ''payment''),
                    (''status'', JStr ''paid''),
                    (''amount'', get_prop finalOrderData ''downPaymentLYD''),
                    (''description'', description2)] False)))
               else ret ()) (\<lambda>u3.
          bnd (detached (tx_update transaction userRef
                 [(''orderCounter'', increment (JNum 1))])) (\<lambda>u4.
          ret orderRef))))))))))))))))"

definition addOrder :: "row \<Rightarrow> row option act" where
  "addOrder orderData =
     try_catch
       (bnd (runTransaction (addOrder_transaction orderData))
        (\<lambda>newDocRef.
          bnd (getDoc newDocRef) (\<lambda>newOrderSnap.
            case newOrderSnap of
              Some data \<Rightarrow>
                bnd (ret (spread [(''id'', snd newDocRef)] data)) (\<lambda>newOrderData.
                bnd (recalculateUserStats (get_prop newOrderData ''userId'')) (\<lambda>u.
                ret (Some newOrderData)))
            | None \<Rightarrow> ret None)))
       (\<lambda>error. ret None)"

text \<open>The tail shared by the two adjustments below: re-read the order and recalculate
  its user.\<close>

definition recalc_order_user :: "docref \<Rightarrow> unit act" where
  "recalc_order_user orderRef =
     bnd (getDoc orderRef) (\<lambda>orderSnap.
       case orderSnap of
         Some data \<Rightarrow>
           (if truthy (col data ''userId'') then recalculateUserStats (col data ''userId'')
            else ret ())
       | None \<Rightarrow> ret ())"

text \<open>The functions that the two adjustments hand to \<open>runTransaction\<close>.\<close>

definition addCustomerShippingCost_transaction ::
  "docref \<Rightarrow> rat \<Rightarrow> transaction \<Rightarrow> unit act" where
  "addCustomerShippingCost_transaction orderRef costInUSD transaction =
     bnd (tx_get transaction orderRef) (\<lambda>orderDoc.
       case orderDoc of
         None \<Rightarrow> throw (Error ''Order document does not exist!'')
       | Some orderData \<Rightarrow>
           bnd (if truthy (col orderData ''exchangeRate'')
                then ret (col orderData ''exchangeRate'')
                else bnd getAppSettings (\<lambda>settings.
                       ret (get_prop settings ''exchangeRate''))) (\<lambda>exchangeRate.
           bnd (host (\<lambda>w. js_mul w
                  (js_sub w (JNum costInUSD)
                     (js_or (col orderData ''customerWeightCostUSD'') (JNum 0)))
                  exchangeRate)) (\<lambda>costDifferenceLYD.
           bnd (host (\<lambda>w. js_add w (js_or (col orderData ''sellingPriceLYD'') (JNum 0))
                              costDifferenceLYD)) (\<lambda>newSellingPrice.
           detached (tx_update transaction orderRef
             [(''sellingPriceLYD'', newSellingPrice),
              (''remainingAmount'', increment costDifferenceLYD),
              (''customerWeightCostUSD'', JNum costInUSD)])))))"

definition addCustomerShippingCost :: "jval \<Rightarrow> rat \<Rightarrow> bool act" where
  "addCustomerShippingCost orderId costInUSD =
     (if costInUSD < 0 then ret False
      else
        bnd (doc ORDERS_COLLECTION orderId) (\<lambda>orderRef.
        try_catch
          (bnd (runTransaction (addCustomerShippingCost_transaction orderRef costInUSD)) (\<lambda>u.
           bnd (recalc_order_user orderRef) (\<lambda>u'. ret True)))
          (\<lambda>error. ret False)))"

definition setCustomerWeightDetails_transaction ::
  "jval \<Rightarrow> docref \<Rightarrow> rat \<Rightarrow> rat \<Rightarrow> rat \<Rightarrow> transaction \<Rightarrow> unit act" where
  "setCustomerWeightDetails_transaction orderId orderRef weight companyPricePerKiloUSD
       customerPricePerKilo transaction =
     bnd (tx_get transaction orderRef) (\<lambda>orderDoc.
       case orderDoc of
         None \<Rightarrow> throw (Error ''Order document does not exist!'')
       | Some orderData \<Rightarrow>
           bnd (host (\<lambda>w. js_sub w (JNum (weight * customerPricePerKilo))
                              (js_or (col orderData ''customerWeightCost'') (JNum 0))))
             (\<lambda>costDifference.
           bnd (host (\<lambda>w.
                  [(''sellingPriceLYD'',
                      js_add w (js_or (col orderData ''sellingPriceLYD'') (JNum 0))
                        costDifference),
                   (''remainingAmount'',
                      js_add w (js_or (col orderData ''remainingAmount'') (JNum 0))
                        costDifference),
                   (''weightKG'', JNum weight),
                   (''companyPricePerKiloUSD'', JNum companyPricePerKiloUSD),
                   (''customerPricePerKilo'', JNum customerPricePerKilo),
                   (''customerWeightCost'', JNum (weight * customerPricePerKilo)),
                   (''companyWeightCostUSD'', JNum (weight * companyPricePerKiloUSD))]))
             (\<lambda>changes.
           bnd (detached (tx_update transaction orderRef changes)) (\<lambda>u1.
           if costDifference \<noteq> JNum 0 then
             bnd (doc_auto TRANSACTIONS_COLLECTION) (\<lambda>transactionRef.
             bnd (host (\<lambda>w. JStr (msg_weight_changed @ str_of w (JNum weight)
                    @ msg_weight_previous
                    @ fixed2 w (to_number w
                        (arith (/) w (js_or (col orderData ''customerWeightCost'') (JNum 0))
                           (js_or (JNum customerPricePerKilo) (JNum 1))))))) (\<lambda>description.
             bnd (host now) (\<lambda>date.
             detached (tx_set transaction transactionRef
               [(''orderId'', orderId),
                (''customerId'', col orderData ''userId''),
                (''customerName'', col orderData ''customerName''),
                (''date'', JStr date),
                (''type'', JStr ''order''),
                (''status'', JStr ''completed''),
                (''amount'', costDifference),
                (''description'', description)] False))))
           else ret ()))))"

definition setCustomerWeightDetails :: "jval \<Rightarrow> rat \<Rightarrow> rat \<Rightarrow> rat \<Rightarrow> bool act" where
  "setCustomerWeightDetails orderId weight companyPricePerKiloUSD customerPricePerKilo =
     (if weight < 0 then ret False
      else
        bnd (doc ORDERS_COLLECTION orderId) (\<lambda>orderRef.
        try_catch
          (bnd (runTransaction (setCustomerWeightDetails_transaction orderId orderRef weight
                                  companyPricePerKiloUSD customerPricePerKilo)) (\<lambda>u.
           bnd (recalc_order_user orderRef) (\<lambda>u'. ret True)))
          (\<lambda>error. ret False)))"

section \<open>Representatives\<close>

definition assignRepresentativeToOrder :: "jval \<Rightarrow> row \<Rightarrow> bool act" where
  "assignRepresentativeToOrder orderId rep =
     try_catch
       (bnd (doc ORDERS_COLLECTION orderId) (\<lambda>orderRef.
        bnd (getDoc orderRef) (\<lambda>orderSnap.
          case orderSnap of
            None \<Rightarrow> throw (Error ''Order to assign not found'')
          | Some orderData \<Rightarrow>
              bnd (if truthy (col orderData ''representativeId'') then
                     bnd (doc REPRESENTATIVES_COLLECTION (col orderData ''representativeId''))
                       (\<lambda>oldRepRef.
                     batch_update [] oldRepRef [(''assignedOrders'', increment (JNum (- 1)))])
                   else ret []) (\<lambda>batch1.
              bnd (batch_update batch1 orderRef
                     [(''representativeId'', get_prop rep ''id''),
                      (''representativeName'', get_prop rep ''name''),
                      (''status'', JStr ''out_for_delivery'')]) (\<lambda>batch2.
              bnd (doc REPRESENTATIVES_COLLECTION (get_prop rep ''id'')) (\<lambda>newRepRef.
              bnd (batch_update batch2 newRepRef [(''assignedOrders'', increment (JNum 1))])
                (\<lambda>batch3.
              bnd (batch_commit batch3) (\<lambda>u. ret True))))))))
       (\<lambda>error. ret False)"

definition unassignRepresentativeFromOrder :: "jval \<Rightarrow> bool act" where
  "unassignRepresentativeFromOrder orderId =
     try_catch
       (bnd (doc ORDERS_COLLECTION orderId) (\<lambda>orderRef.
        bnd (getDoc orderRef) (\<lambda>orderSnap.
          case orderSnap of
            None \<Rightarrow> throw (Error ''Order not found'')
          | Some orderData \<Rightarrow>
              (if \<not> truthy (col orderData ''representativeId'') then ret True
               else
                 bnd (doc REPRESENTATIVES_COLLECTION (col orderData ''representativeId''))
                   (\<lambda>repRef.
                 bnd (batch_update [] repRef [(''assignedOrders'', increment (JNum (- 1)))])
                   (\<lambda>batch1.
                 bnd (batch_update batch1 orderRef
                        [(''representativeId'', JNull),
                         (''representativeName'', JNull),
                         (''status'', JStr ''ready'')]) (\<lambda>batch2.
                 bnd (batch_commit batch2) (\<lambda>u. ret True))))))))
       (\<lambda>error. ret False)"

text \<open>\<open>transactionsSnapshot.forEach(doc => batch.delete(doc.ref))\<close>.\<close>

fun batch_delete_all :: "batch \<Rightarrow> string \<Rightarrow> row list \<Rightarrow> batch act" where
  "batch_delete_all b c [] = ret b"
| "batch_delete_all b c (d # ds) =
     bnd (batch_delete b (doc_ref c d)) (\<lambda>b'. batch_delete_all b' c ds)"

definition deleteOrder :: "jval \<Rightarrow> bool act" where
  "deleteOrder orderId =
     try_catch
       (bnd (doc ORDERS_COLLECTION orderId) (\<lambda>orderRef.
        bnd (getDoc orderRef) (\<lambda>orderSnap.
          case orderSnap of
            None \<Rightarrow> throw (Error ''Order to delete not found'')
          | Some orderData \<Rightarrow>
              bnd (if truthy (col orderData ''representativeId'') then
                     bnd (doc REPRESENTATIVES_COLLECTION (col orderData ''representativeId''))
                       (\<lambda>repRef.
                     batch_update [] repRef [(''assignedOrders'', increment (JNum (- 1)))])
                   else ret []) (\<lambda>batch1.
              bnd (getDocs (Query TRANSACTIONS_COLLECTION [Where ''orderId'' ''=='' orderId]))
                (\<lambda>transactionsSnapshot.
              bnd (batch_delete_all batch1 TRANSACTIONS_COLLECTION transactionsSnapshot)
                (\<lambda>batch2.
              bnd (batch_delete batch2 orderRef) (\<lambda>batch3.
              bnd (batch_commit batch3) (\<lambda>u.
              bnd (if truthy (col orderData ''userId'')
                   then recalculateUserStats (col orderData ''userId'')
                   else ret ()) (\<lambda>u'.
              ret True)))))))))
       (\<lambda>error. ret False)"

text \<open>The loop \<open>for (const orderId of orderIds)\<close> of the bulk assignment.\<close>

fun bulk_assign_loop :: "batch \<Rightarrow> jval list \<Rightarrow> row \<Rightarrow> batch act" where
  "bulk_assign_loop b [] rep = ret b"
| "bulk_assign_loop b (orderId # rest) rep =
     bnd (doc ORDERS_COLLECTION orderId) (\<lambda>orderRef.
     bnd (batch_update b orderRef
            [(''representativeId'', get_prop rep ''id''),
             (''representativeName'', get_prop rep ''name''),
             (''status'', JStr ''out_for_delivery'')]) (\<lambda>b'.
     bulk_assign_loop b' rest rep))"

definition bulkAssignRepresentative :: "jval list \<Rightarrow> row \<Rightarrow> bool act" where
  "bulkAssignRepresentative orderIds rep =
     (if length orderIds = 0 then ret True
      else
        try_catch
          (bnd (doc REPRESENTATIVES_COLLECTION (get_prop rep ''id'')) (\<lambda>repRef.
           bnd (bulk_assign_loop [] orderIds rep) (\<lambda>batch1.
           bnd (batch_update batch1 repRef
                  [(''assignedOrders'', increment (JNum (of_nat (length orderIds))))])
             (\<lambda>batch2.
           bnd (batch_commit batch2) (\<lambda>u. ret True)))))
          (\<lambda>error. ret False))"

section \<open>Ledger transactions\<close>

text \<open>\<open>customerId && !customerId.startsWith('TEMP-')\<close>, then the recalculation.\<close>

definition recalc_customer :: "jval \<Rightarrow> unit act" where
  "recalc_customer customerId =
     (if truthy customerId then
        (case js_startsWith customerId ''TEMP-'' of
           Inl e \<Rightarrow> throw e
         | Inr temp \<Rightarrow> (if \<not> temp then recalculateUserStats customerId else ret ()))
      else ret ())"

text \<open>The functions that \<open>addTransaction\<close> and \<open>updateTransaction\<close> hand to
  \<open>runTransaction\<close>.\<close>

definition addTransaction_transaction :: "row \<Rightarrow> transaction \<Rightarrow> docref act" where
  "addTransaction_transaction transactionData transaction =
     bnd (doc_auto TRANSACTIONS_COLLECTION) (\<lambda>newDocRef.
     bnd (if get_prop transactionData ''type'' = JStr ''payment''
             \<and> truthy (get_prop transactionData ''orderId'')
          then
            bnd (doc ORDERS_COLLECTION (get_prop transactionData ''orderId'')) (\<lambda>orderRef.
            bnd (tx_get transaction orderRef) (\<lambda>orderDoc.
              case orderDoc of
                Some orderData \<Rightarrow>
                  bnd (host (\<lambda>w.
                         let newRemaining =
                               js_sub w (js_or (col orderData ''remainingAmount'') (JNum 0))
                                 (get_prop transactionData ''amount'')
                         in if js_lt w newRemaining (JNum 0) then JNum 0 else newRemaining))
                    (\<lambda>clamped.
                  detached (tx_update transaction orderRef [(''remainingAmount'', clamped)]))
              | None \<Rightarrow> ret ()))
          else ret ()) (\<lambda>u1.
     bnd (detached (tx_set transaction newDocRef transactionData False)) (\<lambda>u2.
     ret newDocRef)))"

definition addTransaction :: "row \<Rightarrow> jval option act" where
  "addTransaction transactionData =
     try_catch
       (bnd (runTransaction (addTransaction_transaction transactionData)) (\<lambda>newTransactionRef.
        bnd (recalc_customer (get_prop transactionData ''customerId'')) (\<lambda>u.
        ret (Some (snd newTransactionRef)))))
       (\<lambda>error. ret None)"

definition updateTransaction_transaction :: "docref \<Rightarrow> rat \<Rightarrow> transaction \<Rightarrow> unit act" where
  "updateTransaction_transaction transactionRef newAmount transaction =
     bnd (tx_get transaction transactionRef) (\<lambda>txDoc.
       case txDoc of
         None \<Rightarrow> throw (Error ''Transaction not found!'')
       | Some txData \<Rightarrow>
           bnd (host (\<lambda>w. js_sub w (JNum newAmount) (col txData ''amount'')))
             (\<lambda>amountDifference.
           bnd (detached (tx_update transaction transactionRef
                  [(''amount'', JNum newAmount)])) (\<lambda>u1.
           if truthy (col txData ''orderId'') then
             bnd (doc ORDERS_COLLECTION (col txData ''orderId'')) (\<lambda>orderRef.
             bnd (host (\<lambda>w. js_sub w (JNum 0) amountDifference)) (\<lambda>negated.
             detached (tx_update transaction orderRef
               [(''remainingAmount'', increment negated)])))
           else ret ())))"

definition updateTransaction :: "jval \<Rightarrow> rat \<Rightarrow> bool act" where
  "updateTransaction transactionId newAmount =
     bnd (doc TRANSACTIONS_COLLECTION transactionId) (\<lambda>transactionRef.
     try_catch
       (bnd (runTransaction (updateTransaction_transaction transactionRef newAmount)) (\<lambda>u.
        bnd (getDoc transactionRef) (\<lambda>finalTxDoc.
        bnd (case finalTxDoc of
               Some data \<Rightarrow> recalc_customer (col data ''customerId'')
             | None \<Rightarrow> ret ()) (\<lambda>u'.
        ret True))))
       (\<lambda>error. ret False))"

definition deleteTransaction :: "jval \<Rightarrow> bool act" where
  "deleteTransaction transactionId =
     bnd (doc TRANSACTIONS_COLLECTION transactionId) (\<lambda>transactionRef.
     try_catch
       (bnd (getDoc transactionRef) (\<lambda>txDoc.
          case txDoc of
            None \<Rightarrow> throw (Error ''Transaction to delete not found'')
          | Some txData \<Rightarrow>
              bnd (if truthy (col txData ''orderId'') then
                     bnd (doc ORDERS_COLLECTION (col txData ''orderId'')) (\<lambda>orderRef.
                     batch_update [] orderRef
                       [(''remainingAmount'', increment (col txData ''amount''))])
                   else ret []) (\<lambda>batch1.
              bnd (batch_delete batch1 transactionRef) (\<lambda>batch2.
              bnd (batch_commit batch2) (\<lambda>u.
              bnd (recalc_customer (col txData ''customerId'')) (\<lambda>u'.
              ret True))))))
       (\<lambda>error. ret False))"

section \<open>Creditors\<close>

definition getCreditors :: "row list act" where
  "getCreditors =
     bnd (getDocs (Collection CREDITORS_COLLECTION)) (\<lambda>querySnapshot.
     ret (map (\<lambda>d. spread [(''id'', col d ''id'')] d) querySnapshot))"

definition updateCreditor :: "jval \<Rightarrow> row \<Rightarrow> bool act" where
  "updateCreditor creditorId data =
     bnd (doc CREDITORS_COLLECTION creditorId) (\<lambda>ref.
     bnd (updateDoc ref data) (\<lambda>u. ret True))"

section \<open>Notions used to state the properties\<close>

text \<open>The numeric reading of a column that holds a number or nothing.\<close>

definition numeric_or0 :: "jval \<Rightarrow> rat" where
  "numeric_or0 v = (case v of JNum x \<Rightarrow> x | _ \<Rightarrow> 0)"

subsection \<open>Example worlds\<close>

text \<open>An empty store that answers every request, with identifiers \<open>r\<close>, \<open>rx\<close>, \<open>rxx\<close>, ...
  as the random strings.\<close>

definition w0 :: world where
  "w0 = \<lparr> tables = (\<lambda>c. []), faults = (\<lambda>n. False),
          rnd = (\<lambda>n. ''r'' @ replicate n CHR ''x''), now = ''t'',
          str_of = (\<lambda>v. []), num_of = (\<lambda>s. None), fixed2 = (\<lambda>x. []) \<rparr>"

definition w_five :: world where
  "w_five = put_table ''docs'' [[(''id'', JStr ''d1''), (''f'', JNum 5)]] w0"

text \<open>Two provisional invoices, one of them cancelled.\<close>

definition w_temp :: world where
  "w_temp = put_table TEMP_ORDERS_COLLECTION
     [[(''id'', JStr ''t1''), (''status'', JStr ''cancelled'')],
      [(''id'', JStr ''t2''), (''status'', JStr ''pending'')]] w0"

text \<open>A caller's function for \<open>runTransaction\<close>: it awaits a write of order \<open>o1\<close>, then an
  increment on a user that does not exist, then a write of order \<open>o2\<close>.\<close>

definition three_steps :: "transaction \<Rightarrow> unit act" where
  "three_steps t =
     bnd (tx_set t (ORDERS_COLLECTION, JStr ''o1'') [(''status'', JStr ''ready'')] False) (\<lambda>u1.
     bnd (tx_update t (USERS_COLLECTION, JStr ''nobody'')
            [(''orderCounter'', increment (JNum 1))]) (\<lambda>u2.
     tx_set t (ORDERS_COLLECTION, JStr ''o2'') [(''status'', JStr ''ready'')] False))"

subsection \<open>The debt of a user\<close>

text \<open>The statuses of an order; the active ones are all but \<open>cancelled\<close>.\<close>

definition order_statuses :: "string list" where
  "order_statuses =
     [''pending'', ''processed'', ''ready'', ''shipped'', ''arrived_dubai'', ''arrived_benghazi'',
      ''arrived_tobruk'', ''out_for_delivery'', ''delivered'', ''cancelled'', ''paid'']"

definition is_active :: "jval \<Rightarrow> bool" where
  "is_active s = (s \<in> set (map JStr order_statuses) \<and> s \<noteq> JStr ''cancelled'')"

definition active_orders :: "world \<Rightarrow> string \<Rightarrow> row list" where
  "active_orders w uid =
     filter (\<lambda>r. col r ''userId'' = JStr uid \<and> is_active (col r ''status''))
       (tables w ORDERS_COLLECTION)"

definition direct_temp_orders :: "world \<Rightarrow> string \<Rightarrow> row list" where
  "direct_temp_orders w uid =
     filter (\<lambda>r. col r ''assignedUserId'' = JStr uid \<and> col r ''status'' \<noteq> JStr ''cancelled''
                 \<and> col r ''parentInvoiceId'' = JNull)
       (tables w TEMP_ORDERS_COLLECTION)"

definition amount_ok :: "row \<Rightarrow> bool" where
  "amount_ok r = (case col r ''remainingAmount'' of JNum x \<Rightarrow> True | JNull \<Rightarrow> True | _ \<Rightarrow> False)"

definition total_remaining :: "row list \<Rightarrow> rat" where
  "total_remaining rs = sum_list (map (\<lambda>r. numeric_or0 (col r ''remainingAmount'')) rs)"

definition user_debt :: "world \<Rightarrow> string \<Rightarrow> rat" where
  "user_debt w uid = total_remaining (active_orders w uid) + total_remaining (direct_temp_orders w uid)"

definition user_orderCount :: "world \<Rightarrow> string \<Rightarrow> nat" where
  "user_orderCount w uid = length (active_orders w uid)"

text \<open>The part of the debt that comes from the orders alone.\<close>

definition orders_debt :: "world \<Rightarrow> string \<Rightarrow> rat" where
  "orders_debt w uid = total_remaining (active_orders w uid)"

text \<open>The user row with the two totals written into it.\<close>

definition with_stats :: "rat \<Rightarrow> nat \<Rightarrow> row \<Rightarrow> row" where
  "with_stats d n r = spread r (json_row [(''debt'', JNum d), (''orderCount'', JNum (of_nat n))])"

text \<open>A store that answers every request.\<close>

definition no_faults :: "world \<Rightarrow> bool" where
  "no_faults w = (faults w = (\<lambda>n. False))"


text \<open>A shop with one user, three orders and two provisional invoices, the second one
  converted into order \<open>o1\<close>.\<close>

definition w_shop :: world where
  "w_shop = put_table USERS_COLLECTION
       [[(''id'', JStr ''u1''), (''username'', JStr ''amal''), (''debt'', JNum 0),
         (''orderCount'', JNum 0), (''orderCounter'', JNum 3)]]
     (put_table ORDERS_COLLECTION
       [[(''id'', JStr ''o1''), (''userId'', JStr ''u1''), (''status'', JStr ''pending''),
         (''remainingAmount'', JNum 800)],
        [(''id'', JStr ''o2''), (''userId'', JStr ''u1''), (''status'', JStr ''cancelled''),
         (''remainingAmount'', JNum 100)],
        [(''id'', JStr ''o3''), (''userId'', JStr ''u2''), (''status'', JStr ''shipped''),
         (''remainingAmount'', JNum 70)]]
     (put_table TEMP_ORDERS_COLLECTION
       [[(''id'', JStr ''t1''), (''assignedUserId'', JStr ''u1''), (''status'', JStr ''pending''),
         (''remainingAmount'', JNum 50), (''parentInvoiceId'', JNull)],
        [(''id'', JStr ''t2''), (''assignedUserId'', JStr ''u1''), (''status'', JStr ''pending''),
         (''remainingAmount'', JNum 600), (''parentInvoiceId'', JStr ''o1'')]]
      w0))"


text \<open>The shop with a store that fails the first request and answers the others.\<close>

definition w_flaky :: world where
  "w_flaky = w_shop\<lparr>faults := (\<lambda>n. n = 0)\<rparr>"

subsection \<open>The effect of reading a user\<close>

text \<open>The payload of the recalculation's only write, and the relation between a row and
  its successor that agrees with it on every column but \<open>debt\<close> and \<open>orderCount\<close>.\<close>

definition stats_payload :: "jval \<Rightarrow> jval \<Rightarrow> row" where
  "stats_payload d n = [(''debt'', d), (''orderCount'', n)]"

definition same_but_stats :: "row \<Rightarrow> row \<Rightarrow> bool" where
  "same_but_stats r r' = (\<forall>k. k = ''debt'' \<or> k = ''orderCount'' \<or> col r' k = col r k)"

subsection \<open>Representatives and their counters\<close>

text \<open>The number of orders assigned to a representative, and the state in which every
  representative's \<open>assignedOrders\<close> is that number. In \<open>w_reps\<close> order \<open>o1\<close> is
  assigned to \<open>r1\<close>.\<close>

definition assigned_orders_of :: "world \<Rightarrow> jval \<Rightarrow> nat" where
  "assigned_orders_of w repId =
     length (filter (\<lambda>order. col order ''representativeId'' = repId) (tables w ORDERS_COLLECTION))"

definition counts_consistent :: "world \<Rightarrow> bool" where
  "counts_consistent w =
     list_all (\<lambda>rep. col rep ''assignedOrders'' = JNum (of_nat (assigned_orders_of w (col rep ''id''))))
       (tables w REPRESENTATIVES_COLLECTION)"

definition rep2 :: row where
  "rep2 = [(''id'', JStr ''r2''), (''name'', JStr ''Badr'')]"

definition w_reps :: world where
  "w_reps = put_table REPRESENTATIVES_COLLECTION
       [[(''id'', JStr ''r1''), (''name'', JStr ''Adel''), (''assignedOrders'', JNum 1)],
        [(''id'', JStr ''r2''), (''name'', JStr ''Badr''), (''assignedOrders'', JNum 0)]]
     (put_table ORDERS_COLLECTION
       [[(''id'', JStr ''o1''), (''userId'', JStr ''u1''), (''status'', JStr ''out_for_delivery''),
         (''representativeId'', JStr ''r1''), (''representativeName'', JStr ''Adel'')]]
      w0)"

subsection \<open>Exceptions\<close>

text \<open>The shop with a store that answers every request with an error.\<close>

definition w_down :: world where
  "w_down = w_shop\<lparr>faults := (\<lambda>n. True)\<rparr>"

subsection \<open>Creation of an order\<close>

text \<open>The number of random strings drawn before the identifier of the new order: one
  when the tracking identifier has to be generated. An order of 1000 with a down payment
  of 200 for user \<open>u1\<close>.\<close>

definition id_offset :: "row \<Rightarrow> nat" where
  "id_offset od = (if truthy (get_prop od ''trackingId'') then 0 else 1)"

definition new_order :: row where
  "new_order = [(''userId'', JStr ''u1''), (''customerName'', JStr ''Amal''),
                (''operationDate'', JStr ''2024-01-01''), (''status'', JStr ''pending''),
                (''trackingId'', JStr ''TRK1''),
                (''sellingPriceLYD'', JNum 1000), (''downPaymentLYD'', JNum 200)]"

subsection \<open>The ledger of an order\<close>

text \<open>The payment rows that refer to an order, their total, and the rows of the orders
  table with the order's identifier.\<close>

definition is_num :: "jval \<Rightarrow> bool" where
  "is_num v = (case v of JNum x \<Rightarrow> True | _ \<Rightarrow> False)"

definition payments_of :: "world \<Rightarrow> jval \<Rightarrow> row list" where
  "payments_of w orderId =
     filter (\<lambda>t. col t ''orderId'' = orderId \<and> col t ''type'' = JStr ''payment'')
       (tables w TRANSACTIONS_COLLECTION)"

definition paid :: "world \<Rightarrow> jval \<Rightarrow> rat" where
  "paid w orderId = sum_list (map (\<lambda>t. numeric_or0 (col t ''amount'')) (payments_of w orderId))"

definition order_rows :: "world \<Rightarrow> jval \<Rightarrow> row list" where
  "order_rows w orderId = filter (has_id orderId) (tables w ORDERS_COLLECTION)"

text \<open>Whole amounts: the integers up to \<open>2 ^ 53\<close> in magnitude. The host computes with
  binary floating-point numbers of 53 significant bits, which represent each of them, so
  that a sum, a difference or a product whose exact value is a whole amount is computed
  without rounding: on them the arithmetic of the host is the exact arithmetic used here.\<close>

definition whole :: "rat \<Rightarrow> bool" where
  "whole x = (of_int \<lfloor>x\<rfloor> = x \<and> \<bar>x\<bar> \<le> 2 ^ 53)"

text \<open>The equation as the claim has it, with the down payment subtracted next to the
  payments, and the equation of the ledger, where the down payment is one of the
  payments.\<close>

definition claimed_equation :: "world \<Rightarrow> jval \<Rightarrow> bool" where
  "claimed_equation w orderId =
     list_all (\<lambda>r. numeric_or0 (col r ''sellingPriceLYD'') - numeric_or0 (col r ''downPaymentLYD'')
                     - paid w orderId = numeric_or0 (col r ''remainingAmount''))
       (order_rows w orderId)"

definition ledger_equation :: "world \<Rightarrow> jval \<Rightarrow> bool" where
  "ledger_equation w orderId =
     list_all (\<lambda>r. is_num (col r ''sellingPriceLYD'') \<and> is_num (col r ''remainingAmount'')
                  \<and> whole (numeric_or0 (col r ''sellingPriceLYD''))
                  \<and> whole (numeric_or0 (col r ''remainingAmount''))
                  \<and> numeric_or0 (col r ''sellingPriceLYD'') - paid w orderId
                      = numeric_or0 (col r ''remainingAmount''))
       (order_rows w orderId)"

text \<open>One order row with the identifier, its selling price and remaining amount whole
  amounts, and the ledger equation for it.\<close>

definition balanced :: "world \<Rightarrow> jval \<Rightarrow> bool" where
  "balanced w orderId = (length (order_rows w orderId) = 1 \<and> ledger_equation w orderId)"

text \<open>What the two adjustments add to the selling price and to the remaining amount of
  the order row \<open>r\<close>, and the exchange rate that the shipping adjustment uses: that of the
  order, or that of the settings when the order has none.\<close>

definition weight_difference :: "row \<Rightarrow> rat \<Rightarrow> rat \<Rightarrow> rat" where
  "weight_difference r weight customerPricePerKilo =
     weight * customerPricePerKilo - numeric_or0 (col r ''customerWeightCost'')"

definition shipping_difference :: "row \<Rightarrow> rat \<Rightarrow> rat \<Rightarrow> rat" where
  "shipping_difference r costInUSD exchangeRate =
     (costInUSD - numeric_or0 (col r ''customerWeightCostUSD'')) * exchangeRate"

definition exchange_rate_for :: "world \<Rightarrow> row \<Rightarrow> jval" where
  "exchange_rate_for w r =
     (if truthy (col r ''exchangeRate'') then col r ''exchangeRate''
      else (case fst (getAppSettings w) of
              Inr settings \<Rightarrow> get_prop settings ''exchangeRate''
            | Inl e \<Rightarrow> JUndef))"

text \<open>A store after the creation of an order of 1000 with a down payment of 200: the
  order, its \<open>order\<close> row and its \<open>payment\<close> row in the ledger; a second order of 300
  that carries no exchange rate, and the settings with a rate of 4. A further payment of
  50 for the first order.\<close>

definition w_ledger :: world where
  "w_ledger = put_table USERS_COLLECTION
       [[(''id'', JStr ''u1''), (''username'', JStr ''amal''), (''debt'', JNum 1100),
         (''orderCount'', JNum 2), (''orderCounter'', JNum 2)]]
     (put_table ORDERS_COLLECTION
       [[(''id'', JStr ''o1''), (''userId'', JStr ''u1''), (''status'', JStr ''pending''),
         (''sellingPriceLYD'', JNum 1000), (''downPaymentLYD'', JNum 200),
         (''remainingAmount'', JNum 800), (''exchangeRate'', JNum 5)],
        [(''id'', JStr ''o2''), (''userId'', JStr ''u1''), (''status'', JStr ''pending''),
         (''sellingPriceLYD'', JNum 300), (''downPaymentLYD'', JNum 0),
         (''remainingAmount'', JNum 300)]]
     (put_table TRANSACTIONS_COLLECTION
       [[(''id'', JStr ''q1''), (''orderId'', JStr ''o1''), (''customerId'', JStr ''u1''),
         (''type'', JStr ''order''), (''amount'', JNum 1000)],
        [(''id'', JStr ''p1''), (''orderId'', JStr ''o1''), (''customerId'', JStr ''u1''),
         (''type'', JStr ''payment''), (''amount'', JNum 200)],
        [(''id'', JStr ''q2''), (''orderId'', JStr ''o2''), (''customerId'', JStr ''u1''),
         (''type'', JStr ''order''), (''amount'', JNum 300)]]
     (put_table SETTINGS_COLLECTION
       [[(''id'', JStr ''main''), (''exchangeRate'', JNum 4)]]
      w0)))"

definition payment_50 :: row where
  "payment_50 = [(''orderId'', JStr ''o1''), (''customerId'', JStr ''u1''),
                 (''type'', JStr ''payment''), (''amount'', JNum 50)]"

section \<open>Rows as association lists\<close>

lemma col_update: "col (AList.update k v r) k' = (if k' = k then v else col r k')"
  by (simp add: col_def update_conv')

lemma get_prop_update: "get_prop (AList.update k v r) k' = (if k' = k then v else get_prop r k')"
  by (simp add: get_prop_def update_conv')

lemma map_of_spread: "map_of (spread r p) = map_of r ++ map_of p"
  by (simp add: spread_def merge_conv')

lemma map_of_filter_distinct:
  "distinct (map fst xs) \<Longrightarrow>
   map_of (filter (\<lambda>(k, v). P v) xs) k =
     (case map_of xs k of None \<Rightarrow> None | Some v \<Rightarrow> if P v then Some v else None)"
proof (induction xs)
  case Nil
  then show ?case by simp
next
  case (Cons a xs)
  obtain k' v' where a: "a = (k', v')" by (cases a)
  have notin: "k' \<notin> fst ` set xs" using Cons.prems a by simp
  have "map_of xs k' = None" using notin by (simp add: map_of_eq_None_iff)
  then show ?case using Cons a by (auto split: option.splits)
qed

lemma map_of_json_row:
  "map_of (json_row p) k =
     (case map_of p k of None \<Rightarrow> None
      | Some v \<Rightarrow> if v = JUndef then None else Some (to_json v))"
proof -
  have d: "distinct (map fst (AList.clearjunk p))" by (rule distinct_clearjunk)
  have "map_of (json_row p) k =
        map_option to_json (map_of (filter (\<lambda>(k, v). v \<noteq> JUndef) (AList.clearjunk p)) k)"
    by (simp add: json_row_def map_of_map)
  also have "\<dots> = map_option to_json
       (case map_of (AList.clearjunk p) k of None \<Rightarrow> None
        | Some v \<Rightarrow> if v \<noteq> JUndef then Some v else None)"
    using map_of_filter_distinct [OF d, of "\<lambda>v. v \<noteq> JUndef" k] by simp
  finally show ?thesis by (simp add: map_of_clearjunk split: option.splits)
qed

lemma col_spread_json:
  "col (spread r (json_row p)) k =
     (case map_of p k of None \<Rightarrow> col r k
      | Some v \<Rightarrow> if v = JUndef then col r k else to_json v)"
  by (simp add: col_def map_of_spread map_add_def map_of_json_row split: option.splits)

lemma filter_single: "filter P xs = [r] \<Longrightarrow> x \<in> set xs \<Longrightarrow> P x \<Longrightarrow> x = r"
proof -
  assume a: "filter P xs = [r]" and b: "x \<in> set xs" and c: "P x"
  from b c have "x \<in> set (filter P xs)" by simp
  with a show "x = r" by simp
qed

lemma map_if_single:
  assumes "filter P xs = [r]"
  shows "map (\<lambda>x. if P x then g x else x) xs = map (\<lambda>x. if P x then g r else x) xs"
  using filter_single [OF assms] by (auto intro!: map_cong)

lemmas shim_defs = doc_update_def hasSpecialOps_def hasDotNotation_def increment_def
  sb_single_def sb_update_def update_rows_def upsert_rows_def failing_def tick_def put_table_def has_id_def col_def
  get_prop_def apply_key_def js_add_def js_or_def of_number_def arith_def json_row_def
  spread_def bnd_def ret_def

section \<open>The increment operator of the shim\<close>

lemma incremented_value:
  assumes "v = JUndef \<or> v = JNull \<or> (\<exists>x. v = JNum x)"
  shows "js_add w (js_or (of_number (to_number w v)) (JNum 0)) (JNum n) = JNum (numeric_or0 v + n)"
  using assms by (auto simp: js_add_def js_or_def of_number_def arith_def numeric_or0_def)

lemma hasSpecialOps_increment: "hasSpecialOps [(f, increment v)]"
  by (simp add: hasSpecialOps_def increment_def get_prop_def)

lemma apply_key_increment:
  "CHR ''.'' \<notin> set f \<Longrightarrow>
   apply_key w r f (increment v) =
     Inr (AList.update f (js_add w (js_or (of_number (to_number w (get_prop r f))) (JNum 0)) v) r)"
  by (simp add: apply_key_def increment_def get_prop_def)

text \<open>
  C8. Let \<open>r\<close> be the one row of table \<open>c\<close> with identifier \<open>i\<close>, let the store answer the
  next two requests, and let the field \<open>f\<close> (an undotted key) hold a number or
  nothing. Then \<open>update({f: increment(n)})\<close> succeeds and replaces \<open>r\<close> by a row whose
  field \<open>f\<close> is the former number, or 0 when there was none, plus \<open>n\<close>.
\<close>

theorem increment_resolves:
  assumes single: "filter (has_id i) (tables w c) = [r]"
    and ok1: "\<not> faults w 0"
    and ok2: "\<not> faults w (Suc 0)"
    and nodot: "CHR ''.'' \<notin> set f"
    and numeric: "get_prop r f = JUndef \<or> get_prop r f = JNull \<or> (\<exists>x. get_prop r f = JNum x)"
  shows "\<exists>r'. fst (doc_update (c, i) [(f, increment (JNum n))] w) = Inr ()
           \<and> tables (snd (doc_update (c, i) [(f, increment (JNum n))] w)) c
               = map (\<lambda>x. if has_id i x then r' else x) (tables w c)
           \<and> col r' f = JNum (numeric_or0 (get_prop r f) + n)"
proof -
  let ?v = "JNum (numeric_or0 (get_prop r f) + n)"
  let ?u = "AList.update f ?v r"
  let ?r' = "spread r (json_row ?u)"
  have key: "apply_key (tick w) r f (increment (JNum n)) = Inr ?u"
    using nodot numeric by (simp add: apply_key_increment incremented_value)
  have fetch: "sb_single c i w = (Some r, tick w)"
    using single ok1 by (simp add: sb_single_def failing_def)
  have stored: "sb_update c i ?u (tick w)
      = (True, tick (put_table c (map (\<lambda>x. if has_id i x then ?r' else x) (tables w c)) (tick w)))"
    using ok2
    by (simp add: sb_update_def update_rows_def failing_def tick_def
          map_if_single [OF single, of "\<lambda>x. spread x (json_row ?u)"])
  have run: "doc_update (c, i) [(f, increment (JNum n))] w
      = (Inr (), tick (put_table c (map (\<lambda>x. if has_id i x then ?r' else x) (tables w c)) (tick w)))"
    by (simp add: doc_update_def hasSpecialOps_increment fetch key stored)
  have val: "col ?r' f = ?v"
    by (simp add: col_spread_json update_conv')
  show ?thesis
    using run val by (intro exI [of _ ?r']) (simp add: tick_def put_table_def)
qed

text \<open>The field \<open>f = 5\<close> after \<open>increment(3)\<close> twice in a row is 11.\<close>

theorem increment_resolves_witness:
  "(\<exists>r'. fst (doc_update (''docs'', JStr ''d1'') [(''f'', increment (JNum 3))] w_five) = Inr ()
       \<and> tables (snd (doc_update (''docs'', JStr ''d1'') [(''f'', increment (JNum 3))] w_five))
            ''docs'' = [r']
       \<and> col r' ''f'' = JNum 8)
   \<and> tables (snd (bnd (doc_update (''docs'', JStr ''d1'') [(''f'', increment (JNum 3))])
                   (\<lambda>u. doc_update (''docs'', JStr ''d1'') [(''f'', increment (JNum 3))])
                   w_five)) ''docs''
       = [[(''id'', JStr ''d1''), (''f'', JNum 11)]]"
proof -
  have two: "tables (snd (bnd (doc_update (''docs'', JStr ''d1'') [(''f'', increment (JNum 3))])
                   (\<lambda>u. doc_update (''docs'', JStr ''d1'') [(''f'', increment (JNum 3))])
                   w_five)) ''docs''
       = [[(''id'', JStr ''d1''), (''f'', JNum 11)]]"
    by (simp add: shim_defs w_five_def w0_def AList.merge_def)
  show ?thesis
    using two
      increment_resolves [of "JStr ''d1''" w_five "''docs''"
        "[(''id'', JStr ''d1''), (''f'', JNum 5)]" "''f''" 3]
    by (simp add: w_five_def w0_def put_table_def has_id_def col_def get_prop_def numeric_or0_def)
qed

section \<open>Conditions of a query\<close>

lemma add_conditions_unsupported:
  "oper \<noteq> ''=='' \<Longrightarrow> oper \<noteq> ''in'' \<Longrightarrow> oper \<noteq> ''array-contains'' \<Longrightarrow>
   add_conditions q (Where f oper v # rest) = add_conditions q rest"
  by simp

text \<open>A condition whose operator is none of the three recognised ones leaves no trace
  in the request: the query answers as if the condition had not been given.\<close>

lemma unsupported_condition_dropped:
  "oper \<noteq> ''=='' \<Longrightarrow> oper \<noteq> ''in'' \<Longrightarrow> oper \<noteq> ''array-contains'' \<Longrightarrow>
   dbAdapter_query c (Where f oper v # rest) w = dbAdapter_query c rest w"
  by (simp add: dbAdapter_query_def)

text \<open>
  C6. The query that \<open>getTempOrders\<close> issues, with the condition \<open>status != cancelled\<close>,
  raises no error: it returns every provisional invoice, the cancelled one included.
\<close>

theorem query_ignores_unsupported_operator:
  "fst (dbAdapter_query TEMP_ORDERS_COLLECTION [Where ''status'' ''!='' (JStr ''cancelled'')] w_temp)
     = Inr [[(''id'', JStr ''t1''), (''status'', JStr ''cancelled'')],
            [(''id'', JStr ''t2''), (''status'', JStr ''pending'')]]"
  by (simp add: dbAdapter_query_def sb_select_def failing_def w_temp_def w0_def put_table_def)

section \<open>Pseudo-transactions\<close>

text \<open>
  C7. An execution of \<open>runTransaction\<close> on the empty store: the first write is applied,
  the second operation throws, the third operation is never executed, and the first
  write is still in the store when the exception leaves \<open>runTransaction\<close>.
\<close>

theorem transaction_partial_failure:
  "fst (runTransaction three_steps w0) = Inl (Error ''Document not found for update'')
   \<and> tables w0 ORDERS_COLLECTION = []
   \<and> tables (snd (runTransaction three_steps w0)) ORDERS_COLLECTION
       = [[(''status'', JStr ''ready''), (''id'', JStr ''o1'')]]"
  by (simp add: runTransaction_def three_steps_def the_transaction_def doc_set_def
        sb_upsert_def shim_defs w0_def AList.merge_def clearjunk.simps
        ORDERS_COLLECTION_def USERS_COLLECTION_def)

section \<open>Rejected inputs\<close>

text \<open>
  C9. With a negative weight \<open>setCustomerWeightDetails\<close> returns \<open>false\<close> and leaves the
  world as it was: no request reaches the store. So does \<open>addCustomerShippingCost\<close> with
  a negative cost.
\<close>

theorem negative_input_rejected:
  "(weight < 0 \<longrightarrow>
      setCustomerWeightDetails orderId weight companyPrice customerPrice w = (Inr False, w))
   \<and> (cost < 0 \<longrightarrow> addCustomerShippingCost orderId cost w = (Inr False, w))"
  by (simp add: setCustomerWeightDetails_def addCustomerShippingCost_def ret_def)

theorem negative_input_rejected_witness:
  "setCustomerWeightDetails (JStr ''o1'') (- 1) 2 3 w_five = (Inr False, w_five)
   \<and> addCustomerShippingCost (JStr ''o1'') (- 5) w_five = (Inr False, w_five)"
  using negative_input_rejected [of "- 1" "JStr ''o1''" 2 3 w_five "- 5"]
  by simp

section \<open>Recalculation\<close>


lemma is_active_iff: "is_active s \<longleftrightarrow> s \<in> set activeStatuses"
  by (auto simp: is_active_def order_statuses_def activeStatuses_def)

lemma no_faults_tick [simp]: "no_faults w \<Longrightarrow> tick w = w"
  by (simp add: no_faults_def tick_def)

lemma no_faults_put_table [simp]: "no_faults (put_table c rs w) = no_faults w"
  by (simp add: no_faults_def put_table_def)

lemma not_failing: "no_faults w \<Longrightarrow> \<not> failing w"
  by (simp add: no_faults_def failing_def)

lemma tables_tick [simp]: "tables (tick w) = tables w"
  by (simp add: tick_def)

lemma tables_put_table [simp]: "tables (put_table c rs w) = (tables w)(c := rs)"
  by (simp add: put_table_def)

lemma host_tick [simp]: "str_of (tick w) = str_of w" "num_of (tick w) = num_of w"
  by (simp_all add: tick_def)

lemma to_number_tick [simp]: "to_number (tick w) v = to_number w v"
  by (cases v) simp_all

lemma query_ok:
  "no_faults w \<Longrightarrow> add_conditions [] conds = Inr q \<Longrightarrow>
   dbAdapter_query c conds w = (Inr (filter (\<lambda>r. list_all (matches r) q) (tables w c)), tick w)"
  by (simp add: dbAdapter_query_def sb_select_def not_failing)

lemma plain_update_ok:
  "no_faults w \<Longrightarrow> \<not> hasSpecialOps data \<Longrightarrow> \<not> hasDotNotation data \<Longrightarrow>
   doc_update (c, i) data w =
     (Inr (), tick (put_table c
        (map (\<lambda>r. if has_id i r then spread r (json_row data) else r) (tables w c)) w))"
  by (simp add: doc_update_def sb_update_def update_rows_def not_failing)

lemma add_order_debts_numeric:
  "list_all amount_ok ds \<Longrightarrow>
   add_order_debts w (JNum a) ds = JNum (a + total_remaining ds)"
proof (induction ds arbitrary: a)
  case Nil
  then show ?case by (simp add: total_remaining_def)
next
  case (Cons d ds)
  have "amount_ok d" using Cons.prems by simp
  then have step: "js_add w (JNum a) (js_or (col d ''remainingAmount'') (JNum 0))
      = JNum (a + numeric_or0 (col d ''remainingAmount''))"
    by (auto simp: amount_ok_def js_add_def js_or_def arith_def numeric_or0_def split: jval.splits)
  show ?case using Cons by (simp add: step total_remaining_def add.assoc)
qed

lemma to_json_activeStatuses: "to_json ` set activeStatuses = set activeStatuses"
  by (simp add: activeStatuses_def)

lemma active_orders_query:
  "filter (\<lambda>r. list_all (matches r) [FEq ''userId'' (JStr uid), FIn ''status'' activeStatuses])
     (tables w ORDERS_COLLECTION) = active_orders w uid"
  by (simp add: active_orders_def is_active_iff to_json_activeStatuses)

lemma null_filter_selects_nothing:
  "filter (\<lambda>r. list_all (matches r) (fs @ [FEq f JNull])) rows = []"
  by (simp add: filter_empty_conv)

lemma collections_nonempty [simp]:
  "USERS_COLLECTION \<noteq> []" "ORDERS_COLLECTION \<noteq> []" "TEMP_ORDERS_COLLECTION \<noteq> []"
  "TRANSACTIONS_COLLECTION \<noteq> []" "REPRESENTATIVES_COLLECTION \<noteq> []"
  "SETTINGS_COLLECTION \<noteq> []" "CREDITORS_COLLECTION \<noteq> []"
  by (simp_all add: USERS_COLLECTION_def ORDERS_COLLECTION_def TEMP_ORDERS_COLLECTION_def
        TRANSACTIONS_COLLECTION_def REPRESENTATIVES_COLLECTION_def SETTINGS_COLLECTION_def
        CREDITORS_COLLECTION_def)

lemma stats_payload_plain:
  "\<not> hasSpecialOps [(''debt'', JNum d), (''orderCount'', JNum n)]"
  "\<not> hasDotNotation [(''debt'', JNum d), (''orderCount'', JNum n)]"
  by (simp_all add: hasSpecialOps_def hasDotNotation_def)

text \<open>The second query of the recalculation ends with \<open>where("parentInvoiceId", "==", null)\<close>
  and so selects nothing: the totals that are stored are those of the orders.\<close>

lemma recalculate_run:
  assumes nf: "no_faults w" and uid: "uid \<noteq> []"
    and t1: "list_all amount_ok (active_orders w uid)"
  shows "recalculateUserStats (JStr uid) w =
     (Inr (), tick (put_table USERS_COLLECTION
        (map (\<lambda>r. if has_id (JStr uid) r
                   then with_stats (orders_debt w uid) (user_orderCount w uid) r else r)
           (tables w USERS_COLLECTION)) (tick (tick w))))"
proof -
  have q1: "dbAdapter_query ORDERS_COLLECTION
              [Where ''userId'' ''=='' (JStr uid), Where ''status'' ''in'' (JArr activeStatuses)] w
            = (Inr (active_orders w uid), tick w)"
    using nf active_orders_query [of uid w]
    by (simp add: query_ok to_json_activeStatuses)
  have q2: "dbAdapter_query TEMP_ORDERS_COLLECTION
              [Where ''assignedUserId'' ''=='' (JStr uid), Where ''parentInvoiceId'' ''=='' JNull]
              (tick w)
            = (Inr [], tick (tick w))"
    using nf null_filter_selects_nothing [of "[FEq ''assignedUserId'' (JStr uid)]" "''parentInvoiceId''"]
    by (simp add: query_ok)
  have d1: "add_order_debts (tick w) (JNum 0) (active_orders w uid)
            = JNum (orders_debt w uid)"
    using add_order_debts_numeric [OF t1, of "tick w" 0] by (simp add: orders_debt_def)
  have up: "doc_update (USERS_COLLECTION, JStr uid)
              [(''debt'', JNum (orders_debt w uid)),
               (''orderCount'', JNum (of_nat (length (active_orders w uid))))] (tick (tick w))
            = (Inr (), tick (put_table USERS_COLLECTION
                (map (\<lambda>r. if has_id (JStr uid) r
                   then with_stats (orders_debt w uid) (user_orderCount w uid) r else r)
                 (tables w USERS_COLLECTION)) (tick (tick w))))"
    unfolding with_stats_def user_orderCount_def
    using nf by (simp add: plain_update_ok stats_payload_plain)
  show ?thesis
    using uid
    by (simp add: recalculateUserStats_def try_catch_def bnd_def doc_def ret_def host_def
          updateDoc_def q1 q2 d1 up)
qed

lemma collections_distinct [simp]:
  "USERS_COLLECTION \<noteq> ORDERS_COLLECTION" "ORDERS_COLLECTION \<noteq> USERS_COLLECTION"
  "USERS_COLLECTION \<noteq> TEMP_ORDERS_COLLECTION" "TEMP_ORDERS_COLLECTION \<noteq> USERS_COLLECTION"
  "USERS_COLLECTION \<noteq> TRANSACTIONS_COLLECTION" "TRANSACTIONS_COLLECTION \<noteq> USERS_COLLECTION"
  "USERS_COLLECTION \<noteq> REPRESENTATIVES_COLLECTION" "REPRESENTATIVES_COLLECTION \<noteq> USERS_COLLECTION"
  "USERS_COLLECTION \<noteq> SETTINGS_COLLECTION" "SETTINGS_COLLECTION \<noteq> USERS_COLLECTION"
  "ORDERS_COLLECTION \<noteq> TEMP_ORDERS_COLLECTION" "TEMP_ORDERS_COLLECTION \<noteq> ORDERS_COLLECTION"
  "ORDERS_COLLECTION \<noteq> TRANSACTIONS_COLLECTION" "TRANSACTIONS_COLLECTION \<noteq> ORDERS_COLLECTION"
  "ORDERS_COLLECTION \<noteq> REPRESENTATIVES_COLLECTION" "REPRESENTATIVES_COLLECTION \<noteq> ORDERS_COLLECTION"
  "ORDERS_COLLECTION \<noteq> SETTINGS_COLLECTION" "SETTINGS_COLLECTION \<noteq> ORDERS_COLLECTION"
  "TEMP_ORDERS_COLLECTION \<noteq> TRANSACTIONS_COLLECTION" "TRANSACTIONS_COLLECTION \<noteq> TEMP_ORDERS_COLLECTION"
  "TEMP_ORDERS_COLLECTION \<noteq> SETTINGS_COLLECTION" "SETTINGS_COLLECTION \<noteq> TEMP_ORDERS_COLLECTION"
  "TRANSACTIONS_COLLECTION \<noteq> REPRESENTATIVES_COLLECTION" "REPRESENTATIVES_COLLECTION \<noteq> TRANSACTIONS_COLLECTION"
  "TRANSACTIONS_COLLECTION \<noteq> SETTINGS_COLLECTION" "SETTINGS_COLLECTION \<noteq> TRANSACTIONS_COLLECTION"
  by (simp_all add: USERS_COLLECTION_def ORDERS_COLLECTION_def TEMP_ORDERS_COLLECTION_def
        TRANSACTIONS_COLLECTION_def REPRESENTATIVES_COLLECTION_def SETTINGS_COLLECTION_def)

lemma with_stats_eq:
  "with_stats d n r = AList.update ''debt'' (JNum d) (AList.update ''orderCount'' (JNum (of_nat n)) r)"
  by (simp add: with_stats_def spread_def json_row_def AList.merge_def clearjunk.simps)

lemma col_with_stats:
  "col (with_stats d n r) k =
     (if k = ''debt'' then JNum d else if k = ''orderCount'' then JNum (of_nat n) else col r k)"
  by (simp add: with_stats_eq col_update)

lemma has_id_with_stats [simp]: "has_id i (with_stats d n r) = has_id i r"
  by (simp add: has_id_def col_with_stats)

lemma with_stats_idem [simp]: "with_stats d n (with_stats d n r) = with_stats d n r"
proof -
  let ?a = "AList.update ''orderCount'' (JNum (of_nat n)) r"
  let ?b = "AList.update ''debt'' (JNum d) ?a"
  have 1: "AList.update ''orderCount'' (JNum (of_nat n)) ?b = ?b"
    by (rule update_triv) (simp add: update_conv')
  have 2: "AList.update ''debt'' (JNum d) ?b = ?b"
    by (rule update_triv) (simp add: update_conv')
  show ?thesis by (simp only: with_stats_eq 1 2)
qed

lemma active_orders_cong:
  "tables w' ORDERS_COLLECTION = tables w ORDERS_COLLECTION \<Longrightarrow> active_orders w' uid = active_orders w uid"
  by (simp add: active_orders_def)

lemmas collection_names = USERS_COLLECTION_def ORDERS_COLLECTION_def TEMP_ORDERS_COLLECTION_def
  TRANSACTIONS_COLLECTION_def REPRESENTATIVES_COLLECTION_def SETTINGS_COLLECTION_def
  CREDITORS_COLLECTION_def

lemma w_shop_tables:
  "tables w_shop USERS_COLLECTION =
     [[(''id'', JStr ''u1''), (''username'', JStr ''amal''), (''debt'', JNum 0),
       (''orderCount'', JNum 0), (''orderCounter'', JNum 3)]]"
  "active_orders w_shop ''u1'' =
     [[(''id'', JStr ''o1''), (''userId'', JStr ''u1''), (''status'', JStr ''pending''),
       (''remainingAmount'', JNum 800)]]"
  "direct_temp_orders w_shop ''u1'' =
     [[(''id'', JStr ''t1''), (''assignedUserId'', JStr ''u1''), (''status'', JStr ''pending''),
       (''remainingAmount'', JNum 50), (''parentInvoiceId'', JNull)]]"
  "no_faults w_shop"
  by (simp_all add: w_shop_def w0_def put_table_def collection_names active_orders_def
        direct_temp_orders_def is_active_def order_statuses_def col_def no_faults_def)

lemma w_shop_debt:
  "orders_debt w_shop ''u1'' = 800" "user_debt w_shop ''u1'' = 850"
  "user_orderCount w_shop ''u1'' = 1"
  by (simp_all add: orders_debt_def user_debt_def user_orderCount_def total_remaining_def
        w_shop_tables numeric_or0_def col_def)

text \<open>
  C1. The stored debt is not the debt of the claim. In the shop user \<open>u1\<close> has one active
  order with 800 remaining and one provisional invoice, directly assigned, neither
  cancelled nor converted, with 50 remaining: the debt of the claim is 850. The store
  answers every request and \<open>recalculateUserStats\<close> completes, but it stores 800: its second
  query asks for \<open>parentInvoiceId == null\<close> through the equality filter, which selects no
  row, so no provisional invoice is ever added.
\<close>

theorem recalculate_omits_temp_orders:
  "no_faults w_shop
   \<and> fst (recalculateUserStats (JStr ''u1'') w_shop) = Inr ()
   \<and> direct_temp_orders w_shop ''u1''
       = [[(''id'', JStr ''t1''), (''assignedUserId'', JStr ''u1''), (''status'', JStr ''pending''),
           (''remainingAmount'', JNum 50), (''parentInvoiceId'', JNull)]]
   \<and> user_debt w_shop ''u1'' = 850 \<and> user_orderCount w_shop ''u1'' = 1
   \<and> tables (snd (recalculateUserStats (JStr ''u1'') w_shop)) USERS_COLLECTION
       = [[(''id'', JStr ''u1''), (''username'', JStr ''amal''), (''debt'', JNum 800),
           (''orderCount'', JNum 1), (''orderCounter'', JNum 3)]]"
proof -
  have p3: "list_all amount_ok (active_orders w_shop ''u1'')"
    by (simp add: w_shop_tables amount_ok_def col_def)
  have ne: "''u1'' \<noteq> []" by simp
  show ?thesis
    using recalculate_run [OF w_shop_tables(4) ne p3]
    by (simp add: w_shop_debt w_shop_tables with_stats_eq has_id_def col_def)
qed

text \<open>A read that the store fails is logged by the shim and taken for an empty result:
  when only the first request fails, the recalculation still completes, and stores a debt
  of 0 and no order.\<close>

lemma recalculate_after_failed_read:
  "fst (recalculateUserStats (JStr ''u1'') w_flaky) = Inr ()
   \<and> tables (snd (recalculateUserStats (JStr ''u1'') w_flaky)) USERS_COLLECTION
       = [[(''id'', JStr ''u1''), (''username'', JStr ''amal''), (''debt'', JNum 0),
           (''orderCount'', JNum 0), (''orderCounter'', JNum 3)]]"
  by (simp add: recalculateUserStats_def updateDoc_def dbAdapter_query_def sb_select_def
        w_flaky_def w_shop_def w0_def collection_names shim_defs try_catch_def throw_def doc_def
        host_def hasSpecialOps_def AList.merge_def)

section \<open>Reading a user\<close>

lemma sb_single_snd: "snd (sb_single c i w) = tick w"
  by (simp add: sb_single_def split: list.splits)

lemma doc_get_shape: "doc_get ref w = (Inr (fst (sb_single (fst ref) (snd ref) w)), tick w)"
  using sb_single_snd [of "fst ref" "snd ref" w]
  by (cases "sb_single (fst ref) (snd ref) w") (simp add: doc_get_def)

lemma query_shape:
  "add_conditions [] conds = Inr q \<Longrightarrow>
   dbAdapter_query c conds w = (Inr (case fst (sb_select c q w) of None \<Rightarrow> [] | Some rs \<Rightarrow> rs), tick w)"
  by (simp add: dbAdapter_query_def sb_select_def)

lemma plain_update_shape:
  "\<not> hasSpecialOps data \<Longrightarrow> \<not> hasDotNotation data \<Longrightarrow>
   doc_update (c, i) data w =
     (if failing w then (Inl StoreError, tick w)
      else (Inr (), tick (put_table c
              (map (\<lambda>r. if has_id i r then spread r (json_row data) else r) (tables w c)) w)))"
  by (simp add: doc_update_def sb_update_def update_rows_def)

lemma js_add_not_object: "\<not> is_object (js_add w a b)"
  by (simp add: js_add_def arith_def split: option.splits)

lemma add_order_debts_not_object:
  "\<not> is_object a \<Longrightarrow> \<not> is_object (add_order_debts w a ds)"
  by (induction ds arbitrary: a) (simp_all add: js_add_not_object)

lemma add_temp_debts_not_object:
  "\<not> is_object a \<Longrightarrow> \<not> is_object (add_temp_debts w a ds)"
  by (induction ds arbitrary: a) (simp_all add: js_add_not_object)

lemma stats_payload_plain_any:
  "\<not> is_object d \<Longrightarrow> \<not> hasSpecialOps [(''debt'', d), (''orderCount'', JNum n)]"
  "\<not> hasDotNotation [(''debt'', d), (''orderCount'', JNum n)]"
  by (simp_all add: hasSpecialOps_def hasDotNotation_def)

text \<open>What a recalculation does to the world, whatever the store answers.\<close>

lemma recalculate_shape:
  "\<exists>d n. recalculateUserStats i w =
     (if \<not> truthy i then (Inl (Error ''Invalid doc usage''), w)
      else if failing (tick (tick w)) then (Inl StoreError, tick (tick (tick w)))
      else (Inr (), tick (put_table USERS_COLLECTION
              (map (\<lambda>r. if has_id i r then spread r (json_row (stats_payload d n)) else r)
                 (tables w USERS_COLLECTION)) (tick (tick w)))))"
proof (cases "truthy i")
  case False
  then show ?thesis
    by (simp add: recalculateUserStats_def try_catch_def bnd_def doc_def throw_def)
next
  case True
  define docs1 where "docs1 = (case fst (sb_select ORDERS_COLLECTION
      [FEq ''userId'' i, FIn ''status'' activeStatuses] w) of None \<Rightarrow> [] | Some rs \<Rightarrow> rs)"
  define docs2 where "docs2 = (case fst (sb_select TEMP_ORDERS_COLLECTION
      [FEq ''assignedUserId'' i, FEq ''parentInvoiceId'' JNull] (tick w)) of None \<Rightarrow> [] | Some rs \<Rightarrow> rs)"
  define total where "total = add_temp_debts (tick (tick w)) (add_order_debts (tick w) (JNum 0) docs1) docs2"
  have q1: "dbAdapter_query ORDERS_COLLECTION
              [Where ''userId'' ''=='' i, Where ''status'' ''in'' (JArr activeStatuses)] w
            = (Inr docs1, tick w)"
    by (simp add: query_shape docs1_def)
  have q2: "dbAdapter_query TEMP_ORDERS_COLLECTION
              [Where ''assignedUserId'' ''=='' i, Where ''parentInvoiceId'' ''=='' JNull] (tick w)
            = (Inr docs2, tick (tick w))"
    by (simp add: query_shape docs2_def)
  have plain: "\<not> is_object total"
    by (simp add: total_def add_temp_debts_not_object add_order_debts_not_object)
  have up: "doc_update (USERS_COLLECTION, i)
              [(''debt'', total), (''orderCount'', JNum (of_nat (length docs1)))] (tick (tick w))
      = (if failing (tick (tick w)) then (Inl StoreError, tick (tick (tick w)))
         else (Inr (), tick (put_table USERS_COLLECTION
              (map (\<lambda>r. if has_id i r
                         then spread r (json_row (stats_payload total (JNum (of_nat (length docs1)))))
                         else r)
                 (tables w USERS_COLLECTION)) (tick (tick w)))))"
    unfolding stats_payload_def
    by (simp add: plain_update_shape stats_payload_plain_any plain tick_def)
  have "recalculateUserStats i w = doc_update (USERS_COLLECTION, i)
              [(''debt'', total), (''orderCount'', JNum (of_nat (length docs1)))] (tick (tick w))"
    using True
    by (simp add: recalculateUserStats_def try_catch_def bnd_def doc_def ret_def host_def
          updateDoc_def throw_def q1 q2 total_def USERS_COLLECTION_def split: prod.splits sum.splits)
  then show ?thesis using True up by auto
qed

lemma getUserById_tables:
  "tables (snd (getUserById i w)) = tables (snd (recalculateUserStats i w))"
proof (cases "recalculateUserStats i w")
  case (Pair res w1)
  show ?thesis
  proof (cases res)
    case (Inl e)
    then show ?thesis using Pair
      by (simp add: getUserById_def try_catch_def bnd_def ret_def)
  next
    case (Inr u)
    then show ?thesis using Pair
      by (simp add: getUserById_def try_catch_def bnd_def ret_def doc_def throw_def getDoc_def
            doc_get_shape split: option.splits sum.splits)
  qed
qed

lemma getUserById_total: "\<exists>res. fst (getUserById i w) = Inr res"
proof (cases "recalculateUserStats i w")
  case (Pair res w1)
  show ?thesis
  proof (cases res)
    case (Inl e)
    then show ?thesis using Pair
      by (simp add: getUserById_def try_catch_def bnd_def ret_def)
  next
    case (Inr u)
    then show ?thesis using Pair
      by (simp add: getUserById_def try_catch_def bnd_def ret_def doc_def throw_def getDoc_def
            doc_get_shape split: option.splits sum.splits)
  qed
qed

lemma col_stats_frame:
  "k \<noteq> ''debt'' \<Longrightarrow> k \<noteq> ''orderCount'' \<Longrightarrow>
   col (spread r (json_row (stats_payload d n))) k = col r k"
  by (simp add: col_spread_json stats_payload_def)

lemma recalculate_frame:
  "(\<forall>c. c \<noteq> USERS_COLLECTION \<longrightarrow> tables (snd (recalculateUserStats i w)) c = tables w c)
   \<and> list_all2 (\<lambda>r r'. same_but_stats r r' \<and> (has_id i r \<or> r' = r))
        (tables w USERS_COLLECTION) (tables (snd (recalculateUserStats i w)) USERS_COLLECTION)"
proof -
  obtain d n where shape: "recalculateUserStats i w =
     (if \<not> truthy i then (Inl (Error ''Invalid doc usage''), w)
      else if failing (tick (tick w)) then (Inl StoreError, tick (tick (tick w)))
      else (Inr (), tick (put_table USERS_COLLECTION
              (map (\<lambda>r. if has_id i r then spread r (json_row (stats_payload d n)) else r)
                 (tables w USERS_COLLECTION)) (tick (tick w)))))"
    using recalculate_shape by blast
  have refl: "list_all2 (\<lambda>r r'. same_but_stats r r' \<and> (has_id i r \<or> r' = r)) xs xs" for xs
    by (simp add: list_all2_same same_but_stats_def)
  have upd: "list_all2 (\<lambda>r r'. same_but_stats r r' \<and> (has_id i r \<or> r' = r)) xs
       (map (\<lambda>r. if has_id i r then spread r (json_row (stats_payload d n)) else r) xs)" for xs
    using col_stats_frame [of _ _ d n]
    by (auto simp: list_all2_map2 list_all2_same same_but_stats_def)
  show ?thesis
    unfolding shape using refl upd by simp
qed

lemma getUserById_existing:
  assumes nf: "no_faults w" and uid: "uid \<noteq> []"
    and t1: "list_all amount_ok (active_orders w uid)"
    and single: "filter (has_id (JStr uid)) (tables w USERS_COLLECTION) = [r]"
  shows "fst (getUserById (JStr uid) w)
           = Inr (Some (spread [(''id'', JStr uid)]
                   (with_stats (orders_debt w uid) (user_orderCount w uid) r)))"
proof -
  let ?stamp = "\<lambda>r. if has_id (JStr uid) r
                   then with_stats (orders_debt w uid) (user_orderCount w uid) r else r"
  let ?w1 = "tick (put_table USERS_COLLECTION (map ?stamp (tables w USERS_COLLECTION)) (tick (tick w)))"
  have run: "recalculateUserStats (JStr uid) w = (Inr (), ?w1)"
    by (rule recalculate_run [OF nf uid t1])
  have comp: "has_id (JStr uid) \<circ> ?stamp = has_id (JStr uid)"
    by (auto simp: fun_eq_iff)
  have found: "filter (has_id (JStr uid)) (map ?stamp (tables w USERS_COLLECTION))
                 = [with_stats (orders_debt w uid) (user_orderCount w uid) r]"
  proof -
    have "filter (has_id (JStr uid)) (map ?stamp (tables w USERS_COLLECTION))
          = map ?stamp (filter (has_id (JStr uid)) (tables w USERS_COLLECTION))"
      by (simp only: filter_map comp)
    also have "\<dots> = [?stamp r]" by (simp only: single list.map)
    also have "has_id (JStr uid) r" using filter_eq_ConsD [OF single] by auto
    ultimately show ?thesis by simp
  qed
  have nfail: "\<not> failing ?w1" using nf by (simp add: not_failing)
  have get: "fst (sb_single USERS_COLLECTION (JStr uid) ?w1)
               = Some (with_stats (orders_debt w uid) (user_orderCount w uid) r)"
    using nfail found by (simp add: sb_single_def)
  show ?thesis
    using uid
    by (simp add: getUserById_def try_catch_def bnd_def ret_def doc_def getDoc_def run
          doc_get_shape get)
qed

text \<open>
  C10. For every identifier and every behaviour of the store, the tables after
  \<open>getUserById\<close> are the tables after \<open>recalculateUserStats\<close>: no table but the users
  table changes, and in the users table only rows with the given identifier change, and
  only in their \<open>debt\<close> and \<open>orderCount\<close> columns. When the store answers every request
  and the user exists (one row), the call writes into that row the totals that the
  recalculation computes, the sum of \<open>remainingAmount\<close> over the user's active orders as
  \<open>debt\<close> and their number as \<open>orderCount\<close>, and returns the row with these totals.
\<close>

theorem getUserById_writes_stats:
  "tables (snd (getUserById i w)) = tables (snd (recalculateUserStats i w))
   \<and> (\<forall>c. c \<noteq> USERS_COLLECTION \<longrightarrow> tables (snd (getUserById i w)) c = tables w c)
   \<and> list_all2 (\<lambda>r r'. same_but_stats r r' \<and> (has_id i r \<or> r' = r))
        (tables w USERS_COLLECTION) (tables (snd (getUserById i w)) USERS_COLLECTION)
   \<and> (no_faults w \<and> i = JStr uid \<and> uid \<noteq> []
        \<and> list_all amount_ok (active_orders w uid)
        \<and> filter (has_id (JStr uid)) (tables w USERS_COLLECTION) = [r]
      \<longrightarrow> fst (getUserById i w)
            = Inr (Some (spread [(''id'', JStr uid)]
                    (with_stats (orders_debt w uid) (user_orderCount w uid) r)))
        \<and> tables (snd (getUserById i w)) USERS_COLLECTION
            = map (\<lambda>x. if has_id (JStr uid) x
                        then with_stats (orders_debt w uid) (user_orderCount w uid) x else x)
                (tables w USERS_COLLECTION))"
proof -
  have a: "tables (snd (getUserById i w)) = tables (snd (recalculateUserStats i w))"
    by (rule getUserById_tables)
  have b: "(\<forall>c. c \<noteq> USERS_COLLECTION \<longrightarrow> tables (snd (getUserById i w)) c = tables w c)
     \<and> list_all2 (\<lambda>r r'. same_but_stats r r' \<and> (has_id i r \<or> r' = r))
        (tables w USERS_COLLECTION) (tables (snd (getUserById i w)) USERS_COLLECTION)"
    using recalculate_frame [of i w] by (simp add: a)
  have c: "fst (getUserById i w)
            = Inr (Some (spread [(''id'', JStr uid)]
                    (with_stats (orders_debt w uid) (user_orderCount w uid) r)))
        \<and> tables (snd (getUserById i w)) USERS_COLLECTION
            = map (\<lambda>x. if has_id (JStr uid) x
                        then with_stats (orders_debt w uid) (user_orderCount w uid) x else x)
                (tables w USERS_COLLECTION)"
    if h: "no_faults w" "i = JStr uid" "uid \<noteq> []"
        "list_all amount_ok (active_orders w uid)"
        "filter (has_id (JStr uid)) (tables w USERS_COLLECTION) = [r]"
  proof -
    have run: "recalculateUserStats (JStr uid) w =
      (Inr (), tick (put_table USERS_COLLECTION
        (map (\<lambda>r. if has_id (JStr uid) r
                   then with_stats (orders_debt w uid) (user_orderCount w uid) r else r)
           (tables w USERS_COLLECTION)) (tick (tick w))))"
      by (rule recalculate_run [OF h(1) h(3) h(4)])
    show ?thesis
      using getUserById_existing [OF h(1) h(3) h(4) h(5)] a
      by (simp add: h(2) run)
  qed
  show ?thesis using a b c by blast
qed

theorem getUserById_writes_stats_witness:
  "tables w_shop USERS_COLLECTION
     = [[(''id'', JStr ''u1''), (''username'', JStr ''amal''), (''debt'', JNum 0),
         (''orderCount'', JNum 0), (''orderCounter'', JNum 3)]]
   \<and> tables (snd (getUserById (JStr ''u1'') w_shop)) USERS_COLLECTION
     = [[(''id'', JStr ''u1''), (''username'', JStr ''amal''), (''debt'', JNum 800),
         (''orderCount'', JNum 1), (''orderCounter'', JNum 3)]]
   \<and> (\<exists>user. fst (getUserById (JStr ''u1'') w_shop) = Inr (Some user)
        \<and> col user ''debt'' = JNum 800 \<and> col user ''orderCount'' = JNum 1
        \<and> col user ''username'' = JStr ''amal'')"
proof -
  have p3: "list_all amount_ok (active_orders w_shop ''u1'')"
    by (simp add: w_shop_tables amount_ok_def col_def)
  have p5: "filter (has_id (JStr ''u1'')) (tables w_shop USERS_COLLECTION)
     = [[(''id'', JStr ''u1''), (''username'', JStr ''amal''), (''debt'', JNum 0),
         (''orderCount'', JNum 0), (''orderCounter'', JNum 3)]]"
    by (simp add: w_shop_tables has_id_def col_def)
  have d: "orders_debt w_shop ''u1'' = 800" "user_orderCount w_shop ''u1'' = 1"
    by (rule w_shop_debt)+
  have "fst (getUserById (JStr ''u1'') w_shop)
            = Inr (Some (spread [(''id'', JStr ''u1'')]
                    (with_stats (orders_debt w_shop ''u1'') (user_orderCount w_shop ''u1'')
                       [(''id'', JStr ''u1''), (''username'', JStr ''amal''), (''debt'', JNum 0),
                        (''orderCount'', JNum 0), (''orderCounter'', JNum 3)])))
        \<and> tables (snd (getUserById (JStr ''u1'') w_shop)) USERS_COLLECTION
            = map (\<lambda>x. if has_id (JStr ''u1'') x
                        then with_stats (orders_debt w_shop ''u1'') (user_orderCount w_shop ''u1'') x
                        else x)
                (tables w_shop USERS_COLLECTION)"
    using getUserById_writes_stats [of "JStr ''u1''" w_shop "''u1''"
        "[(''id'', JStr ''u1''), (''username'', JStr ''amal''), (''debt'', JNum 0),
          (''orderCount'', JNum 0), (''orderCounter'', JNum 3)]"]
      w_shop_tables(4) p3 p5
    by blast
  then show ?thesis
    by (simp add: d w_shop_tables with_stats_eq has_id_def col_def spread_def AList.merge_def)
qed

section \<open>Counters of representatives\<close>

lemmas eval_defs = shim_defs try_catch_def throw_def doc_def batch_update_def batch_push_def
  batch_commit_def batch_delete_def doc_delete_def sb_delete_def doc_get_def getDoc_def
  dbAdapter_query_def sb_select_def collection_names w0_def AList.merge_def
  host_def detached_def random_id_def advance_def doc_auto_def


text \<open>
  C3. In a consistent state where order \<open>o1\<close> is assigned to representative \<open>r1\<close>, the
  bulk assignment of \<open>[o1]\<close> to \<open>r2\<close> succeeds, moves the order to \<open>r2\<close> and counts it
  for \<open>r2\<close>, and leaves the counter of \<open>r1\<close> at 1 although no order is assigned to
  \<open>r1\<close> any more: the counters are no longer the numbers of assigned orders.
\<close>

theorem bulk_assign_breaks_counts:
  "counts_consistent w_reps
   \<and> fst (bulkAssignRepresentative [JStr ''o1''] rep2 w_reps) = Inr True
   \<and> tables (snd (bulkAssignRepresentative [JStr ''o1''] rep2 w_reps)) ORDERS_COLLECTION
       = [[(''id'', JStr ''o1''), (''userId'', JStr ''u1''), (''status'', JStr ''out_for_delivery''),
           (''representativeId'', JStr ''r2''), (''representativeName'', JStr ''Badr'')]]
   \<and> tables (snd (bulkAssignRepresentative [JStr ''o1''] rep2 w_reps)) REPRESENTATIVES_COLLECTION
       = [[(''id'', JStr ''r1''), (''name'', JStr ''Adel''), (''assignedOrders'', JNum 1)],
          [(''id'', JStr ''r2''), (''name'', JStr ''Badr''), (''assignedOrders'', JNum 1)]]
   \<and> assigned_orders_of (snd (bulkAssignRepresentative [JStr ''o1''] rep2 w_reps)) (JStr ''r1'') = 0
   \<and> \<not> counts_consistent (snd (bulkAssignRepresentative [JStr ''o1''] rep2 w_reps))"
proof -
  have c0: "counts_consistent w_reps"
    by (simp add: counts_consistent_def assigned_orders_of_def w_reps_def put_table_def
          collection_names w0_def col_def)
  have run: "fst (bulkAssignRepresentative [JStr ''o1''] rep2 w_reps) = Inr True
   \<and> tables (snd (bulkAssignRepresentative [JStr ''o1''] rep2 w_reps)) ORDERS_COLLECTION
       = [[(''id'', JStr ''o1''), (''userId'', JStr ''u1''), (''status'', JStr ''out_for_delivery''),
           (''representativeId'', JStr ''r2''), (''representativeName'', JStr ''Badr'')]]
   \<and> tables (snd (bulkAssignRepresentative [JStr ''o1''] rep2 w_reps)) REPRESENTATIVES_COLLECTION
       = [[(''id'', JStr ''r1''), (''name'', JStr ''Adel''), (''assignedOrders'', JNum 1)],
          [(''id'', JStr ''r2''), (''name'', JStr ''Badr''), (''assignedOrders'', JNum 1)]]"
    by (simp add: bulkAssignRepresentative_def w_reps_def rep2_def eval_defs)
  show ?thesis
    using c0 run
    by (simp add: counts_consistent_def assigned_orders_of_def col_def)
qed

text \<open>The assignment of the single order, on the same input, takes the order from the
  former representative's counter.\<close>

lemma single_assign_keeps_counts:
  "fst (assignRepresentativeToOrder (JStr ''o1'') rep2 w_reps) = Inr True
   \<and> tables (snd (assignRepresentativeToOrder (JStr ''o1'') rep2 w_reps)) REPRESENTATIVES_COLLECTION
       = [[(''id'', JStr ''r1''), (''name'', JStr ''Adel''), (''assignedOrders'', JNum 0)],
          [(''id'', JStr ''r2''), (''name'', JStr ''Badr''), (''assignedOrders'', JNum 1)]]
   \<and> counts_consistent (snd (assignRepresentativeToOrder (JStr ''o1'') rep2 w_reps))"
proof -
  have run: "fst (assignRepresentativeToOrder (JStr ''o1'') rep2 w_reps) = Inr True
   \<and> tables (snd (assignRepresentativeToOrder (JStr ''o1'') rep2 w_reps)) ORDERS_COLLECTION
       = [[(''id'', JStr ''o1''), (''userId'', JStr ''u1''), (''status'', JStr ''out_for_delivery''),
           (''representativeId'', JStr ''r2''), (''representativeName'', JStr ''Badr'')]]
   \<and> tables (snd (assignRepresentativeToOrder (JStr ''o1'') rep2 w_reps)) REPRESENTATIVES_COLLECTION
       = [[(''id'', JStr ''r1''), (''name'', JStr ''Adel''), (''assignedOrders'', JNum 0)],
          [(''id'', JStr ''r2''), (''name'', JStr ''Badr''), (''assignedOrders'', JNum 1)]]"
    by (simp add: assignRepresentativeToOrder_def w_reps_def rep2_def eval_defs)
  show ?thesis
    using run by (simp add: counts_consistent_def assigned_orders_of_def col_def)
qed

section \<open>Exceptions at the boundary of an action\<close>

text \<open>\<open>recalculateUserStats\<close> catches, logs and throws again, as its comment announces:
  its callers are meant to see the failure.\<close>

lemma recalculate_rethrows:
  "fst (recalculateUserStats (JStr ''u1'') w_down) = Inl StoreError"
  by (simp add: recalculateUserStats_def updateDoc_def w_down_def w_shop_def eval_defs)

text \<open>An action without \<open>try\<close> passes on the error of a write that the store refuses,
  and an action that builds its document reference before its \<open>try\<close> throws on an
  identifier that is empty.\<close>

lemma updateCreditor_throws:
  assumes "truthy i" "\<not> hasSpecialOps data" "\<not> hasDotNotation data" "failing w"
  shows "fst (updateCreditor i data w) = Inl StoreError"
  using assms
  by (simp add: updateCreditor_def updateDoc_def doc_update_def sb_update_def bnd_def doc_def
        ret_def CREDITORS_COLLECTION_def)

lemma reference_before_try_throws:
  assumes "\<not> truthy i"
  shows "fst (updateTransaction i n w) = Inl (Error ''Invalid doc usage'')"
    and "fst (deleteTransaction i w) = Inl (Error ''Invalid doc usage'')"
    and "\<not> cost < 0 \<Longrightarrow> fst (addCustomerShippingCost i cost w) = Inl (Error ''Invalid doc usage'')"
    and "\<not> weight < 0 \<Longrightarrow>
           fst (setCustomerWeightDetails i weight cp pp w) = Inl (Error ''Invalid doc usage'')"
  using assms
  by (simp_all add: updateTransaction_def deleteTransaction_def addCustomerShippingCost_def
        setCustomerWeightDetails_def bnd_def doc_def throw_def)

text \<open>
  C5. Exceptions pass the boundary of exported actions. On a store that answers with
  errors \<open>updateCreditor\<close>, which has no \<open>try\<close>, throws the error of its write, where
  \<open>updateUser\<close>, the same two lines inside \<open>try\<close>/\<open>catch\<close>, returns \<open>false\<close>. With an empty
  identifier \<open>updateTransaction\<close>, which builds its document reference before its \<open>try\<close>,
  throws \<open>Invalid doc usage\<close>, where \<open>assignRepresentativeToOrder\<close>, which builds it
  inside, returns \<open>false\<close>.
\<close>

theorem unguarded_actions_throw:
  "fst (updateCreditor (JStr ''c1'') [(''name'', JStr ''Salem'')] w_down) = Inl StoreError
   \<and> fst (updateUser (JStr ''u1'') [(''name'', JStr ''Amal'')] w_down) = Inr False
   \<and> fst (updateTransaction (JStr []) 5 w_shop) = Inl (Error ''Invalid doc usage'')
   \<and> fst (assignRepresentativeToOrder (JStr []) rep2 w_shop) = Inr False"
  by (simp add: updateCreditor_def updateUser_def updateTransaction_def
        assignRepresentativeToOrder_def updateDoc_def w_down_def w_shop_def eval_defs)

section \<open>Runs on a store that answers every request\<close>

lemma tables_advance [simp]: "tables (advance w) = tables w"
  by (simp add: advance_def)

lemma no_faults_advance [simp]: "no_faults (advance w) = no_faults w"
  by (simp add: no_faults_def advance_def)

lemma rnd_simps [simp]:
  "rnd (tick w) = rnd w" "rnd (put_table c rs w) = rnd w" "rnd (advance w) n = rnd w (Suc n)"
  by (simp_all add: tick_def put_table_def advance_def)


lemma host_simps [simp]:
  "str_of (put_table c rs w) = str_of w" "str_of (advance w) = str_of w"
  "num_of (put_table c rs w) = num_of w" "num_of (advance w) = num_of w"
  "now (tick w) = now w" "now (put_table c rs w) = now w" "now (advance w) = now w"
  "fixed2 (tick w) = fixed2 w" "fixed2 (put_table c rs w) = fixed2 w" "fixed2 (advance w) = fixed2 w"
  by (simp_all add: tick_def put_table_def advance_def)

lemma to_number_cong: "num_of w' = num_of w \<Longrightarrow> str_of w' = str_of w \<Longrightarrow> to_number w' v = to_number w v"
  by (cases v) simp_all

lemma to_number_simps [simp]:
  "to_number (put_table c rs w) v = to_number w v" "to_number (advance w) v = to_number w v"
  by (rule to_number_cong; simp)+

lemma truthy_to_json [simp]: "truthy (to_json v) = truthy v"
  by (cases v) simp_all

lemma to_json_JStr_iff: "to_json v = JStr s \<longleftrightarrow> v = JStr s"
  by (cases v) auto

lemma col_json_row_id:
  "i \<noteq> JUndef \<Longrightarrow> col (json_row (spread d [(''id'', i)])) ''id'' = to_json i"
  by (simp add: col_def map_of_json_row map_of_spread)

lemma upsert_rows_fresh:
  "\<not> list_ex (has_id (col p ''id'')) rows \<Longrightarrow> upsert_rows p rows = rows @ [p]"
  by (simp add: upsert_rows_def)

lemma doc_get_ok:
  "no_faults w \<Longrightarrow>
   doc_get (c, i) w =
     (Inr (case filter (has_id i) (tables w c) of [r] \<Rightarrow> Some r | _ \<Rightarrow> None), tick w)"
  by (simp add: doc_get_def sb_single_def not_failing split: list.splits)

lemma doc_set_ok:
  "no_faults w \<Longrightarrow>
   doc_set (c, i) data m w =
     (Inr (), tick (put_table c (upsert_rows (json_row (spread data [(''id'', i)])) (tables w c)) w))"
  by (simp add: doc_set_def sb_upsert_def not_failing)

lemma plain_update_rows:
  "no_faults w \<Longrightarrow> \<not> hasSpecialOps data \<Longrightarrow> \<not> hasDotNotation data \<Longrightarrow>
   doc_update (c, i) data w =
     (Inr (), tick (put_table c (update_rows i (json_row data) (tables w c)) w))"
  by (simp add: plain_update_ok update_rows_def)

lemma increment_update_ok:
  "no_faults w \<Longrightarrow> CHR ''.'' \<notin> set f \<Longrightarrow>
   doc_update (c, i) [(f, increment v)] w =
     (case filter (has_id i) (tables w c) of
        [r] \<Rightarrow> (Inr (), tick (put_table c
                  (update_rows i
                     (json_row (AList.update f
                        (js_add w (js_or (of_number (to_number w (get_prop r f))) (JNum 0)) v) r))
                     (tables w c)) (tick w)))
      | _ \<Rightarrow> (Inl (Error ''Document not found for update''), tick w))"
  by (simp add: doc_update_def hasSpecialOps_increment sb_single_def sb_update_def not_failing
        apply_key_increment js_add_def arith_def split: list.splits)

lemma query_eq_ok:
  "no_faults w \<Longrightarrow> to_json v \<noteq> JNull \<Longrightarrow>
   dbAdapter_query c [Where f ''=='' v] w = (Inr (filter (\<lambda>r. col r f = to_json v) (tables w c)), tick w)"
  by (simp add: query_ok)

lemma doc_ok: "c \<noteq> [] \<Longrightarrow> truthy i \<Longrightarrow> doc c i w = (Inr (c, i), w)"
  by (simp add: doc_def ret_def)

lemma doc_auto_run: "doc_auto c w = (Inr (c, JStr (rnd w 0)), advance w)"
  by (simp add: doc_auto_def bnd_def random_id_def ret_def)

lemma getAppSettings_ok:
  assumes "no_faults w"
  shows "\<exists>s w'. getAppSettings w = (Inr s, w') \<and> no_faults w'
           \<and> (\<forall>c. c \<noteq> SETTINGS_COLLECTION \<longrightarrow> tables w' c = tables w c)
           \<and> rnd w' = rnd w \<and> str_of w' = str_of w
           \<and> num_of w' = num_of w \<and> now w' = now w \<and> fixed2 w' = fixed2 w"
  using assms
  by (simp add: getAppSettings_def try_catch_def bnd_def ret_def doc_ok getDoc_def setDoc_def
        doc_get_ok doc_set_ok split: list.splits option.splits)

section \<open>Creation of an order\<close>

lemma js_or_num0 [simp]: "js_or (JNum x) (JNum 0) = JNum x"
  by (simp add: js_or_def)

lemma js_sub_nums [simp]: "js_sub w (JNum a) (JNum b) = JNum (a - b)"
  by (simp add: js_sub_def arith_def)

lemma js_add_nums [simp]: "js_add w (JNum a) (JNum b) = JNum (a + b)"
  by (simp add: js_add_def arith_def)

lemma js_mul_nums [simp]: "js_mul w (JNum a) (JNum b) = JNum (a * b)"
  by (simp add: js_mul_def arith_def)

lemma js_gt_nums [simp]: "js_gt w (JNum a) (JNum b) = (b < a)"
  by (simp add: js_gt_def js_lt_def)

lemma js_lt_nums [simp]: "js_lt w (JNum a) (JNum b) = (a < b)"
  by (simp add: js_lt_def)

lemma get_prop_spread:
  "get_prop (spread d e) k = (case map_of e k of Some v \<Rightarrow> v | None \<Rightarrow> get_prop d k)"
  by (simp add: get_prop_def map_of_spread map_add_def split: option.splits)

lemma counter_incremented:
  "v = JNull \<or> (\<exists>x. v = JNum x) \<Longrightarrow>
   js_add w (js_or (of_number (to_number w v)) (JNum 0)) (JNum n) = JNum (numeric_or0 v + n)"
  by (auto simp: of_number_def numeric_or0_def)

lemma arith_host:
  "str_of w' = str_of w \<Longrightarrow> num_of w' = num_of w \<Longrightarrow> arith f w' a b = arith f w a b"
  by (simp add: arith_def to_number_cong [of w' w])

lemma js_ops_host:
  assumes "str_of w' = str_of w" "num_of w' = num_of w"
  shows "js_add w' a b = js_add w a b" "js_sub w' a b = js_sub w a b"
    "js_mul w' a b = js_mul w a b" "js_lt w' a b = js_lt w a b" "js_gt w' a b = js_gt w a b"
  using assms
  by (simp_all add: js_add_def js_sub_def js_mul_def js_lt_def js_gt_def arith_host [of w' w]
        to_number_cong [of w' w])

lemma js_ops_simps [simp]:
  "js_add (tick w) a b = js_add w a b" "js_add (put_table c rs w) a b = js_add w a b"
  "js_add (advance w) a b = js_add w a b"
  "js_sub (tick w) a b = js_sub w a b" "js_sub (put_table c rs w) a b = js_sub w a b"
  "js_sub (advance w) a b = js_sub w a b"
  "js_mul (tick w) a b = js_mul w a b" "js_mul (put_table c rs w) a b = js_mul w a b"
  "js_mul (advance w) a b = js_mul w a b"
  "js_lt (tick w) a b = js_lt w a b" "js_lt (put_table c rs w) a b = js_lt w a b"
  "js_lt (advance w) a b = js_lt w a b"
  "js_gt (tick w) a b = js_gt w a b" "js_gt (put_table c rs w) a b = js_gt w a b"
  "js_gt (advance w) a b = js_gt w a b"
  by (rule js_ops_host; simp)+

lemma has_id_json_row_id [simp]:
  "has_id (JStr j) (json_row (spread d [(''id'', JStr i)])) = (i = j)"
  by (simp add: has_id_def col_json_row_id)

lemma col_json_row:
  "col (json_row p) k = (case map_of p k of None \<Rightarrow> JNull | Some v \<Rightarrow> to_json v)"
  by (simp add: col_def map_of_json_row split: option.splits)

lemma addOrder_transaction_run:
  assumes nf: "no_faults w"
    and uid: "get_prop od ''userId'' = JStr uid" "uid \<noteq> []"
    and user: "filter (has_id (JStr uid)) (tables w USERS_COLLECTION) = [u]"
    and sp: "get_prop od ''sellingPriceLYD'' = JNum s"
    and dp: "get_prop od ''downPaymentLYD'' = JNum d"
    and k: "k = id_offset od"
    and fresh: "\<not> list_ex (has_id (JStr (rnd w k))) (tables w ORDERS_COLLECTION)"
      "\<not> list_ex (has_id (JStr (rnd w (Suc k)))) (tables w TRANSACTIONS_COLLECTION)"
      "\<not> list_ex (has_id (JStr (rnd w (Suc (Suc k))))) (tables w TRANSACTIONS_COLLECTION)"
      "rnd w (Suc k) \<noteq> rnd w (Suc (Suc k))"
  shows "\<exists>wT orow t1 pays.
     runTransaction (addOrder_transaction od) w = (Inr (ORDERS_COLLECTION, JStr (rnd w k)), wT)
     \<and> no_faults wT
     \<and> tables wT ORDERS_COLLECTION = tables w ORDERS_COLLECTION @ [orow]
     \<and> tables wT TRANSACTIONS_COLLECTION = tables w TRANSACTIONS_COLLECTION @ (t1 # pays)
     \<and> tables wT USERS_COLLECTION
          = update_rows (JStr uid)
              (json_row (AList.update ''orderCounter''
                 (js_add w (js_or (of_number (to_number w (get_prop u ''orderCounter''))) (JNum 0)) (JNum 1)) u))
              (tables w USERS_COLLECTION)
     \<and> col orow ''id'' = JStr (rnd w k) \<and> col orow ''userId'' = JStr uid
     \<and> col orow ''sellingPriceLYD'' = JNum s \<and> col orow ''downPaymentLYD'' = JNum d
     \<and> col orow ''remainingAmount'' = JNum (s - d)
     \<and> col t1 ''id'' = JStr (rnd w (Suc k)) \<and> col t1 ''orderId'' = JStr (rnd w k)
     \<and> col t1 ''type'' = JStr ''order'' \<and> col t1 ''amount'' = JNum s
     \<and> length pays = (if 0 < d then 1 else 0)
     \<and> list_all (\<lambda>t2. col t2 ''id'' = JStr (rnd w (Suc (Suc k))) \<and> col t2 ''orderId'' = JStr (rnd w k)
                     \<and> col t2 ''type'' = JStr ''payment'' \<and> col t2 ''amount'' = JNum d) pays"
proof -
  obtain st w2 where st: "getAppSettings w = (Inr st, w2)" and nf2: "no_faults w2"
    and tab2: "\<forall>c. c \<noteq> SETTINGS_COLLECTION \<longrightarrow> tables w2 c = tables w c"
    and env2: "rnd w2 = rnd w" "str_of w2 = str_of w" "num_of w2 = num_of w"
    using getAppSettings_ok [of w] nf by auto
  have tabs: "tables w2 USERS_COLLECTION = tables w USERS_COLLECTION"
    "tables w2 ORDERS_COLLECTION = tables w ORDERS_COLLECTION"
    "tables w2 TRANSACTIONS_COLLECTION = tables w TRANSACTIONS_COLLECTION"
    using tab2 by simp_all
  have ops2: "js_add w2 = js_add w" "to_number w2 = to_number w"
    using env2 by (auto simp: fun_eq_iff js_ops_host(1) [of w2 w] to_number_cong [of w2 w])
  have m: "map_of od ''userId'' = Some (JStr uid)" "map_of od ''sellingPriceLYD'' = Some (JNum s)"
    "map_of od ''downPaymentLYD'' = Some (JNum d)"
    using uid sp dp by (auto simp: get_prop_def split: option.splits)
  show ?thesis
  proof (cases "truthy (get_prop od ''trackingId'')")
    case True
    then have k0: "k = 0" using k by (simp add: id_offset_def)
    show ?thesis
      using nf uid user sp dp True nf2 env2 tabs fresh m
      unfolding k0
      by (simp add: runTransaction_def the_transaction_def addOrder_transaction_def
        bnd_def ret_def host_def doc_ok doc_get_ok st detached_def doc_auto_run doc_set_ok
        get_prop_spread increment_update_ok col_json_row_id upsert_rows_fresh ops2
        col_json_row map_of_spread)
  next
    case False
    then have k1: "k = Suc 0" using k by (simp add: id_offset_def)
    show ?thesis
      using nf uid user sp dp False nf2 env2 tabs fresh m
      unfolding k1
      by (simp add: runTransaction_def the_transaction_def addOrder_transaction_def
        bnd_def ret_def host_def doc_ok doc_get_ok st detached_def doc_auto_run doc_set_ok
        get_prop_spread increment_update_ok col_json_row_id upsert_rows_fresh ops2
        col_json_row map_of_spread random_id_def)
  qed
qed


lemma filter_fresh: "\<not> list_ex P xs \<Longrightarrow> filter P xs = []"
  by (induction xs) auto

lemma col_eq_map_of: "col r k = v \<Longrightarrow> v \<noteq> JNull \<Longrightarrow> map_of r k = Some v"
  by (auto simp: col_def split: option.splits)

lemma recalculate_ok:
  assumes "no_faults w" "truthy i"
  shows "\<exists>d n. recalculateUserStats i w =
     (Inr (), put_table USERS_COLLECTION
        (map (\<lambda>r. if has_id i r then spread r (json_row (stats_payload d n)) else r)
           (tables w USERS_COLLECTION)) w)"
proof -
  obtain d n where "recalculateUserStats i w =
     (if \<not> truthy i then (Inl (Error ''Invalid doc usage''), w)
      else if failing (tick (tick w)) then (Inl StoreError, tick (tick (tick w)))
      else (Inr (), tick (put_table USERS_COLLECTION
              (map (\<lambda>r. if has_id i r then spread r (json_row (stats_payload d n)) else r)
                 (tables w USERS_COLLECTION)) (tick (tick w)))))"
    using recalculate_shape by blast
  then show ?thesis using assms by (auto simp: not_failing)
qed

lemma addOrder_run:
  assumes nf: "no_faults w"
    and uid: "get_prop od ''userId'' = JStr uid" "uid \<noteq> []"
    and user: "filter (has_id (JStr uid)) (tables w USERS_COLLECTION) = [u]"
    and cnt: "get_prop u ''orderCounter'' = JUndef \<or> get_prop u ''orderCounter'' = JNull
              \<or> (\<exists>x. get_prop u ''orderCounter'' = JNum x)"
    and sp: "get_prop od ''sellingPriceLYD'' = JNum s"
    and dp: "get_prop od ''downPaymentLYD'' = JNum d"
    and k: "k = id_offset od"
    and fresh: "\<not> list_ex (has_id (JStr (rnd w k))) (tables w ORDERS_COLLECTION)"
      "\<not> list_ex (has_id (JStr (rnd w (Suc k)))) (tables w TRANSACTIONS_COLLECTION)"
      "\<not> list_ex (has_id (JStr (rnd w (Suc (Suc k))))) (tables w TRANSACTIONS_COLLECTION)"
      "rnd w (Suc k) \<noteq> rnd w (Suc (Suc k))"
  shows "\<exists>order orow t1 pays.
     fst (addOrder od w) = Inr (Some order)
     \<and> col order ''id'' = JStr (rnd w k) \<and> col order ''remainingAmount'' = JNum (s - d)
     \<and> tables (snd (addOrder od w)) ORDERS_COLLECTION = tables w ORDERS_COLLECTION @ [orow]
     \<and> tables (snd (addOrder od w)) TRANSACTIONS_COLLECTION
          = tables w TRANSACTIONS_COLLECTION @ (t1 # pays)
     \<and> list_all2 (\<lambda>r r'. if has_id (JStr uid) r
                           then col r' ''orderCounter''
                                  = JNum (numeric_or0 (get_prop r ''orderCounter'') + 1)
                           else r' = r)
          (tables w USERS_COLLECTION) (tables (snd (addOrder od w)) USERS_COLLECTION)
     \<and> col orow ''id'' = JStr (rnd w k) \<and> col orow ''userId'' = JStr uid
     \<and> col orow ''sellingPriceLYD'' = JNum s \<and> col orow ''downPaymentLYD'' = JNum d
     \<and> col orow ''remainingAmount'' = JNum (s - d)
     \<and> col t1 ''id'' = JStr (rnd w (Suc k)) \<and> col t1 ''orderId'' = JStr (rnd w k)
     \<and> col t1 ''type'' = JStr ''order'' \<and> col t1 ''amount'' = JNum s
     \<and> length pays = (if 0 < d then 1 else 0)
     \<and> list_all (\<lambda>t2. col t2 ''id'' = JStr (rnd w (Suc (Suc k))) \<and> col t2 ''orderId'' = JStr (rnd w k)
                     \<and> col t2 ''type'' = JStr ''payment'' \<and> col t2 ''amount'' = JNum d) pays"
proof -
  let ?oid = "JStr (rnd w k)"
  let ?P = "json_row (AList.update ''orderCounter''
                 (js_add w (js_or (of_number (to_number w (get_prop u ''orderCounter''))) (JNum 0)) (JNum 1)) u)"
  obtain wT orow t1 pays where
        run: "runTransaction (addOrder_transaction od) w = (Inr (ORDERS_COLLECTION, ?oid), wT)"
    and nfT: "no_faults wT"
    and ordersT: "tables wT ORDERS_COLLECTION = tables w ORDERS_COLLECTION @ [orow]"
    and txT: "tables wT TRANSACTIONS_COLLECTION = tables w TRANSACTIONS_COLLECTION @ (t1 # pays)"
    and usersT: "tables wT USERS_COLLECTION = update_rows (JStr uid) ?P (tables w USERS_COLLECTION)"
    and orow: "col orow ''id'' = ?oid" "col orow ''userId'' = JStr uid"
      "col orow ''sellingPriceLYD'' = JNum s" "col orow ''downPaymentLYD'' = JNum d"
      "col orow ''remainingAmount'' = JNum (s - d)"
    and t1: "col t1 ''id'' = JStr (rnd w (Suc k))" "col t1 ''orderId'' = ?oid"
      "col t1 ''type'' = JStr ''order''" "col t1 ''amount'' = JNum s"
    and pays: "length pays = (if 0 < d then 1 else 0)"
      "list_all (\<lambda>t2. col t2 ''id'' = JStr (rnd w (Suc (Suc k))) \<and> col t2 ''orderId'' = ?oid
                     \<and> col t2 ''type'' = JStr ''payment'' \<and> col t2 ''amount'' = JNum d) pays"
    using addOrder_transaction_run [OF nf uid user sp dp k fresh] by blast
  have found: "filter (has_id ?oid) (tables wT ORDERS_COLLECTION) = [orow]"
    using fresh(1) orow(1) by (simp add: ordersT filter_fresh has_id_def)
  have get: "doc_get (ORDERS_COLLECTION, ?oid) wT = (Inr (Some orow), wT)"
    using nfT found by (simp add: doc_get_ok)
  let ?order = "spread [(''id'', ?oid)] orow"
  have owner: "get_prop ?order ''userId'' = JStr uid"
    using col_eq_map_of [OF orow(2)] by (simp add: get_prop_spread)
  obtain dd nn where rec: "recalculateUserStats (JStr uid) wT =
     (Inr (), put_table USERS_COLLECTION
        (map (\<lambda>r. if has_id (JStr uid) r then spread r (json_row (stats_payload dd nn)) else r)
           (tables wT USERS_COLLECTION)) wT)"
    using recalculate_ok [OF nfT, of "JStr uid"] uid(2) by auto
  let ?wF = "put_table USERS_COLLECTION
        (map (\<lambda>r. if has_id (JStr uid) r then spread r (json_row (stats_payload dd nn)) else r)
           (tables wT USERS_COLLECTION)) wT"
  have all: "addOrder od w = (Inr (Some ?order), ?wF)"
    by (simp add: addOrder_def try_catch_def bnd_def ret_def run getDoc_def get owner rec)
  have ord_cols: "col ?order ''id'' = ?oid" "col ?order ''remainingAmount'' = JNum (s - d)"
    using col_eq_map_of [OF orow(1)] col_eq_map_of [OF orow(5)]
    by (simp_all add: col_def map_of_spread)
  have counter: "col (spread u ?P) ''orderCounter'' = JNum (numeric_or0 (get_prop u ''orderCounter'') + 1)"
    using cnt by (simp add: col_spread_json update_conv' incremented_value)
  have uid_u: "has_id (JStr uid) u" using filter_eq_ConsD [OF user] by auto
  have "map_of u ''id'' = Some (JStr uid)"
    using uid_u by (intro col_eq_map_of) (simp_all add: has_id_def)
  then have keeps_id: "has_id (JStr uid) (spread u ?P)"
    by (simp add: has_id_def col_spread_json update_conv')
  have users: "list_all2 (\<lambda>r r'. if has_id (JStr uid) r
                           then col r' ''orderCounter''
                                  = JNum (numeric_or0 (get_prop r ''orderCounter'') + 1)
                           else r' = r)
          (tables w USERS_COLLECTION) (tables ?wF USERS_COLLECTION)"
  proof -
    let ?inc = "\<lambda>r. if has_id (JStr uid) r then spread r ?P else r"
    let ?stamp = "\<lambda>r. if has_id (JStr uid) r then spread r (json_row (stats_payload dd nn)) else r"
    have tabF: "tables ?wF USERS_COLLECTION = map (\<lambda>r. ?stamp (?inc r)) (tables w USERS_COLLECTION)"
      by (simp add: usersT update_rows_def)
    have each: "if has_id (JStr uid) r
        then col (?stamp (?inc r)) ''orderCounter''
               = JNum (numeric_or0 (get_prop r ''orderCounter'') + 1)
        else ?stamp (?inc r) = r"
      if "r \<in> set (tables w USERS_COLLECTION)" for r
    proof (cases "has_id (JStr uid) r")
      case True
      then have "r = u" using filter_single [OF user that] by simp
      then show ?thesis using True keeps_id counter by (simp add: col_stats_frame)
    next
      case False
      then show ?thesis by simp
    qed
    have "\<forall>r\<in>set (tables w USERS_COLLECTION).
            if has_id (JStr uid) r
            then col (?stamp (?inc r)) ''orderCounter''
                   = JNum (numeric_or0 (get_prop r ''orderCounter'') + 1)
            else ?stamp (?inc r) = r"
      using each by blast
    then show ?thesis
      unfolding tabF list_all2_map2 list_all2_same .
  qed
  show ?thesis
    using all ord_cols ordersT txT users orow t1 pays
    by (intro exI [of _ ?order] exI [of _ orow] exI [of _ t1] exI [of _ pays]) simp
qed

text \<open>
  C4. On a store that answers every request, for order data with a numeric selling price
  \<open>s\<close> and down payment \<open>d\<close> whose user exists (one row, with a numeric or empty
  \<open>orderCounter\<close>), the random identifiers being fresh: \<open>addOrder\<close> returns the order, with
  \<open>remainingAmount = s - d\<close>; the orders table gains exactly that row; the ledger gains an
  \<open>order\<close> row of amount \<open>s\<close> followed by a \<open>payment\<close> row of amount \<open>d\<close> exactly when
  \<open>d > 0\<close>, both for the new order; the user's \<open>orderCounter\<close> is one more than before and
  the rows of other users are unchanged.
\<close>

theorem addOrder_creates_order:
  assumes nf: "no_faults w"
    and uid: "get_prop od ''userId'' = JStr uid" "uid \<noteq> []"
    and user: "filter (has_id (JStr uid)) (tables w USERS_COLLECTION) = [u]"
    and cnt: "get_prop u ''orderCounter'' = JUndef \<or> get_prop u ''orderCounter'' = JNull
              \<or> (\<exists>x. get_prop u ''orderCounter'' = JNum x)"
    and sp: "get_prop od ''sellingPriceLYD'' = JNum s"
    and dp: "get_prop od ''downPaymentLYD'' = JNum d"
    and k: "k = id_offset od"
    and fresh: "\<not> list_ex (has_id (JStr (rnd w k))) (tables w ORDERS_COLLECTION)"
      "\<not> list_ex (has_id (JStr (rnd w (Suc k)))) (tables w TRANSACTIONS_COLLECTION)"
      "\<not> list_ex (has_id (JStr (rnd w (Suc (Suc k))))) (tables w TRANSACTIONS_COLLECTION)"
      "rnd w (Suc k) \<noteq> rnd w (Suc (Suc k))"
  shows "\<exists>order orow t1 pays.
     fst (addOrder od w) = Inr (Some order)
     \<and> col order ''id'' = JStr (rnd w k) \<and> col order ''remainingAmount'' = JNum (s - d)
     \<and> tables (snd (addOrder od w)) ORDERS_COLLECTION = tables w ORDERS_COLLECTION @ [orow]
     \<and> col orow ''id'' = JStr (rnd w k) \<and> col orow ''userId'' = JStr uid
     \<and> col orow ''sellingPriceLYD'' = JNum s \<and> col orow ''downPaymentLYD'' = JNum d
     \<and> col orow ''remainingAmount'' = JNum (s - d)
     \<and> tables (snd (addOrder od w)) TRANSACTIONS_COLLECTION
          = tables w TRANSACTIONS_COLLECTION @ (t1 # pays)
     \<and> col t1 ''orderId'' = JStr (rnd w k) \<and> col t1 ''type'' = JStr ''order''
     \<and> col t1 ''amount'' = JNum s
     \<and> length pays = (if 0 < d then 1 else 0)
     \<and> list_all (\<lambda>t2. col t2 ''orderId'' = JStr (rnd w k) \<and> col t2 ''type'' = JStr ''payment''
                     \<and> col t2 ''amount'' = JNum d) pays
     \<and> list_all2 (\<lambda>r r'. if has_id (JStr uid) r
                           then col r' ''orderCounter''
                                  = JNum (numeric_or0 (get_prop r ''orderCounter'') + 1)
                           else r' = r)
          (tables w USERS_COLLECTION) (tables (snd (addOrder od w)) USERS_COLLECTION)"
proof -
  obtain order orow t1 pays where
    "fst (addOrder od w) = Inr (Some order)"
    "col order ''id'' = JStr (rnd w k)" "col order ''remainingAmount'' = JNum (s - d)"
    "tables (snd (addOrder od w)) ORDERS_COLLECTION = tables w ORDERS_COLLECTION @ [orow]"
    "tables (snd (addOrder od w)) TRANSACTIONS_COLLECTION
          = tables w TRANSACTIONS_COLLECTION @ (t1 # pays)"
    "list_all2 (\<lambda>r r'. if has_id (JStr uid) r
                           then col r' ''orderCounter''
                                  = JNum (numeric_or0 (get_prop r ''orderCounter'') + 1)
                           else r' = r)
          (tables w USERS_COLLECTION) (tables (snd (addOrder od w)) USERS_COLLECTION)"
    "col orow ''id'' = JStr (rnd w k)" "col orow ''userId'' = JStr uid"
    "col orow ''sellingPriceLYD'' = JNum s" "col orow ''downPaymentLYD'' = JNum d"
    "col orow ''remainingAmount'' = JNum (s - d)"
    "col t1 ''orderId'' = JStr (rnd w k)"
    "col t1 ''type'' = JStr ''order''" "col t1 ''amount'' = JNum s"
    "length pays = (if 0 < d then 1 else 0)"
    "list_all (\<lambda>t2. col t2 ''id'' = JStr (rnd w (Suc (Suc k))) \<and> col t2 ''orderId'' = JStr (rnd w k)
                     \<and> col t2 ''type'' = JStr ''payment'' \<and> col t2 ''amount'' = JNum d) pays"
    using addOrder_run [OF nf uid user cnt sp dp k fresh] by blast
  then show ?thesis
    by (intro exI [of _ order] exI [of _ orow] exI [of _ t1] exI [of _ pays])
       (simp add: list_all_iff)
qed

lemma new_order_facts:
  "no_faults w_shop"
  "get_prop new_order ''userId'' = JStr ''u1''"
  "filter (has_id (JStr ''u1'')) (tables w_shop USERS_COLLECTION)
     = [[(''id'', JStr ''u1''), (''username'', JStr ''amal''), (''debt'', JNum 0),
         (''orderCount'', JNum 0), (''orderCounter'', JNum 3)]]"
  "get_prop new_order ''sellingPriceLYD'' = JNum 1000"
  "get_prop new_order ''downPaymentLYD'' = JNum 200"
  "id_offset new_order = 0"
  "\<not> list_ex (has_id (JStr (rnd w_shop 0))) (tables w_shop ORDERS_COLLECTION)"
  "\<not> list_ex (has_id (JStr (rnd w_shop (Suc 0)))) (tables w_shop TRANSACTIONS_COLLECTION)"
  "\<not> list_ex (has_id (JStr (rnd w_shop (Suc (Suc 0))))) (tables w_shop TRANSACTIONS_COLLECTION)"
  "rnd w_shop (Suc 0) \<noteq> rnd w_shop (Suc (Suc 0))"
  "tables w_shop TRANSACTIONS_COLLECTION = []"
  by (simp_all add: w_shop_tables new_order_def get_prop_def id_offset_def has_id_def col_def
        w_shop_def w0_def put_table_def collection_names no_faults_def)

text \<open>Selling price 1000 and down payment 200: remaining amount 800, two ledger rows of
  amounts 1000 and 200, order counter 3 becomes 4.\<close>

theorem addOrder_creates_order_witness:
  "\<exists>order. fst (addOrder new_order w_shop) = Inr (Some order)
       \<and> col order ''remainingAmount'' = JNum 800
       \<and> map (\<lambda>t. (col t ''type'', col t ''amount''))
            (tables (snd (addOrder new_order w_shop)) TRANSACTIONS_COLLECTION)
          = [(JStr ''order'', JNum 1000), (JStr ''payment'', JNum 200)]
       \<and> map (\<lambda>r. col r ''orderCounter'')
            (tables (snd (addOrder new_order w_shop)) USERS_COLLECTION) = [JNum 4]"
proof -
  have cnt: "get_prop [(''id'', JStr ''u1''), (''username'', JStr ''amal''), (''debt'', JNum 0),
         (''orderCount'', JNum 0), (''orderCounter'', JNum 3)] ''orderCounter'' = JUndef
     \<or> get_prop [(''id'', JStr ''u1''), (''username'', JStr ''amal''), (''debt'', JNum 0),
         (''orderCount'', JNum 0), (''orderCounter'', JNum 3)] ''orderCounter'' = JNull
     \<or> (\<exists>x. get_prop [(''id'', JStr ''u1''), (''username'', JStr ''amal''), (''debt'', JNum 0),
         (''orderCount'', JNum 0), (''orderCounter'', JNum 3)] ''orderCounter'' = JNum x)"
    by (simp add: get_prop_def)
  obtain order t1 pays where
    r: "fst (addOrder new_order w_shop) = Inr (Some order)"
      "col order ''remainingAmount'' = JNum (1000 - 200)"
      "tables (snd (addOrder new_order w_shop)) TRANSACTIONS_COLLECTION
          = tables w_shop TRANSACTIONS_COLLECTION @ (t1 # pays)"
      "col t1 ''type'' = JStr ''order''" "col t1 ''amount'' = JNum 1000"
      "length pays = (if (0::rat) < 200 then 1 else 0)"
      "list_all (\<lambda>t2. col t2 ''orderId'' = JStr (rnd w_shop 0) \<and> col t2 ''type'' = JStr ''payment''
                     \<and> col t2 ''amount'' = JNum 200) pays"
      "list_all2 (\<lambda>r r'. if has_id (JStr ''u1'') r
                           then col r' ''orderCounter''
                                  = JNum (numeric_or0 (get_prop r ''orderCounter'') + 1)
                           else r' = r)
          (tables w_shop USERS_COLLECTION) (tables (snd (addOrder new_order w_shop)) USERS_COLLECTION)"
    using addOrder_creates_order [OF new_order_facts(1) new_order_facts(2) _ new_order_facts(3) cnt
        new_order_facts(4) new_order_facts(5) new_order_facts(6) [symmetric]
        new_order_facts(7) new_order_facts(8) new_order_facts(9) new_order_facts(10)]
    by auto
  obtain t2 where pays: "pays = [t2]"
    using r(6) by (cases pays) auto
  obtain u' where users: "tables (snd (addOrder new_order w_shop)) USERS_COLLECTION = [u']"
    and cnt': "col u' ''orderCounter'' = JNum 4"
    using r(8)
    by (auto simp: w_shop_tables list_all2_Cons1 has_id_def col_def get_prop_def numeric_or0_def)
  show ?thesis
    using r pays users cnt' by (simp add: new_order_facts)
qed

section \<open>The remaining amount of an order\<close>

text \<open>Every whole amount is a number of the host: an integer of fewer than 54 bits times a
  power of two. The host rounds the exact result of a sum, a difference or a product to
  the nearest of its numbers, which is the exact result itself when that is one of them.\<close>

lemma whole_is_representable:
  assumes "whole x"
  shows "\<exists>(m::int) (e::nat). \<bar>m\<bar> < 2 ^ 53 \<and> x = of_int m * 2 ^ e"
proof -
  define k where "k = \<lfloor>x\<rfloor>"
  have x: "x = of_int k"
    using assms unfolding whole_def k_def by (elim conjE) (rule sym)
  have bound: "\<bar>x\<bar> \<le> 2 ^ 53"
    using assms unfolding whole_def by (elim conjE)
  have "(of_int \<bar>k\<bar> :: rat) \<le> of_int (2 ^ 53)"
    using bound unfolding x by (simp only: of_int_abs of_int_power of_int_numeral)
  then have kb: "\<bar>k\<bar> \<le> 2 ^ 53" by (simp only: of_int_le_iff)
  show ?thesis
  proof (cases "\<bar>k\<bar> < 2 ^ 53")
    case True
    have "x = of_int k * 2 ^ 0" using x by simp
    then show ?thesis using True by blast
  next
    case False
    then have top: "\<bar>k\<bar> = 2 ^ 53" using kb by linarith
    have half: "(2::int) ^ 53 = 2 ^ 52 * 2" by (simp only: power_Suc2 [symmetric]) simp
    have small: "\<bar>(2::int) ^ 52\<bar> < 2 ^ 53" "\<bar>- ((2::int) ^ 52)\<bar> < 2 ^ 53"
      unfolding half by simp_all
    from top have "k = 2 ^ 52 * 2 \<or> k = - (2 ^ 52) * 2"
      unfolding half by (cases "0 \<le> k") simp_all
    then show ?thesis
    proof
      assume "k = 2 ^ 52 * 2"
      then have "x = of_int (2 ^ 52) * 2 ^ 1" using x by simp
      then show ?thesis using small(1) by blast
    next
      assume "k = - (2 ^ 52) * 2"
      then have "x = of_int (- (2 ^ 52)) * 2 ^ 1" using x by simp
      then show ?thesis using small(2) by blast
    qed
  qed
qed

lemma recalculate_keeps:
  "c \<noteq> USERS_COLLECTION \<Longrightarrow> tables (snd (recalculateUserStats i w)) c = tables w c"
  using recalculate_frame [of i w] by blast

lemma recalc_order_user_keeps:
  "c \<noteq> USERS_COLLECTION \<Longrightarrow> tables (snd (recalc_order_user ref w)) c = tables w c"
  using recalculate_keeps [of c _ "tick w"]
  by (simp add: recalc_order_user_def bnd_def getDoc_def doc_get_shape ret_def split: option.splits)

lemma recalc_customer_keeps:
  "c \<noteq> USERS_COLLECTION \<Longrightarrow> tables (snd (recalc_customer i w)) c = tables w c"
  using recalculate_keeps [of c i w]
  by (simp add: recalc_customer_def ret_def throw_def split: sum.splits)

lemma tail_keeps:
  assumes "\<And>x w'. tables (snd (tail x w')) c = tables w' c"
  shows "tables (snd (try_catch (bnd m (\<lambda>x. bnd (tail x) (\<lambda>u. ret y))) (\<lambda>error. ret z) w)) c
           = tables (snd (m w)) c"
proof (cases "m w")
  case (Pair res w1)
  show ?thesis
  proof (cases res)
    case (Inl e)
    then show ?thesis using Pair by (simp add: try_catch_def bnd_def ret_def)
  next
    case (Inr x)
    obtain res2 w2 where t: "tail x w1 = (res2, w2)" by (cases "tail x w1")
    have "tables w2 c = tables w1 c" using assms [of x w1] t by simp
    then show ?thesis using Pair Inr t
      by (cases res2) (simp_all add: try_catch_def bnd_def ret_def)
  qed
qed

lemma filter_map_single:
  "filter P xs = [r] \<Longrightarrow> P r' \<Longrightarrow> filter P (map (\<lambda>x. if P x then r' else x) xs) = [r']"
proof (induction xs)
  case Nil
  then show ?case by simp
next
  case (Cons a xs)
  show ?case
  proof (cases "P a")
    case True
    then have "filter P xs = []" using Cons.prems(1) by simp
    then have "filter P (map (\<lambda>x. if P x then r' else x) xs) = []"
      by (auto simp: filter_empty_conv)
    then show ?thesis using True Cons.prems(2) by simp
  next
    case False
    then show ?thesis using Cons by simp
  qed
qed

lemma num_or_null:
  "v = JNull \<or> is_num v \<Longrightarrow> js_or v (JNum 0) = JNum (numeric_or0 v)"
  by (auto simp: is_num_def js_or_def numeric_or0_def split: jval.splits)

lemma is_num_iff: "is_num v \<longleftrightarrow> (\<exists>x. v = JNum x)"
  by (auto simp: is_num_def split: jval.splits)

lemma arith_simps [simp]:
  "arith f (tick w) a b = arith f w a b" "arith f (put_table c rs w) a b = arith f w a b"
  "arith f (advance w) a b = arith f w a b"
  by (rule arith_host; simp)+

lemma weight_payload_plain:
  "\<not> hasSpecialOps [(''sellingPriceLYD'', JNum a), (''remainingAmount'', JNum b),
      (''weightKG'', JNum c), (''companyPricePerKiloUSD'', JNum d), (''customerPricePerKilo'', JNum e),
      (''customerWeightCost'', JNum f), (''companyWeightCostUSD'', JNum g)]"
  "\<not> hasDotNotation [(''sellingPriceLYD'', JNum a), (''remainingAmount'', JNum b),
      (''weightKG'', JNum c), (''companyPricePerKiloUSD'', JNum d), (''customerPricePerKilo'', JNum e),
      (''customerWeightCost'', JNum f), (''companyWeightCostUSD'', JNum g)]"
  by (simp_all add: hasSpecialOps_def hasDotNotation_def)

lemma setCustomerWeightDetails_transaction_run:
  assumes nf: "no_faults w"
    and row: "filter (has_id o') (tables w ORDERS_COLLECTION) = [r]"
    and sp: "col r ''sellingPriceLYD'' = JNum s"
    and rem: "col r ''remainingAmount'' = JNum m"
    and old: "col r ''customerWeightCost'' = JNull \<or> is_num (col r ''customerWeightCost'')"
    and fresh: "\<not> list_ex (has_id (JStr (rnd w 0))) (tables w TRANSACTIONS_COLLECTION)"
    and cd: "cd = weight * pp - numeric_or0 (col r ''customerWeightCost'')"
  shows "\<exists>wT r' extra.
      runTransaction (setCustomerWeightDetails_transaction o' (ORDERS_COLLECTION, o') weight cp pp) w
        = (Inr (), wT)
    \<and> tables wT ORDERS_COLLECTION = map (\<lambda>x. if has_id o' x then r' else x) (tables w ORDERS_COLLECTION)
    \<and> has_id o' r'
    \<and> col r' ''sellingPriceLYD'' = JNum (s + cd) \<and> col r' ''remainingAmount'' = JNum (m + cd)
    \<and> tables wT TRANSACTIONS_COLLECTION = tables w TRANSACTIONS_COLLECTION @ extra
    \<and> list_all (\<lambda>t. col t ''type'' = JStr ''order'') extra"
proof -
  have idr: "has_id o' r" using filter_eq_ConsD [OF row] by auto
  have e: "weight * pp - numeric_or0 (col r ''customerWeightCost'') = cd" using cd by simp
  let ?changes = "[(''sellingPriceLYD'', JNum (s + cd)), (''remainingAmount'', JNum (m + cd)),
      (''weightKG'', JNum weight), (''companyPricePerKiloUSD'', JNum cp),
      (''customerPricePerKilo'', JNum pp), (''customerWeightCost'', JNum (weight * pp)),
      (''companyWeightCostUSD'', JNum (weight * cp))]"
  let ?r' = "spread r (json_row ?changes)"
  have id': "has_id o' ?r'"
    using idr by (simp add: has_id_def col_spread_json)
  have cols: "col ?r' ''sellingPriceLYD'' = JNum (s + cd)" "col ?r' ''remainingAmount'' = JNum (m + cd)"
    by (simp_all add: col_spread_json)
  have rows: "update_rows o' (json_row ?changes) (tables w ORDERS_COLLECTION)
        = map (\<lambda>x. if has_id o' x then ?r' else x) (tables w ORDERS_COLLECTION)"
    unfolding update_rows_def by (rule map_if_single [OF row])
  show ?thesis
  proof (cases "cd = 0")
    case True
    show ?thesis
      using nf row sp rem e True id' cols rows
      by (intro exI [of _ "put_table ORDERS_COLLECTION
              (map (\<lambda>x. if has_id o' x then ?r' else x) (tables w ORDERS_COLLECTION)) w"]
            exI [of _ ?r'] exI [of _ "[]"])
         (simp add: runTransaction_def the_transaction_def setCustomerWeightDetails_transaction_def
            bnd_def ret_def host_def doc_get_ok detached_def num_or_null [OF old]
            plain_update_rows weight_payload_plain)
  next
    case False
    show ?thesis
      using nf row sp rem e False id' cols rows fresh
      by (intro exI [of _ "snd (runTransaction
              (setCustomerWeightDetails_transaction o' (ORDERS_COLLECTION, o') weight cp pp) w)"]
            exI [of _ ?r']
            exI [of _ "[json_row (spread
               [(''orderId'', o'), (''customerId'', col r ''userId''),
                (''customerName'', col r ''customerName''), (''date'', JStr (now w)),
                (''type'', JStr ''order''), (''status'', JStr ''completed''),
                (''amount'', JNum cd),
                (''description'', JStr (msg_weight_changed @ str_of w (JNum weight)
                            @ msg_weight_previous
                            @ fixed2 w (to_number w
                                (arith (/) w (JNum (numeric_or0 (col r ''customerWeightCost'')))
                                   (js_or (JNum pp) (JNum 1))))))]
               [(''id'', JStr (rnd w 0))])]"])
         (simp add: runTransaction_def the_transaction_def setCustomerWeightDetails_transaction_def
            bnd_def ret_def host_def doc_get_ok detached_def num_or_null [OF old]
            plain_update_rows weight_payload_plain doc_auto_run doc_set_ok upsert_rows_fresh
            col_json_row_id col_json_row map_of_spread)
  qed
qed

lemma balancedD:
  assumes "balanced w o'"
  shows "\<exists>r s m. filter (has_id o') (tables w ORDERS_COLLECTION) = [r]
           \<and> col r ''sellingPriceLYD'' = JNum s \<and> col r ''remainingAmount'' = JNum m
           \<and> whole s \<and> whole m \<and> s - paid w o' = m"
proof -
  obtain r where r: "order_rows w o' = [r]"
    using assms by (cases "order_rows w o'") (auto simp: balanced_def)
  then obtain s m where "col r ''sellingPriceLYD'' = JNum s" "col r ''remainingAmount'' = JNum m"
    using assms by (auto simp: balanced_def ledger_equation_def is_num_iff)
  then show ?thesis
    using assms r by (auto simp: balanced_def ledger_equation_def order_rows_def numeric_or0_def)
qed

lemma balancedI:
  assumes "filter (has_id o') (tables w ORDERS_COLLECTION) = [r]"
    and "col r ''sellingPriceLYD'' = JNum s" "col r ''remainingAmount'' = JNum m"
    and "whole s" "whole m"
    and "s - paid w o' = m"
  shows "balanced w o'"
  using assms
  by (simp add: balanced_def ledger_equation_def order_rows_def is_num_def numeric_or0_def)

lemma balanced_step:
  assumes "filter (has_id o') (tables w ORDERS_COLLECTION) = [r]"
    and "tables w' ORDERS_COLLECTION = map (\<lambda>y. if has_id o' y then r' else y) (tables w ORDERS_COLLECTION)"
    and "has_id o' r'"
    and "col r' ''sellingPriceLYD'' = JNum s'" "col r' ''remainingAmount'' = JNum m'"
    and "whole s'" "whole m'"
    and "s' - paid w' o' = m'"
  shows "balanced w' o'"
proof -
  have "filter (has_id o') (tables w' ORDERS_COLLECTION) = [r']"
    unfolding assms(2) by (rule filter_map_single [OF assms(1,3)])
  then show ?thesis using assms(4-8) by (rule balancedI)
qed

lemma payments_of_append:
  "tables w' TRANSACTIONS_COLLECTION = tables w TRANSACTIONS_COLLECTION @ extra \<Longrightarrow>
   payments_of w' o' = payments_of w o'
       @ filter (\<lambda>t. col t ''orderId'' = o' \<and> col t ''type'' = JStr ''payment'') extra"
  by (simp add: payments_of_def)

lemma paid_append_orders:
  assumes "tables w' TRANSACTIONS_COLLECTION = tables w TRANSACTIONS_COLLECTION @ extra"
    and "list_all (\<lambda>t. col t ''type'' = JStr ''order'') extra"
  shows "paid w' o' = paid w o'"
proof -
  have "filter (\<lambda>t. col t ''orderId'' = o' \<and> col t ''type'' = JStr ''payment'') extra = []"
    using assms(2) by (auto simp: filter_empty_conv list_all_iff)
  then show ?thesis using payments_of_append [OF assms(1), of o'] by (simp add: paid_def)
qed

lemma setCustomerWeightDetails_tables:
  assumes "\<not> weight < 0" "truthy o'" "c \<noteq> USERS_COLLECTION"
  shows "tables (snd (setCustomerWeightDetails o' weight cp pp w)) c
       = tables (snd (runTransaction
            (setCustomerWeightDetails_transaction o' (ORDERS_COLLECTION, o') weight cp pp) w)) c"
proof -
  have "setCustomerWeightDetails o' weight cp pp w
      = try_catch (bnd (runTransaction
            (setCustomerWeightDetails_transaction o' (ORDERS_COLLECTION, o') weight cp pp))
          (\<lambda>u. bnd (recalc_order_user (ORDERS_COLLECTION, o')) (\<lambda>u'. ret True)))
          (\<lambda>error. ret False) w"
    using assms(1,2) by (simp add: setCustomerWeightDetails_def bnd_def doc_ok)
  then show ?thesis
    using tail_keeps [of "\<lambda>u. recalc_order_user (ORDERS_COLLECTION, o')" c _ True False w]
      recalc_order_user_keeps [OF assms(3)]
    by simp
qed

lemma balanced_row:
  assumes "balanced w o'" "order_rows w o' = [r]"
    and "col r ''sellingPriceLYD'' = JNum s" "col r ''remainingAmount'' = JNum m"
  shows "filter (has_id o') (tables w ORDERS_COLLECTION) = [r]" "whole s" "whole m"
    "s - paid w o' = m"
  using assms
  by (simp_all add: balanced_def ledger_equation_def order_rows_def numeric_or0_def)

lemma weight_keeps_balance:
  assumes nf: "no_faults w" and o: "truthy o'"
    and bal: "balanced w o'" and r: "order_rows w o' = [r]"
    and sp: "col r ''sellingPriceLYD'' = JNum s" and rem: "col r ''remainingAmount'' = JNum m"
    and old: "0 \<le> weight \<Longrightarrow>
                col r ''customerWeightCost'' = JNull \<or> is_num (col r ''customerWeightCost'')"
    and fresh: "0 \<le> weight \<Longrightarrow>
                \<not> list_ex (has_id (JStr (rnd w 0))) (tables w TRANSACTIONS_COLLECTION)"
    and exact: "0 \<le> weight \<Longrightarrow> whole (s + weight_difference r weight pp)"
      "0 \<le> weight \<Longrightarrow> whole (m + weight_difference r weight pp)"
  shows "balanced (snd (setCustomerWeightDetails o' weight cp pp w)) o'"
proof (cases "weight < 0")
  case True
  then show ?thesis using bal by (simp add: setCustomerWeightDetails_def ret_def)
next
  case False
  then have weight: "0 \<le> weight" by simp
  note row = balanced_row(1) [OF bal r sp rem] and eq = balanced_row(4) [OF bal r sp rem]
  define cd where "cd = weight * pp - numeric_or0 (col r ''customerWeightCost'')"
  have cd: "weight_difference r weight pp = cd" by (simp add: weight_difference_def cd_def)
  obtain wT r' extra where
        run: "runTransaction (setCustomerWeightDetails_transaction o' (ORDERS_COLLECTION, o') weight cp pp) w
                = (Inr (), wT)"
    and ordersT: "tables wT ORDERS_COLLECTION
                = map (\<lambda>x. if has_id o' x then r' else x) (tables w ORDERS_COLLECTION)"
    and id': "has_id o' r'"
    and cols: "col r' ''sellingPriceLYD'' = JNum (s + cd)" "col r' ''remainingAmount'' = JNum (m + cd)"
    and txT: "tables wT TRANSACTIONS_COLLECTION = tables w TRANSACTIONS_COLLECTION @ extra"
    and extra: "list_all (\<lambda>t. col t ''type'' = JStr ''order'') extra"
    using setCustomerWeightDetails_transaction_run [OF nf row sp rem old [OF weight]
        fresh [OF weight] cd_def] by blast
  let ?w' = "snd (setCustomerWeightDetails o' weight cp pp w)"
  have orders: "tables ?w' ORDERS_COLLECTION
                = map (\<lambda>x. if has_id o' x then r' else x) (tables w ORDERS_COLLECTION)"
    using setCustomerWeightDetails_tables [OF False o, of ORDERS_COLLECTION cp pp w] run ordersT
    by simp
  have tx: "tables ?w' TRANSACTIONS_COLLECTION = tables w TRANSACTIONS_COLLECTION @ extra"
    using setCustomerWeightDetails_tables [OF False o, of TRANSACTIONS_COLLECTION cp pp w] run txT
    by simp
  have wh: "whole (s + cd)" "whole (m + cd)" using exact [OF weight] by (simp_all add: cd)
  have "paid ?w' o' = paid w o'" by (rule paid_append_orders [OF tx extra])
  then have "s + cd - paid ?w' o' = m + cd" using eq by simp
  then show ?thesis by (rule balanced_step [OF row orders id' cols wh])
qed

lemma shipping_payload_special:
  "hasSpecialOps [(''sellingPriceLYD'', a), (''remainingAmount'', increment b), (''customerWeightCostUSD'', c)]"
  by (simp add: hasSpecialOps_def increment_def get_prop_def)

lemma getAppSettings_run:
  assumes "no_faults w"
  shows "\<exists>w'. getAppSettings w = (fst (getAppSettings w), w') \<and> no_faults w'
           \<and> tables w' ORDERS_COLLECTION = tables w ORDERS_COLLECTION
           \<and> tables w' TRANSACTIONS_COLLECTION = tables w TRANSACTIONS_COLLECTION
           \<and> (\<exists>settings. fst (getAppSettings w) = Inr settings)"
  using getAppSettings_ok [OF assms] by auto

lemma addCustomerShippingCost_transaction_run:
  assumes nf: "no_faults w"
    and row: "filter (has_id (JStr oid)) (tables w ORDERS_COLLECTION) = [r]"
    and sp: "col r ''sellingPriceLYD'' = JNum s"
    and rem: "col r ''remainingAmount'' = JNum m"
    and rate: "exchange_rate_for w r = JNum x"
    and old: "col r ''customerWeightCostUSD'' = JNull \<or> is_num (col r ''customerWeightCostUSD'')"
    and cd: "cd = (cost - numeric_or0 (col r ''customerWeightCostUSD'')) * x"
  shows "\<exists>wT r'.
      runTransaction (addCustomerShippingCost_transaction (ORDERS_COLLECTION, JStr oid) cost) w
        = (Inr (), wT)
    \<and> tables wT ORDERS_COLLECTION
        = map (\<lambda>y. if has_id (JStr oid) y then r' else y) (tables w ORDERS_COLLECTION)
    \<and> has_id (JStr oid) r'
    \<and> col r' ''sellingPriceLYD'' = JNum (s + cd) \<and> col r' ''remainingAmount'' = JNum (m + cd)
    \<and> tables wT TRANSACTIONS_COLLECTION = tables w TRANSACTIONS_COLLECTION"
proof -
  have idr: "has_id (JStr oid) r" using filter_eq_ConsD [OF row] by auto
  have e: "(cost - numeric_or0 (col r ''customerWeightCostUSD'')) * x = cd" using cd by simp
  have m: "map_of r ''sellingPriceLYD'' = Some (JNum s)" "map_of r ''remainingAmount'' = Some (JNum m)"
    "map_of r ''id'' = Some (JStr oid)"
    using sp rem idr by (auto simp: col_def has_id_def split: option.splits)
  let ?u = "AList.update ''customerWeightCostUSD'' (JNum cost)
             (AList.update ''remainingAmount'' (JNum (m + cd))
               (AList.update ''sellingPriceLYD'' (JNum (s + cd)) r))"
  let ?r' = "spread r (json_row ?u)"
  have id': "has_id (JStr oid) ?r'"
    using m by (simp add: has_id_def col_spread_json update_conv')
  have cols: "col ?r' ''sellingPriceLYD'' = JNum (s + cd)" "col ?r' ''remainingAmount'' = JNum (m + cd)"
    by (simp_all add: col_spread_json update_conv')
  have rows: "update_rows (JStr oid) (json_row ?u) (tables w ORDERS_COLLECTION)
        = map (\<lambda>y. if has_id (JStr oid) y then ?r' else y) (tables w ORDERS_COLLECTION)"
    unfolding update_rows_def by (rule map_if_single [OF row])
  show ?thesis
  proof (cases "truthy (col r ''exchangeRate'')")
    case True
    then have own: "col r ''exchangeRate'' = JNum x" using rate by (simp add: exchange_rate_for_def)
    show ?thesis
      using nf row sp rem own True e id' cols rows m
      by (intro exI [of _ "put_table ORDERS_COLLECTION
              (map (\<lambda>y. if has_id (JStr oid) y then ?r' else y) (tables w ORDERS_COLLECTION)) w"]
            exI [of _ ?r'])
         (simp add: runTransaction_def the_transaction_def addCustomerShippingCost_transaction_def
            bnd_def ret_def host_def doc_get_ok detached_def num_or_null [OF old]
            doc_update_def shipping_payload_special sb_single_def sb_update_def not_failing
            apply_key_def increment_def get_prop_def update_conv' of_number_def
            hasSpecialOps_def hasDotNotation_def)
  next
    case False
    obtain w' settings where
          run: "getAppSettings w = (Inr settings, w')" and nf': "no_faults w'"
      and orders': "tables w' ORDERS_COLLECTION = tables w ORDERS_COLLECTION"
      and tx': "tables w' TRANSACTIONS_COLLECTION = tables w TRANSACTIONS_COLLECTION"
      using getAppSettings_run [OF nf] by auto
    have general: "get_prop settings ''exchangeRate'' = JNum x"
      using rate False run by (simp add: exchange_rate_for_def)
    have mg: "map_of settings ''exchangeRate'' = Some (JNum x)"
      using general by (auto simp: get_prop_def split: option.splits)
    have row': "filter (has_id (JStr oid)) (tables w' ORDERS_COLLECTION) = [r]"
      using row orders' by simp
    have rows': "update_rows (JStr oid) (json_row ?u) (tables w' ORDERS_COLLECTION)
        = map (\<lambda>y. if has_id (JStr oid) y then ?r' else y) (tables w ORDERS_COLLECTION)"
      using rows orders' by simp
    show ?thesis
      using nf nf' row row' sp rem False e id' cols rows' m run mg orders' tx'
      by (intro exI [of _ "put_table ORDERS_COLLECTION
              (map (\<lambda>y. if has_id (JStr oid) y then ?r' else y) (tables w ORDERS_COLLECTION)) w'"]
            exI [of _ ?r'])
         (simp add: runTransaction_def the_transaction_def addCustomerShippingCost_transaction_def
            bnd_def ret_def host_def doc_get_ok detached_def num_or_null [OF old]
            doc_update_def shipping_payload_special sb_single_def sb_update_def not_failing
            apply_key_def increment_def get_prop_def update_conv' of_number_def
            hasSpecialOps_def hasDotNotation_def)
  qed
qed

lemma paid_same:
  "tables w' TRANSACTIONS_COLLECTION = tables w TRANSACTIONS_COLLECTION \<Longrightarrow> paid w' o' = paid w o'"
  by (simp add: paid_def payments_of_def)

lemma addCustomerShippingCost_tables:
  assumes "\<not> cost < 0" "truthy o'" "c \<noteq> USERS_COLLECTION"
  shows "tables (snd (addCustomerShippingCost o' cost w)) c
       = tables (snd (runTransaction
            (addCustomerShippingCost_transaction (ORDERS_COLLECTION, o') cost) w)) c"
proof -
  have "addCustomerShippingCost o' cost w
      = try_catch (bnd (runTransaction
            (addCustomerShippingCost_transaction (ORDERS_COLLECTION, o') cost))
          (\<lambda>u. bnd (recalc_order_user (ORDERS_COLLECTION, o')) (\<lambda>u'. ret True)))
          (\<lambda>error. ret False) w"
    using assms(1,2) by (simp add: addCustomerShippingCost_def bnd_def doc_ok)
  then show ?thesis
    using tail_keeps [of "\<lambda>u. recalc_order_user (ORDERS_COLLECTION, o')" c _ True False w]
      recalc_order_user_keeps [OF assms(3)]
    by simp
qed

lemma shipping_keeps_balance:
  assumes nf: "no_faults w" and oid: "oid \<noteq> []"
    and bal: "balanced w (JStr oid)" and r: "order_rows w (JStr oid) = [r]"
    and sp: "col r ''sellingPriceLYD'' = JNum s" and rem: "col r ''remainingAmount'' = JNum m"
    and rate: "0 \<le> cost \<Longrightarrow> exchange_rate_for w r = JNum x"
    and old: "0 \<le> cost \<Longrightarrow>
                col r ''customerWeightCostUSD'' = JNull \<or> is_num (col r ''customerWeightCostUSD'')"
    and exact: "0 \<le> cost \<Longrightarrow> whole (s + shipping_difference r cost x)"
      "0 \<le> cost \<Longrightarrow> whole (m + shipping_difference r cost x)"
  shows "balanced (snd (addCustomerShippingCost (JStr oid) cost w)) (JStr oid)"
proof (cases "cost < 0")
  case True
  then show ?thesis using bal by (simp add: addCustomerShippingCost_def ret_def)
next
  case False
  then have cost: "0 \<le> cost" by simp
  note row = balanced_row(1) [OF bal r sp rem] and eq = balanced_row(4) [OF bal r sp rem]
  define cd where "cd = (cost - numeric_or0 (col r ''customerWeightCostUSD'')) * x"
  have cd: "shipping_difference r cost x = cd" by (simp add: shipping_difference_def cd_def)
  obtain wT r' where
        run: "runTransaction (addCustomerShippingCost_transaction (ORDERS_COLLECTION, JStr oid) cost) w
                = (Inr (), wT)"
    and ordersT: "tables wT ORDERS_COLLECTION
                = map (\<lambda>y. if has_id (JStr oid) y then r' else y) (tables w ORDERS_COLLECTION)"
    and id': "has_id (JStr oid) r'"
    and cols: "col r' ''sellingPriceLYD'' = JNum (s + cd)" "col r' ''remainingAmount'' = JNum (m + cd)"
    and txT: "tables wT TRANSACTIONS_COLLECTION = tables w TRANSACTIONS_COLLECTION"
    using addCustomerShippingCost_transaction_run [OF nf row sp rem rate [OF cost] old [OF cost]
        cd_def] by blast
  let ?w' = "snd (addCustomerShippingCost (JStr oid) cost w)"
  have tr: "truthy (JStr oid)" using oid by simp
  have orders: "tables ?w' ORDERS_COLLECTION
                = map (\<lambda>y. if has_id (JStr oid) y then r' else y) (tables w ORDERS_COLLECTION)"
    using addCustomerShippingCost_tables [OF False tr, of ORDERS_COLLECTION w] run ordersT
    by simp
  have tx: "tables ?w' TRANSACTIONS_COLLECTION = tables w TRANSACTIONS_COLLECTION"
    using addCustomerShippingCost_tables [OF False tr, of TRANSACTIONS_COLLECTION w] run txT
    by simp
  have wh: "whole (s + cd)" "whole (m + cd)" using exact [OF cost] by (simp_all add: cd)
  have "s + cd - paid ?w' (JStr oid) = m + cd" using eq paid_same [OF tx] by simp
  then show ?thesis by (rule balanced_step [OF row orders id' cols wh])
qed

lemma remaining_payload_plain:
  "\<not> hasSpecialOps [(''remainingAmount'', JNum b)]" "\<not> hasDotNotation [(''remainingAmount'', JNum b)]"
  by (simp_all add: hasSpecialOps_def hasDotNotation_def)

lemma addTransaction_transaction_run:
  assumes nf: "no_faults w"
    and row: "filter (has_id (JStr oid)) (tables w ORDERS_COLLECTION) = [r]"
    and sp: "col r ''sellingPriceLYD'' = JNum s"
    and rem: "col r ''remainingAmount'' = JNum m"
    and ty: "get_prop td ''type'' = JStr ''payment''"
    and ord: "get_prop td ''orderId'' = JStr oid" "oid \<noteq> []"
    and amount: "get_prop td ''amount'' = JNum a" "a \<le> m"
    and fresh: "\<not> list_ex (has_id (JStr (rnd w 0))) (tables w TRANSACTIONS_COLLECTION)"
  shows "\<exists>ref wT r' t.
      runTransaction (addTransaction_transaction td) w = (Inr ref, wT)
    \<and> tables wT ORDERS_COLLECTION
        = map (\<lambda>y. if has_id (JStr oid) y then r' else y) (tables w ORDERS_COLLECTION)
    \<and> has_id (JStr oid) r'
    \<and> col r' ''sellingPriceLYD'' = JNum s \<and> col r' ''remainingAmount'' = JNum (m - a)
    \<and> tables wT TRANSACTIONS_COLLECTION = tables w TRANSACTIONS_COLLECTION @ [t]
    \<and> col t ''orderId'' = JStr oid \<and> col t ''type'' = JStr ''payment'' \<and> col t ''amount'' = JNum a"
proof -
  have idr: "has_id (JStr oid) r" using filter_eq_ConsD [OF row] by auto
  have mp: "map_of td ''type'' = Some (JStr ''payment'')" "map_of td ''orderId'' = Some (JStr oid)"
    "map_of td ''amount'' = Some (JNum a)"
    using ty ord amount by (auto simp: get_prop_def split: option.splits)
  let ?r' = "spread r (json_row [(''remainingAmount'', JNum (m - a))])"
  let ?t = "json_row (spread td [(''id'', JStr (rnd w 0))])"
  have id': "has_id (JStr oid) ?r'"
    using idr by (simp add: has_id_def col_spread_json)
  have cols: "col ?r' ''sellingPriceLYD'' = JNum s" "col ?r' ''remainingAmount'' = JNum (m - a)"
    using sp by (simp_all add: col_spread_json)
  have tcols: "col ?t ''orderId'' = JStr oid" "col ?t ''type'' = JStr ''payment''"
    "col ?t ''amount'' = JNum a" "col ?t ''id'' = JStr (rnd w 0)"
    using mp by (simp_all add: col_json_row map_of_spread)
  have rows: "update_rows (JStr oid) (json_row [(''remainingAmount'', JNum (m - a))])
          (tables w ORDERS_COLLECTION)
        = map (\<lambda>y. if has_id (JStr oid) y then ?r' else y) (tables w ORDERS_COLLECTION)"
    unfolding update_rows_def by (rule map_if_single [OF row])
  have notlt: "\<not> m - a < 0" using amount(2) by simp
  show ?thesis
    using nf row sp rem ty ord amount(1) notlt id' cols rows fresh tcols
    by (intro exI [of _ "(TRANSACTIONS_COLLECTION, JStr (rnd w 0))"]
          exI [of _ "snd (runTransaction (addTransaction_transaction td) w)"]
          exI [of _ ?r'] exI [of _ ?t])
       (simp add: runTransaction_def the_transaction_def addTransaction_transaction_def
          bnd_def ret_def host_def doc_get_ok detached_def doc_ok
          plain_update_rows remaining_payload_plain doc_auto_run doc_set_ok upsert_rows_fresh)
qed

lemma try_keeps:
  assumes "\<And>x w'. tables (snd (k x w')) c = tables w' c"
    and "\<And>e w'. tables (snd (h e w')) c = tables w' c"
  shows "tables (snd (try_catch (bnd m k) h w)) c = tables (snd (m w)) c"
proof -
  obtain res w' where mw: "m w = (res, w')" by (cases "m w")
  show ?thesis
  proof (cases res)
    case (Inl e)
    then show ?thesis using mw assms(2) [of e w'] by (simp add: try_catch_def bnd_def)
  next
    case (Inr x)
    obtain res2 w2 where kw: "k x w' = (res2, w2)" by (cases "k x w'")
    have same: "tables w2 c = tables w' c" using assms(1) [of x w'] kw by simp
    show ?thesis
    proof (cases res2)
      case (Inl e)
      then show ?thesis using mw Inr kw same assms(2) [of e w2] by (simp add: try_catch_def bnd_def)
    next
      case (Inr y)
      then show ?thesis using mw \<open>res = Inr x\<close> kw same by (simp add: try_catch_def bnd_def)
    qed
  qed
qed

lemma bnd_ret_keeps: "tables (snd (bnd m (\<lambda>u. ret y) w)) c = tables (snd (m w)) c"
  by (simp add: bnd_def ret_def split: prod.splits sum.splits)

lemma ret_keeps: "tables (snd (ret y w)) c = tables w c"
  by (simp add: ret_def)

lemma addTransaction_tables:
  assumes "c \<noteq> USERS_COLLECTION"
  shows "tables (snd (addTransaction td w)) c
       = tables (snd (runTransaction (addTransaction_transaction td) w)) c"
  unfolding addTransaction_def
  by (rule try_keeps) (simp_all add: bnd_ret_keeps ret_keeps recalc_customer_keeps [OF assms])

lemma paid_append_payment:
  assumes "tables w' TRANSACTIONS_COLLECTION = tables w TRANSACTIONS_COLLECTION @ [t]"
    and "col t ''orderId'' = o'" "col t ''type'' = JStr ''payment''" "col t ''amount'' = JNum a"
  shows "paid w' o' = paid w o' + a"
  using payments_of_append [OF assms(1), of o'] assms(2-4)
  by (simp add: paid_def numeric_or0_def)

lemma payment_keeps_balance:
  assumes nf: "no_faults w"
    and bal: "balanced w (JStr oid)" and r: "order_rows w (JStr oid) = [r]"
    and sp: "col r ''sellingPriceLYD'' = JNum s" and rem: "col r ''remainingAmount'' = JNum m"
    and ty: "get_prop td ''type'' = JStr ''payment''"
    and ord: "get_prop td ''orderId'' = JStr oid" "oid \<noteq> []"
    and a: "get_prop td ''amount'' = JNum a" and le: "a \<le> m"
    and exact: "whole (m - a)"
    and fresh: "\<not> list_ex (has_id (JStr (rnd w 0))) (tables w TRANSACTIONS_COLLECTION)"
  shows "balanced (snd (addTransaction td w)) (JStr oid)"
proof -
  note row = balanced_row(1) [OF bal r sp rem] and eq = balanced_row(4) [OF bal r sp rem]
    and wh = balanced_row(2) [OF bal r sp rem]
  obtain ref wT r' t where
        run: "runTransaction (addTransaction_transaction td) w = (Inr ref, wT)"
    and ordersT: "tables wT ORDERS_COLLECTION
                = map (\<lambda>y. if has_id (JStr oid) y then r' else y) (tables w ORDERS_COLLECTION)"
    and id': "has_id (JStr oid) r'"
    and cols: "col r' ''sellingPriceLYD'' = JNum s" "col r' ''remainingAmount'' = JNum (m - a)"
    and txT: "tables wT TRANSACTIONS_COLLECTION = tables w TRANSACTIONS_COLLECTION @ [t]"
    and t: "col t ''orderId'' = JStr oid" "col t ''type'' = JStr ''payment''" "col t ''amount'' = JNum a"
    using addTransaction_transaction_run [OF nf row sp rem ty ord a le fresh] by blast
  let ?w' = "snd (addTransaction td w)"
  have orders: "tables ?w' ORDERS_COLLECTION
                = map (\<lambda>y. if has_id (JStr oid) y then r' else y) (tables w ORDERS_COLLECTION)"
    using addTransaction_tables [of ORDERS_COLLECTION td w] run ordersT by simp
  have tx: "tables ?w' TRANSACTIONS_COLLECTION = tables w TRANSACTIONS_COLLECTION @ [t]"
    using addTransaction_tables [of TRANSACTIONS_COLLECTION td w] run txT by simp
  have "s - paid ?w' (JStr oid) = m - a" using eq paid_append_payment [OF tx t] by simp
  then show ?thesis by (rule balanced_step [OF row orders id' cols wh exact])
qed

lemma amount_payload_plain:
  "\<not> hasSpecialOps [(''amount'', JNum b)]" "\<not> hasDotNotation [(''amount'', JNum b)]"
  by (simp_all add: hasSpecialOps_def hasDotNotation_def)

lemma updateTransaction_transaction_run:
  assumes nf: "no_faults w"
    and row: "filter (has_id (JStr oid)) (tables w ORDERS_COLLECTION) = [r]"
    and sp: "col r ''sellingPriceLYD'' = JNum s"
    and rem: "col r ''remainingAmount'' = JNum m"
    and tx: "filter (has_id i) (tables w TRANSACTIONS_COLLECTION) = [t]"
    and ord: "col t ''orderId'' = JStr oid" "oid \<noteq> []"
    and amount: "col t ''amount'' = JNum a"
  shows "\<exists>wT r'.
      runTransaction (updateTransaction_transaction (TRANSACTIONS_COLLECTION, i) n) w = (Inr (), wT)
    \<and> tables wT ORDERS_COLLECTION
        = map (\<lambda>y. if has_id (JStr oid) y then r' else y) (tables w ORDERS_COLLECTION)
    \<and> has_id (JStr oid) r'
    \<and> col r' ''sellingPriceLYD'' = JNum s \<and> col r' ''remainingAmount'' = JNum (m + (a - n))
    \<and> tables wT TRANSACTIONS_COLLECTION
        = map (\<lambda>y. if has_id i y then spread t (json_row [(''amount'', JNum n)]) else y)
            (tables w TRANSACTIONS_COLLECTION)"
proof -
  have idr: "has_id (JStr oid) r" using filter_eq_ConsD [OF row] by auto
  have m: "map_of r ''sellingPriceLYD'' = Some (JNum s)" "map_of r ''remainingAmount'' = Some (JNum m)"
    "map_of r ''id'' = Some (JStr oid)"
    using sp rem idr by (auto simp: col_def has_id_def split: option.splits)
  let ?u = "AList.update ''remainingAmount'' (JNum (m + (a - n))) r"
  let ?r' = "spread r (json_row ?u)"
  have id': "has_id (JStr oid) ?r'"
    using m by (simp add: has_id_def col_spread_json update_conv')
  have cols: "col ?r' ''sellingPriceLYD'' = JNum s" "col ?r' ''remainingAmount'' = JNum (m + (a - n))"
    using m by (simp_all add: col_spread_json update_conv')
  have rows: "update_rows (JStr oid) (json_row ?u) (tables w ORDERS_COLLECTION)
        = map (\<lambda>y. if has_id (JStr oid) y then ?r' else y) (tables w ORDERS_COLLECTION)"
    unfolding update_rows_def by (rule map_if_single [OF row])
  have txrows: "update_rows i (json_row [(''amount'', JNum n)]) (tables w TRANSACTIONS_COLLECTION)
        = map (\<lambda>y. if has_id i y then spread t (json_row [(''amount'', JNum n)]) else y)
            (tables w TRANSACTIONS_COLLECTION)"
    unfolding update_rows_def by (rule map_if_single [OF tx])
  show ?thesis
    using nf row sp rem tx ord amount id' cols rows txrows m
    by (intro exI [of _ "snd (runTransaction
              (updateTransaction_transaction (TRANSACTIONS_COLLECTION, i) n) w)"]
          exI [of _ ?r'])
       (simp add: runTransaction_def the_transaction_def updateTransaction_transaction_def
          bnd_def ret_def host_def doc_get_ok detached_def doc_ok
          plain_update_rows amount_payload_plain increment_update_ok get_prop_def of_number_def)
qed

lemma sum_replace:
  fixes f :: "'a \<Rightarrow> rat"
  assumes "filter P xs = [t]" "Q t" "Q t'"
  shows "sum_list (map f (filter Q (map (\<lambda>y. if P y then t' else y) xs)))
       = sum_list (map f (filter Q xs)) - f t + f t'"
  using assms(1)
proof (induction xs)
  case Nil
  then show ?case by simp
next
  case (Cons a xs)
  show ?case
  proof (cases "P a")
    case True
    then have a: "a = t" and none: "filter P xs = []" using Cons.prems by simp_all
    have "map (\<lambda>y. if P y then t' else y) xs = xs"
      using none by (auto simp: filter_empty_conv intro: map_idI)
    then show ?thesis using True a assms(2,3) by simp
  next
    case False
    then show ?thesis using Cons by simp
  qed
qed

lemma sum_remove:
  fixes f :: "'a \<Rightarrow> rat"
  assumes "filter P xs = [t]" "Q t"
  shows "sum_list (map f (filter Q (filter (\<lambda>y. \<not> P y) xs)))
       = sum_list (map f (filter Q xs)) - f t"
  using assms(1)
proof (induction xs)
  case Nil
  then show ?case by simp
next
  case (Cons a xs)
  show ?case
  proof (cases "P a")
    case True
    then have a: "a = t" and none: "filter P xs = []" using Cons.prems by simp_all
    have "filter (\<lambda>y. \<not> P y) xs = xs"
      using none by (auto simp: filter_empty_conv filter_id_conv)
    then show ?thesis using True a assms(2) by simp
  next
    case False
    then show ?thesis using Cons by simp
  qed
qed

lemma paid_replace:
  assumes "filter (has_id i) (tables w TRANSACTIONS_COLLECTION) = [t]"
    and "tables w' TRANSACTIONS_COLLECTION
           = map (\<lambda>y. if has_id i y then t' else y) (tables w TRANSACTIONS_COLLECTION)"
    and "col t ''orderId'' = o'" "col t ''type'' = JStr ''payment''" "col t ''amount'' = JNum a"
    and "col t' ''orderId'' = o'" "col t' ''type'' = JStr ''payment''" "col t' ''amount'' = JNum n"
  shows "paid w' o' = paid w o' - a + n"
  using sum_replace [OF assms(1), of "\<lambda>t. col t ''orderId'' = o' \<and> col t ''type'' = JStr ''payment''" t'
      "\<lambda>t. numeric_or0 (col t ''amount'')"] assms(2-)
  by (simp add: paid_def payments_of_def numeric_or0_def)

lemma paid_remove:
  assumes "filter (has_id i) (tables w TRANSACTIONS_COLLECTION) = [t]"
    and "tables w' TRANSACTIONS_COLLECTION
           = filter (\<lambda>y. \<not> has_id i y) (tables w TRANSACTIONS_COLLECTION)"
    and "col t ''orderId'' = o'" "col t ''type'' = JStr ''payment''" "col t ''amount'' = JNum a"
  shows "paid w' o' = paid w o' - a"
  using sum_remove [OF assms(1), of "\<lambda>t. col t ''orderId'' = o' \<and> col t ''type'' = JStr ''payment''"
      "\<lambda>t. numeric_or0 (col t ''amount'')"] assms(2-)
  by (simp add: paid_def payments_of_def numeric_or0_def)

lemma getDoc_keeps: "tables (snd (getDoc ref w)) c = tables w c"
  by (simp add: getDoc_def doc_get_shape)

lemma updateTransaction_tables:
  assumes "truthy i" "c \<noteq> USERS_COLLECTION"
  shows "tables (snd (updateTransaction i n w)) c
       = tables (snd (runTransaction (updateTransaction_transaction (TRANSACTIONS_COLLECTION, i) n) w)) c"
proof -
  have k: "tables (snd (bnd (getDoc ref) (\<lambda>finalTxDoc.
              bnd (case finalTxDoc of Some data \<Rightarrow> recalc_customer (col data ''customerId'')
                   | None \<Rightarrow> ret ()) (\<lambda>u'. ret True)) w')) c = tables w' c" for ref w'
    by (simp add: bnd_def getDoc_def doc_get_shape ret_def recalc_customer_keeps [OF assms(2)]
          split: option.splits prod.splits sum.splits)
       (metis recalc_customer_keeps [OF assms(2)] snd_conv tables_tick)
  have "updateTransaction i n w
      = try_catch (bnd (runTransaction (updateTransaction_transaction (TRANSACTIONS_COLLECTION, i) n))
          (\<lambda>u. bnd (getDoc (TRANSACTIONS_COLLECTION, i)) (\<lambda>finalTxDoc.
              bnd (case finalTxDoc of Some data \<Rightarrow> recalc_customer (col data ''customerId'')
                   | None \<Rightarrow> ret ()) (\<lambda>u'. ret True))))
          (\<lambda>error. ret False) w"
    using assms(1) by (simp add: updateTransaction_def bnd_def doc_ok)
  then show ?thesis
    using try_keeps [of _ c "\<lambda>error. ret False", OF k ret_keeps] by simp
qed

lemma update_keeps_balance:
  assumes nf: "no_faults w"
    and bal: "balanced w (JStr oid)" and r: "order_rows w (JStr oid) = [r]"
    and sp: "col r ''sellingPriceLYD'' = JNum s" and rem: "col r ''remainingAmount'' = JNum m"
    and i: "truthy i"
    and tx: "filter (has_id i) (tables w TRANSACTIONS_COLLECTION) = [t]"
    and ty: "col t ''type'' = JStr ''payment''"
    and ord: "col t ''orderId'' = JStr oid" "oid \<noteq> []"
    and a: "col t ''amount'' = JNum a"
    and exact: "whole (m + (a - n))"
  shows "balanced (snd (updateTransaction i n w)) (JStr oid)"
proof -
  note row = balanced_row(1) [OF bal r sp rem] and eq = balanced_row(4) [OF bal r sp rem]
    and wh = balanced_row(2) [OF bal r sp rem]
  let ?t' = "spread t (json_row [(''amount'', JNum n)])"
  obtain wT r' where
        run: "runTransaction (updateTransaction_transaction (TRANSACTIONS_COLLECTION, i) n) w
                = (Inr (), wT)"
    and ordersT: "tables wT ORDERS_COLLECTION
                = map (\<lambda>y. if has_id (JStr oid) y then r' else y) (tables w ORDERS_COLLECTION)"
    and id': "has_id (JStr oid) r'"
    and cols: "col r' ''sellingPriceLYD'' = JNum s" "col r' ''remainingAmount'' = JNum (m + (a - n))"
    and txT: "tables wT TRANSACTIONS_COLLECTION
                = map (\<lambda>y. if has_id i y then ?t' else y) (tables w TRANSACTIONS_COLLECTION)"
    using updateTransaction_transaction_run [OF nf row sp rem tx ord a] by blast
  let ?w' = "snd (updateTransaction i n w)"
  have orders: "tables ?w' ORDERS_COLLECTION
                = map (\<lambda>y. if has_id (JStr oid) y then r' else y) (tables w ORDERS_COLLECTION)"
    using updateTransaction_tables [OF i, of ORDERS_COLLECTION n w] run ordersT by simp
  have tx': "tables ?w' TRANSACTIONS_COLLECTION
                = map (\<lambda>y. if has_id i y then ?t' else y) (tables w TRANSACTIONS_COLLECTION)"
    using updateTransaction_tables [OF i, of TRANSACTIONS_COLLECTION n w] run txT by simp
  have t': "col ?t' ''orderId'' = JStr oid" "col ?t' ''type'' = JStr ''payment''"
    "col ?t' ''amount'' = JNum n"
    using ord ty by (simp_all add: col_spread_json)
  have "paid ?w' (JStr oid) = paid w (JStr oid) - a + n"
    by (rule paid_replace [OF tx tx' ord(1) ty a t'])
  then have "s - paid ?w' (JStr oid) = m + (a - n)" using eq by simp
  then show ?thesis by (rule balanced_step [OF row orders id' cols wh exact])
qed

lemma deleteTransaction_run:
  assumes nf: "no_faults w"
    and i: "truthy i"
    and row: "filter (has_id (JStr oid)) (tables w ORDERS_COLLECTION) = [r]"
    and sp: "col r ''sellingPriceLYD'' = JNum s"
    and rem: "col r ''remainingAmount'' = JNum m"
    and tx: "filter (has_id i) (tables w TRANSACTIONS_COLLECTION) = [t]"
    and ord: "col t ''orderId'' = JStr oid" "oid \<noteq> []"
    and amount: "col t ''amount'' = JNum a"
  shows "\<exists>r'.
      tables (snd (deleteTransaction i w)) ORDERS_COLLECTION
        = map (\<lambda>y. if has_id (JStr oid) y then r' else y) (tables w ORDERS_COLLECTION)
    \<and> has_id (JStr oid) r'
    \<and> col r' ''sellingPriceLYD'' = JNum s \<and> col r' ''remainingAmount'' = JNum (m + a)
    \<and> tables (snd (deleteTransaction i w)) TRANSACTIONS_COLLECTION
        = filter (\<lambda>y. \<not> has_id i y) (tables w TRANSACTIONS_COLLECTION)"
proof -
  have idr: "has_id (JStr oid) r" using filter_eq_ConsD [OF row] by auto
  have m: "map_of r ''sellingPriceLYD'' = Some (JNum s)" "map_of r ''remainingAmount'' = Some (JNum m)"
    "map_of r ''id'' = Some (JStr oid)"
    using sp rem idr by (auto simp: col_def has_id_def split: option.splits)
  let ?u = "AList.update ''remainingAmount'' (JNum (m + a)) r"
  let ?r' = "spread r (json_row ?u)"
  have id': "has_id (JStr oid) ?r'"
    using m by (simp add: has_id_def col_spread_json update_conv')
  have cols: "col ?r' ''sellingPriceLYD'' = JNum s" "col ?r' ''remainingAmount'' = JNum (m + a)"
    using m by (simp_all add: col_spread_json update_conv')
  have rows: "update_rows (JStr oid) (json_row ?u) (tables w ORDERS_COLLECTION)
        = map (\<lambda>y. if has_id (JStr oid) y then ?r' else y) (tables w ORDERS_COLLECTION)"
    unfolding update_rows_def by (rule map_if_single [OF row])
  let ?w2 = "put_table TRANSACTIONS_COLLECTION
               (filter (\<lambda>y. \<not> has_id i y) (tables w TRANSACTIONS_COLLECTION))
               (put_table ORDERS_COLLECTION
                  (map (\<lambda>y. if has_id (JStr oid) y then ?r' else y) (tables w ORDERS_COLLECTION)) w)"
  have step: "deleteTransaction i w
      = try_catch (bnd (recalc_customer (col t ''customerId'')) (\<lambda>u'. ret True))
          (\<lambda>error. ret False) ?w2"
    using nf i row tx ord amount rows m
    by (simp add: deleteTransaction_def try_catch_def bnd_def ret_def doc_ok getDoc_def
          doc_get_ok batch_update_def batch_push_def increment_update_ok batch_delete_def
          doc_delete_def sb_delete_def not_failing batch_commit_def get_prop_def of_number_def)
  have keep: "tables (snd (deleteTransaction i w)) c = tables ?w2 c" if "c \<noteq> USERS_COLLECTION" for c
    unfolding step
    using try_keeps [of "\<lambda>u' :: unit. ret True" c "\<lambda>error. ret False"
        "recalc_customer (col t ''customerId'')" ?w2]
      recalc_customer_keeps [OF that, of "col t ''customerId''" ?w2]
    by (simp add: ret_keeps)
  show ?thesis
    using keep [of ORDERS_COLLECTION] keep [of TRANSACTIONS_COLLECTION] id' cols
    by (intro exI [of _ ?r']) simp
qed

lemma delete_keeps_balance:
  assumes nf: "no_faults w"
    and bal: "balanced w (JStr oid)" and r: "order_rows w (JStr oid) = [r]"
    and sp: "col r ''sellingPriceLYD'' = JNum s" and rem: "col r ''remainingAmount'' = JNum m"
    and i: "truthy i"
    and tx: "filter (has_id i) (tables w TRANSACTIONS_COLLECTION) = [t]"
    and ty: "col t ''type'' = JStr ''payment''"
    and ord: "col t ''orderId'' = JStr oid" "oid \<noteq> []"
    and a: "col t ''amount'' = JNum a"
    and exact: "whole (m + a)"
  shows "balanced (snd (deleteTransaction i w)) (JStr oid)"
proof -
  note row = balanced_row(1) [OF bal r sp rem] and eq = balanced_row(4) [OF bal r sp rem]
    and wh = balanced_row(2) [OF bal r sp rem]
  let ?w' = "snd (deleteTransaction i w)"
  obtain r' where
        orders: "tables ?w' ORDERS_COLLECTION
                = map (\<lambda>y. if has_id (JStr oid) y then r' else y) (tables w ORDERS_COLLECTION)"
    and id': "has_id (JStr oid) r'"
    and cols: "col r' ''sellingPriceLYD'' = JNum s" "col r' ''remainingAmount'' = JNum (m + a)"
    and tx': "tables ?w' TRANSACTIONS_COLLECTION
                = filter (\<lambda>y. \<not> has_id i y) (tables w TRANSACTIONS_COLLECTION)"
    using deleteTransaction_run [OF nf i row sp rem tx ord a] by blast
  have "paid ?w' (JStr oid) = paid w (JStr oid) - a"
    by (rule paid_remove [OF tx tx' ord(1) ty a])
  then have "s - paid ?w' (JStr oid) = m + a" using eq by simp
  then show ?thesis by (rule balanced_step [OF row orders id' cols wh exact])
qed

lemma addOrder_ledger:
  assumes nf: "no_faults w"
    and uid: "get_prop od ''userId'' = JStr uid" "uid \<noteq> []"
    and user: "filter (has_id (JStr uid)) (tables w USERS_COLLECTION) = [u]"
    and cnt: "get_prop u ''orderCounter'' = JUndef \<or> get_prop u ''orderCounter'' = JNull
              \<or> (\<exists>x. get_prop u ''orderCounter'' = JNum x)"
    and sp: "get_prop od ''sellingPriceLYD'' = JNum s"
    and dp: "get_prop od ''downPaymentLYD'' = JNum d"
    and k: "k = id_offset od"
    and fresh: "\<not> list_ex (has_id (JStr (rnd w k))) (tables w ORDERS_COLLECTION)"
      "\<not> list_ex (has_id (JStr (rnd w (Suc k)))) (tables w TRANSACTIONS_COLLECTION)"
      "\<not> list_ex (has_id (JStr (rnd w (Suc (Suc k))))) (tables w TRANSACTIONS_COLLECTION)"
      "rnd w (Suc k) \<noteq> rnd w (Suc (Suc k))"
    and nonneg: "0 \<le> d"
    and unpaid: "payments_of w (JStr (rnd w k)) = []"
  shows "\<exists>orow. order_rows (snd (addOrder od w)) (JStr (rnd w k)) = [orow]
           \<and> col orow ''sellingPriceLYD'' = JNum s \<and> col orow ''downPaymentLYD'' = JNum d
           \<and> col orow ''remainingAmount'' = JNum (s - d)
           \<and> paid (snd (addOrder od w)) (JStr (rnd w k)) = d"
proof -
  let ?o = "JStr (rnd w k)"
  let ?w' = "snd (addOrder od w)"
  obtain orow t1 pays where
        orders: "tables ?w' ORDERS_COLLECTION = tables w ORDERS_COLLECTION @ [orow]"
    and tx: "tables ?w' TRANSACTIONS_COLLECTION = tables w TRANSACTIONS_COLLECTION @ (t1 # pays)"
    and orow: "col orow ''id'' = ?o" "col orow ''sellingPriceLYD'' = JNum s"
      "col orow ''downPaymentLYD'' = JNum d" "col orow ''remainingAmount'' = JNum (s - d)"
    and t1: "col t1 ''type'' = JStr ''order''"
    and len: "length pays = (if 0 < d then 1 else 0)"
    and pays: "list_all (\<lambda>t2. col t2 ''id'' = JStr (rnd w (Suc (Suc k))) \<and> col t2 ''orderId'' = ?o
                     \<and> col t2 ''type'' = JStr ''payment'' \<and> col t2 ''amount'' = JNum d) pays"
    using addOrder_run [OF nf uid user cnt sp dp k fresh] by blast
  have none: "filter (has_id ?o) (tables w ORDERS_COLLECTION) = []"
    using fresh(1) by (auto simp: filter_empty_conv list_ex_iff)
  have row: "order_rows ?w' ?o = [orow]"
    using none orow(1) by (simp add: order_rows_def orders has_id_def)
  have "payments_of ?w' ?o = payments_of w ?o
          @ filter (\<lambda>t. col t ''orderId'' = ?o \<and> col t ''type'' = JStr ''payment'') (t1 # pays)"
    by (rule payments_of_append [OF tx])
  also have "\<dots> = pays"
    using unpaid t1 pays by (auto simp: list_all_iff filter_id_conv)
  finally have p: "payments_of ?w' ?o = pays" .
  have "paid ?w' ?o = d"
  proof (cases "0 < d")
    case True
    then obtain t2 where "pays = [t2]" using len by (cases pays) auto
    then show ?thesis using pays p by (simp add: paid_def numeric_or0_def)
  next
    case False
    then have "pays = []" "d = 0" using len nonneg by auto
    then show ?thesis using p by (simp add: paid_def)
  qed
  then show ?thesis using row orow by simp
qed

lemma addOrder_balanced:
  assumes nf: "no_faults w"
    and uid: "get_prop od ''userId'' = JStr uid" "uid \<noteq> []"
    and user: "filter (has_id (JStr uid)) (tables w USERS_COLLECTION) = [u]"
    and cnt: "get_prop u ''orderCounter'' = JUndef \<or> get_prop u ''orderCounter'' = JNull
              \<or> (\<exists>x. get_prop u ''orderCounter'' = JNum x)"
    and sp: "get_prop od ''sellingPriceLYD'' = JNum s"
    and dp: "get_prop od ''downPaymentLYD'' = JNum d"
    and k: "k = id_offset od"
    and fresh: "\<not> list_ex (has_id (JStr (rnd w k))) (tables w ORDERS_COLLECTION)"
      "\<not> list_ex (has_id (JStr (rnd w (Suc k)))) (tables w TRANSACTIONS_COLLECTION)"
      "\<not> list_ex (has_id (JStr (rnd w (Suc (Suc k))))) (tables w TRANSACTIONS_COLLECTION)"
      "rnd w (Suc k) \<noteq> rnd w (Suc (Suc k))"
    and nonneg: "0 \<le> d"
    and unpaid: "payments_of w (JStr (rnd w k)) = []"
    and exact: "whole s" "whole (s - d)"
  shows "balanced (snd (addOrder od w)) (JStr (rnd w k))"
  using addOrder_ledger [OF assms(1-14)] exact
  by (auto simp: balanced_def ledger_equation_def is_num_def numeric_or0_def)

text \<open>With the down payment subtracted a second time the equation holds after a creation
  only when there is no down payment.\<close>

lemma addOrder_claimed:
  assumes nf: "no_faults w"
    and uid: "get_prop od ''userId'' = JStr uid" "uid \<noteq> []"
    and user: "filter (has_id (JStr uid)) (tables w USERS_COLLECTION) = [u]"
    and cnt: "get_prop u ''orderCounter'' = JUndef \<or> get_prop u ''orderCounter'' = JNull
              \<or> (\<exists>x. get_prop u ''orderCounter'' = JNum x)"
    and sp: "get_prop od ''sellingPriceLYD'' = JNum s"
    and dp: "get_prop od ''downPaymentLYD'' = JNum d"
    and k: "k = id_offset od"
    and fresh: "\<not> list_ex (has_id (JStr (rnd w k))) (tables w ORDERS_COLLECTION)"
      "\<not> list_ex (has_id (JStr (rnd w (Suc k)))) (tables w TRANSACTIONS_COLLECTION)"
      "\<not> list_ex (has_id (JStr (rnd w (Suc (Suc k))))) (tables w TRANSACTIONS_COLLECTION)"
      "rnd w (Suc k) \<noteq> rnd w (Suc (Suc k))"
    and nonneg: "0 \<le> d"
    and unpaid: "payments_of w (JStr (rnd w k)) = []"
  shows "claimed_equation (snd (addOrder od w)) (JStr (rnd w k)) \<longleftrightarrow> d = 0"
  using addOrder_ledger [OF assms]
  by (auto simp: claimed_equation_def numeric_or0_def)

lemma rnd_w_shop: "rnd w_shop 0 = ''r''"
  by (simp add: w_shop_def w0_def)

lemma w_shop_unpaid: "payments_of w_shop (JStr (rnd w_shop 0)) = []"
  by (simp add: payments_of_def new_order_facts)

text \<open>
  C2, as stated, fails after a creation with a down payment: \<open>addOrder\<close> subtracts the
  down payment in \<open>remainingAmount\<close> and also records it as a \<open>payment\<close> row of the
  order, so the claimed left-hand side subtracts it twice. For a price of 1000 and a down
  payment of 200 the order holds 1000, 200 and a remaining amount of 800, its payments sum
  to 200, and 1000 - 200 - 200 is not 800.
\<close>

theorem down_payment_counted_twice:
  "map (\<lambda>r. (col r ''sellingPriceLYD'', col r ''downPaymentLYD'', col r ''remainingAmount''))
       (order_rows (snd (addOrder new_order w_shop)) (JStr ''r''))
     = [(JNum 1000, JNum 200, JNum 800)]
   \<and> paid (snd (addOrder new_order w_shop)) (JStr ''r'') = 200
   \<and> \<not> claimed_equation (snd (addOrder new_order w_shop)) (JStr ''r'')"
proof -
  have cnt: "get_prop [(''id'', JStr ''u1''), (''username'', JStr ''amal''), (''debt'', JNum 0),
         (''orderCount'', JNum 0), (''orderCounter'', JNum 3)] ''orderCounter'' = JUndef
     \<or> get_prop [(''id'', JStr ''u1''), (''username'', JStr ''amal''), (''debt'', JNum 0),
         (''orderCount'', JNum 0), (''orderCounter'', JNum 3)] ''orderCounter'' = JNull
     \<or> (\<exists>x. get_prop [(''id'', JStr ''u1''), (''username'', JStr ''amal''), (''debt'', JNum 0),
         (''orderCount'', JNum 0), (''orderCounter'', JNum 3)] ''orderCounter'' = JNum x)"
    by (simp add: get_prop_def)
  have k: "0 = id_offset new_order" by (simp add: new_order_facts)
  have nonneg: "(0::rat) \<le> 200" by simp
  have ne: "''u1'' \<noteq> []" by simp
  note facts = new_order_facts(1,2) ne new_order_facts(3) cnt new_order_facts(4,5) k
    new_order_facts(7-10) nonneg w_shop_unpaid
  have "\<exists>orow. order_rows (snd (addOrder new_order w_shop)) (JStr (rnd w_shop 0)) = [orow]
           \<and> col orow ''sellingPriceLYD'' = JNum 1000 \<and> col orow ''downPaymentLYD'' = JNum 200
           \<and> col orow ''remainingAmount'' = JNum (1000 - 200)
           \<and> paid (snd (addOrder new_order w_shop)) (JStr (rnd w_shop 0)) = 200"
    by (rule addOrder_ledger [OF facts])
  moreover have "claimed_equation (snd (addOrder new_order w_shop)) (JStr (rnd w_shop 0))
                   \<longleftrightarrow> (200::rat) = 0"
    by (rule addOrder_claimed [OF facts])
  ultimately show ?thesis by (auto simp: rnd_w_shop)
qed

text \<open>
  C2, amended. With the down payment counted once, as the \<open>payment\<close> row that the
  creation records, the equation is \<open>sellingPriceLYD\<close> minus the sum of the amounts of the
  order's \<open>payment\<close> rows equals \<open>remainingAmount\<close>. It is stated for whole amounts, on
  which the arithmetic of the host is exact (\<open>balanced\<close>: one order row, its selling price
  and remaining amount whole amounts, the equation holds), and on a store that answers
  every request.
  \<^item> It holds for the new order after \<open>addOrder\<close> with a whole selling price \<open>s\<close> and a
    non-negative down payment \<open>d\<close> with \<open>s - d\<close> whole, the user existing, the random
    identifiers fresh and no payment row already referring to the new identifier.
  \<^item> Let it hold for the order with identifier \<open>oid\<close>, whose row \<open>r\<close> has the selling price
    \<open>s'\<close> and the remaining amount \<open>m\<close>. Then it holds again
    \<^item> after \<open>setCustomerWeightDetails\<close>, where for a non-negative weight the former weight
      cost is a number or empty, the identifier of the ledger row is fresh and the
      product, the difference and the two sums that the action computes are whole;
    \<^item> after \<open>addCustomerShippingCost\<close>, where for a non-negative cost the rate used, the
      order's own or else that of the settings, is a number, the former cost is a number
      or empty and the difference, the product and the two sums are whole;
    \<^item> after \<open>addTransaction\<close> of a payment for the order whose amount \<open>a\<close> does not exceed
      \<open>m\<close>, with \<open>m - a\<close> whole and a fresh identifier;
    \<^item> after \<open>updateTransaction\<close> to the amount \<open>n\<close> and after \<open>deleteTransaction\<close> of a
      recorded payment row of the order with amount \<open>b\<close>, the difference \<open>n - b\<close> and the
      new remaining amount being whole.
  A negative weight or cost is rejected and changes nothing.
\<close>

theorem ledger_equation_maintained:
  assumes nf: "no_faults w"
  shows
   "(get_prop od ''userId'' = JStr uid \<and> uid \<noteq> []
       \<and> filter (has_id (JStr uid)) (tables w USERS_COLLECTION) = [u]
       \<and> (get_prop u ''orderCounter'' = JUndef \<or> get_prop u ''orderCounter'' = JNull
            \<or> is_num (get_prop u ''orderCounter''))
       \<and> get_prop od ''sellingPriceLYD'' = JNum s
       \<and> get_prop od ''downPaymentLYD'' = JNum d \<and> 0 \<le> d
       \<and> whole s \<and> whole (s - d)
       \<and> k = id_offset od
       \<and> \<not> list_ex (has_id (JStr (rnd w k))) (tables w ORDERS_COLLECTION)
       \<and> \<not> list_ex (has_id (JStr (rnd w (Suc k)))) (tables w TRANSACTIONS_COLLECTION)
       \<and> \<not> list_ex (has_id (JStr (rnd w (Suc (Suc k))))) (tables w TRANSACTIONS_COLLECTION)
       \<and> rnd w (Suc k) \<noteq> rnd w (Suc (Suc k))
       \<and> payments_of w (JStr (rnd w k)) = []
     \<longrightarrow> balanced (snd (addOrder od w)) (JStr (rnd w k)))
  \<and> (oid \<noteq> [] \<and> balanced w (JStr oid) \<and> order_rows w (JStr oid) = [r]
       \<and> col r ''sellingPriceLYD'' = JNum s' \<and> col r ''remainingAmount'' = JNum m \<longrightarrow>
       ((0 \<le> weight \<longrightarrow>
            (col r ''customerWeightCost'' = JNull \<or> is_num (col r ''customerWeightCost''))
          \<and> \<not> list_ex (has_id (JStr (rnd w 0))) (tables w TRANSACTIONS_COLLECTION)
          \<and> whole (weight * pp) \<and> whole (weight_difference r weight pp)
          \<and> whole (s' + weight_difference r weight pp)
          \<and> whole (m + weight_difference r weight pp))
        \<longrightarrow> balanced (snd (setCustomerWeightDetails (JStr oid) weight cp pp w)) (JStr oid))
     \<and> ((0 \<le> cost \<longrightarrow>
            exchange_rate_for w r = JNum x
          \<and> (col r ''customerWeightCostUSD'' = JNull \<or> is_num (col r ''customerWeightCostUSD''))
          \<and> whole (cost - numeric_or0 (col r ''customerWeightCostUSD''))
          \<and> whole (shipping_difference r cost x)
          \<and> whole (s' + shipping_difference r cost x)
          \<and> whole (m + shipping_difference r cost x))
        \<longrightarrow> balanced (snd (addCustomerShippingCost (JStr oid) cost w)) (JStr oid))
     \<and> (get_prop td ''type'' = JStr ''payment'' \<and> get_prop td ''orderId'' = JStr oid
          \<and> get_prop td ''amount'' = JNum a \<and> a \<le> m \<and> whole (m - a)
          \<and> \<not> list_ex (has_id (JStr (rnd w 0))) (tables w TRANSACTIONS_COLLECTION)
        \<longrightarrow> balanced (snd (addTransaction td w)) (JStr oid))
     \<and> (truthy i \<and> filter (has_id i) (tables w TRANSACTIONS_COLLECTION) = [t]
          \<and> col t ''type'' = JStr ''payment'' \<and> col t ''orderId'' = JStr oid
          \<and> col t ''amount'' = JNum b \<longrightarrow>
            (whole (n - b) \<and> whole (m + (b - n))
               \<longrightarrow> balanced (snd (updateTransaction i n w)) (JStr oid))
          \<and> (whole (m + b) \<longrightarrow> balanced (snd (deleteTransaction i w)) (JStr oid))))"
proof -
  have creation: "balanced (snd (addOrder od w)) (JStr (rnd w k))"
    if "get_prop od ''userId'' = JStr uid" "uid \<noteq> []"
       "filter (has_id (JStr uid)) (tables w USERS_COLLECTION) = [u]"
       "get_prop u ''orderCounter'' = JUndef \<or> get_prop u ''orderCounter'' = JNull
            \<or> is_num (get_prop u ''orderCounter'')"
       "get_prop od ''sellingPriceLYD'' = JNum s"
       "get_prop od ''downPaymentLYD'' = JNum d" "0 \<le> d"
       "whole s" "whole (s - d)"
       "k = id_offset od"
       "\<not> list_ex (has_id (JStr (rnd w k))) (tables w ORDERS_COLLECTION)"
       "\<not> list_ex (has_id (JStr (rnd w (Suc k)))) (tables w TRANSACTIONS_COLLECTION)"
       "\<not> list_ex (has_id (JStr (rnd w (Suc (Suc k))))) (tables w TRANSACTIONS_COLLECTION)"
       "rnd w (Suc k) \<noteq> rnd w (Suc (Suc k))"
       "payments_of w (JStr (rnd w k)) = []"
  proof -
    have cnt: "get_prop u ''orderCounter'' = JUndef \<or> get_prop u ''orderCounter'' = JNull
              \<or> (\<exists>x. get_prop u ''orderCounter'' = JNum x)"
      using that(4) by (simp add: is_num_iff)
    show ?thesis
      by (rule addOrder_balanced [OF nf that(1-3) cnt that(5,6,10-14,7,15,8,9)])
  qed
  have kept:
    "((0 \<le> weight \<longrightarrow>
            (col r ''customerWeightCost'' = JNull \<or> is_num (col r ''customerWeightCost''))
          \<and> \<not> list_ex (has_id (JStr (rnd w 0))) (tables w TRANSACTIONS_COLLECTION)
          \<and> whole (weight * pp) \<and> whole (weight_difference r weight pp)
          \<and> whole (s' + weight_difference r weight pp)
          \<and> whole (m + weight_difference r weight pp))
        \<longrightarrow> balanced (snd (setCustomerWeightDetails (JStr oid) weight cp pp w)) (JStr oid))
     \<and> ((0 \<le> cost \<longrightarrow>
            exchange_rate_for w r = JNum x
          \<and> (col r ''customerWeightCostUSD'' = JNull \<or> is_num (col r ''customerWeightCostUSD''))
          \<and> whole (cost - numeric_or0 (col r ''customerWeightCostUSD''))
          \<and> whole (shipping_difference r cost x)
          \<and> whole (s' + shipping_difference r cost x)
          \<and> whole (m + shipping_difference r cost x))
        \<longrightarrow> balanced (snd (addCustomerShippingCost (JStr oid) cost w)) (JStr oid))
     \<and> (get_prop td ''type'' = JStr ''payment'' \<and> get_prop td ''orderId'' = JStr oid
          \<and> get_prop td ''amount'' = JNum a \<and> a \<le> m \<and> whole (m - a)
          \<and> \<not> list_ex (has_id (JStr (rnd w 0))) (tables w TRANSACTIONS_COLLECTION)
        \<longrightarrow> balanced (snd (addTransaction td w)) (JStr oid))
     \<and> (truthy i \<and> filter (has_id i) (tables w TRANSACTIONS_COLLECTION) = [t]
          \<and> col t ''type'' = JStr ''payment'' \<and> col t ''orderId'' = JStr oid
          \<and> col t ''amount'' = JNum b \<longrightarrow>
            (whole (n - b) \<and> whole (m + (b - n))
               \<longrightarrow> balanced (snd (updateTransaction i n w)) (JStr oid))
          \<and> (whole (m + b) \<longrightarrow> balanced (snd (deleteTransaction i w)) (JStr oid)))"
    if oid: "oid \<noteq> []" and bal: "balanced w (JStr oid)" and r: "order_rows w (JStr oid) = [r]"
      and sp: "col r ''sellingPriceLYD'' = JNum s'" and rem: "col r ''remainingAmount'' = JNum m"
  proof -
    have tr: "truthy (JStr oid)" using oid by simp
    show ?thesis
      using weight_keeps_balance [OF nf tr bal r sp rem, of weight pp cp]
        shipping_keeps_balance [OF nf oid bal r sp rem, of cost x]
        payment_keeps_balance [OF nf bal r sp rem, of td a]
        update_keeps_balance [OF nf bal r sp rem, of i t b n]
        delete_keeps_balance [OF nf bal r sp rem, of i t b]
        oid
      by blast
  qed
  show ?thesis using creation kept by blast
qed

lemma w_ledger_facts:
  "no_faults w_ledger"
  "tables w_ledger USERS_COLLECTION
     = [[(''id'', JStr ''u1''), (''username'', JStr ''amal''), (''debt'', JNum 1100),
         (''orderCount'', JNum 2), (''orderCounter'', JNum 2)]]"
  "tables w_ledger ORDERS_COLLECTION
     = [[(''id'', JStr ''o1''), (''userId'', JStr ''u1''), (''status'', JStr ''pending''),
         (''sellingPriceLYD'', JNum 1000), (''downPaymentLYD'', JNum 200),
         (''remainingAmount'', JNum 800), (''exchangeRate'', JNum 5)],
        [(''id'', JStr ''o2''), (''userId'', JStr ''u1''), (''status'', JStr ''pending''),
         (''sellingPriceLYD'', JNum 300), (''downPaymentLYD'', JNum 0),
         (''remainingAmount'', JNum 300)]]"
  "tables w_ledger TRANSACTIONS_COLLECTION
     = [[(''id'', JStr ''q1''), (''orderId'', JStr ''o1''), (''customerId'', JStr ''u1''),
         (''type'', JStr ''order''), (''amount'', JNum 1000)],
        [(''id'', JStr ''p1''), (''orderId'', JStr ''o1''), (''customerId'', JStr ''u1''),
         (''type'', JStr ''payment''), (''amount'', JNum 200)],
        [(''id'', JStr ''q2''), (''orderId'', JStr ''o2''), (''customerId'', JStr ''u1''),
         (''type'', JStr ''order''), (''amount'', JNum 300)]]"
  "rnd w_ledger 0 = ''r''" "rnd w_ledger (Suc 0) = ''rx''" "rnd w_ledger (Suc (Suc 0)) = ''rxx''"
  by (simp_all add: w_ledger_def w0_def put_table_def collection_names no_faults_def)

lemma w_ledger_settings:
  "fst (getAppSettings w_ledger)
     = Inr [(''exchangeRate'', JNum 4), (''pricePerKiloLYD'', JNum 0), (''pricePerKiloUSD'', JNum 0)]"
  by (simp add: getAppSettings_def w_ledger_def js_nullish_def eval_defs)

lemmas ledger_evals = w_ledger_facts has_id_def col_def get_prop_def new_order_def id_offset_def
  payments_of_def balanced_def order_rows_def ledger_equation_def paid_def is_num_def
  numeric_or0_def payment_50_def whole_def weight_difference_def shipping_difference_def
  exchange_rate_for_def w_ledger_settings

text \<open>On the example ledger: creation of a third order; for the first order, weight 2 at
  10 per kilo, a shipping cost of 4 at the order's rate of 5, a payment of 50, the
  recorded payment of 200 changed to 150, and that payment deleted; for the second order,
  which has no rate of its own, a shipping cost of 4 at the rate 4 of the settings.\<close>

theorem ledger_equation_maintained_witness:
  "balanced (snd (addOrder new_order w_ledger)) (JStr ''r'')
   \<and> balanced (snd (setCustomerWeightDetails (JStr ''o1'') 2 3 10 w_ledger)) (JStr ''o1'')
   \<and> balanced (snd (addCustomerShippingCost (JStr ''o1'') 4 w_ledger)) (JStr ''o1'')
   \<and> balanced (snd (addTransaction payment_50 w_ledger)) (JStr ''o1'')
   \<and> balanced (snd (updateTransaction (JStr ''p1'') 150 w_ledger)) (JStr ''o1'')
   \<and> balanced (snd (deleteTransaction (JStr ''p1'') w_ledger)) (JStr ''o1'')
   \<and> balanced (snd (addCustomerShippingCost (JStr ''o2'') 4 w_ledger)) (JStr ''o2'')"
proof -
  let ?u = "[(''id'', JStr ''u1''), (''username'', JStr ''amal''), (''debt'', JNum 1100),
             (''orderCount'', JNum 2), (''orderCounter'', JNum 2)]"
  let ?r1 = "[(''id'', JStr ''o1''), (''userId'', JStr ''u1''), (''status'', JStr ''pending''),
              (''sellingPriceLYD'', JNum 1000), (''downPaymentLYD'', JNum 200),
              (''remainingAmount'', JNum 800), (''exchangeRate'', JNum 5)]"
  let ?r2 = "[(''id'', JStr ''o2''), (''userId'', JStr ''u1''), (''status'', JStr ''pending''),
              (''sellingPriceLYD'', JNum 300), (''downPaymentLYD'', JNum 0),
              (''remainingAmount'', JNum 300)]"
  let ?t = "[(''id'', JStr ''p1''), (''orderId'', JStr ''o1''), (''customerId'', JStr ''u1''),
             (''type'', JStr ''payment''), (''amount'', JNum 200)]"
  have nf: "no_faults w_ledger" by (rule w_ledger_facts)
  have creation:
    "get_prop new_order ''userId'' = JStr ''u1'' \<and> ''u1'' \<noteq> []
       \<and> filter (has_id (JStr ''u1'')) (tables w_ledger USERS_COLLECTION) = [?u]
       \<and> (get_prop ?u ''orderCounter'' = JUndef \<or> get_prop ?u ''orderCounter'' = JNull
            \<or> is_num (get_prop ?u ''orderCounter''))
       \<and> get_prop new_order ''sellingPriceLYD'' = JNum 1000
       \<and> get_prop new_order ''downPaymentLYD'' = JNum 200 \<and> (0::rat) \<le> 200
       \<and> whole 1000 \<and> whole (1000 - 200)
       \<and> 0 = id_offset new_order
       \<and> \<not> list_ex (has_id (JStr (rnd w_ledger 0))) (tables w_ledger ORDERS_COLLECTION)
       \<and> \<not> list_ex (has_id (JStr (rnd w_ledger (Suc 0)))) (tables w_ledger TRANSACTIONS_COLLECTION)
       \<and> \<not> list_ex (has_id (JStr (rnd w_ledger (Suc (Suc 0))))) (tables w_ledger TRANSACTIONS_COLLECTION)
       \<and> rnd w_ledger (Suc 0) \<noteq> rnd w_ledger (Suc (Suc 0))
       \<and> payments_of w_ledger (JStr (rnd w_ledger 0)) = []"
    by (simp add: ledger_evals)
  have first: "''o1'' \<noteq> [] \<and> balanced w_ledger (JStr ''o1'')
       \<and> order_rows w_ledger (JStr ''o1'') = [?r1]
       \<and> col ?r1 ''sellingPriceLYD'' = JNum 1000 \<and> col ?r1 ''remainingAmount'' = JNum 800"
    by (simp add: ledger_evals)
  have weight:
    "(0::rat) \<le> 2 \<longrightarrow>
         (col ?r1 ''customerWeightCost'' = JNull \<or> is_num (col ?r1 ''customerWeightCost''))
       \<and> \<not> list_ex (has_id (JStr (rnd w_ledger 0))) (tables w_ledger TRANSACTIONS_COLLECTION)
       \<and> whole (2 * 10) \<and> whole (weight_difference ?r1 2 10)
       \<and> whole (1000 + weight_difference ?r1 2 10)
       \<and> whole (800 + weight_difference ?r1 2 10)"
    by (simp add: ledger_evals)
  have shipping:
    "(0::rat) \<le> 4 \<longrightarrow>
         exchange_rate_for w_ledger ?r1 = JNum 5
       \<and> (col ?r1 ''customerWeightCostUSD'' = JNull \<or> is_num (col ?r1 ''customerWeightCostUSD''))
       \<and> whole (4 - numeric_or0 (col ?r1 ''customerWeightCostUSD''))
       \<and> whole (shipping_difference ?r1 4 5)
       \<and> whole (1000 + shipping_difference ?r1 4 5)
       \<and> whole (800 + shipping_difference ?r1 4 5)"
    by (simp add: ledger_evals)
  have payment:
    "get_prop payment_50 ''type'' = JStr ''payment'' \<and> get_prop payment_50 ''orderId'' = JStr ''o1''
       \<and> get_prop payment_50 ''amount'' = JNum 50 \<and> (50::rat) \<le> 800 \<and> whole (800 - 50)
       \<and> \<not> list_ex (has_id (JStr (rnd w_ledger 0))) (tables w_ledger TRANSACTIONS_COLLECTION)"
    by (simp add: ledger_evals)
  have recorded:
    "truthy (JStr ''p1'') \<and> filter (has_id (JStr ''p1'')) (tables w_ledger TRANSACTIONS_COLLECTION) = [?t]
       \<and> col ?t ''type'' = JStr ''payment'' \<and> col ?t ''orderId'' = JStr ''o1''
       \<and> col ?t ''amount'' = JNum 200"
    by (simp add: ledger_evals)
  have changed: "whole (150 - 200) \<and> whole (800 + (200 - 150))" "whole (800 + 200)"
    by (simp_all add: whole_def)
  have second: "''o2'' \<noteq> [] \<and> balanced w_ledger (JStr ''o2'')
       \<and> order_rows w_ledger (JStr ''o2'') = [?r2]
       \<and> col ?r2 ''sellingPriceLYD'' = JNum 300 \<and> col ?r2 ''remainingAmount'' = JNum 300"
    by (simp add: ledger_evals)
  have fallback:
    "(0::rat) \<le> 4 \<longrightarrow>
         exchange_rate_for w_ledger ?r2 = JNum 4
       \<and> (col ?r2 ''customerWeightCostUSD'' = JNull \<or> is_num (col ?r2 ''customerWeightCostUSD''))
       \<and> whole (4 - numeric_or0 (col ?r2 ''customerWeightCostUSD''))
       \<and> whole (shipping_difference ?r2 4 4)
       \<and> whole (300 + shipping_difference ?r2 4 4)
       \<and> whole (300 + shipping_difference ?r2 4 4)"
    by (simp add: ledger_evals)
  have one:
    "balanced (snd (addOrder new_order w_ledger)) (JStr ''r'')
     \<and> balanced (snd (setCustomerWeightDetails (JStr ''o1'') 2 3 10 w_ledger)) (JStr ''o1'')
     \<and> balanced (snd (addCustomerShippingCost (JStr ''o1'') 4 w_ledger)) (JStr ''o1'')
     \<and> balanced (snd (addTransaction payment_50 w_ledger)) (JStr ''o1'')
     \<and> balanced (snd (updateTransaction (JStr ''p1'') 150 w_ledger)) (JStr ''o1'')
     \<and> balanced (snd (deleteTransaction (JStr ''p1'') w_ledger)) (JStr ''o1'')"
    using ledger_equation_maintained [OF nf, where od = new_order and uid = "''u1''" and u = ?u
        and s = 1000 and d = 200 and k = 0 and oid = "''o1''" and r = ?r1 and s' = 1000
        and m = 800 and weight = 2 and cp = 3 and pp = 10 and cost = 4 and x = 5
        and td = payment_50 and a = 50 and i = "JStr ''p1''" and t = ?t and b = 200 and n = 150]
      creation first weight shipping payment recorded changed
    unfolding w_ledger_facts(5)
    by blast
  have two: "balanced (snd (addCustomerShippingCost (JStr ''o2'') 4 w_ledger)) (JStr ''o2'')"
    using ledger_equation_maintained [OF nf, where oid = "''o2''" and r = ?r2 and s' = 300
        and m = 300 and cost = 4 and x = 4]
      second fallback
    by blast
  show ?thesis using one two by blast
qed

end
